(* ===== verification/Prelude.thy ===== *)
theory Prelude
  imports Main "HOL-Library.Char_ord" "HOL-Library.List_Lexorder" "HOL-Library.Multiset"
begin

text \<open>
  Shared vocabulary of the development: the JavaScript string primitives that the
  sources call (\<open>String.prototype.split\<close> with a one-character separator,
  \<open>trim\<close>, \<open>includes\<close>), their laws, and generic lemmas on list predicates.
  Strings are \<open>char list\<close>, one \<open>char\<close> per byte: the sources only compare,
  split and trim ASCII text, and a non-ASCII character is several bytes here.
  Timestamps are the ISO-8601 strings of \<open>Date.prototype.toISOString\<close>; they
  have a fixed width, so their lexicographic order (\<open>HOL-Library.List_Lexorder\<close>
  over \<open>HOL-Library.Char_ord\<close>) is the chronological one.
\<close>

named_theorems js_simps "evaluation rules of the JavaScript string primitives"
named_theorems model_defs "definitions unfolded when a handler is evaluated on a concrete input"

type_synonym timestamp = string
type_synonym uuid = string

section \<open>String.prototype.split with a one-character separator\<close>

text \<open>
  \<open>s.split(c)\<close> cuts at every occurrence of \<open>c\<close>; it always returns at least one
  piece (\<open>"".split(c)\<close> is \<open>[""]\<close>, and a trailing separator gives a trailing
  empty piece).
\<close>

fun js_split :: "char \<Rightarrow> string \<Rightarrow> string list" where
  "js_split c [] = [[]]"
| "js_split c (x # xs) =
     (if x = c then [] # js_split c xs
      else (case js_split c xs of [] \<Rightarrow> [[x]] | w # ws \<Rightarrow> (x # w) # ws))"

text \<open>\<open>Array.prototype.join\<close> with a one-character separator, the inverse of split.\<close>

fun js_join :: "char \<Rightarrow> string list \<Rightarrow> string" where
  "js_join c [] = []"
| "js_join c [w] = w"
| "js_join c (w # v # ws) = w @ c # js_join c (v # ws)"

section \<open>String.prototype.trim\<close>

text \<open>
  The ECMAScript white space and line terminators that are single bytes: TAB, LF, VT,
  FF, CR and SPACE. The multi-byte ones (NBSP, BOM, the Unicode separators) are
  several \<open>char\<close>s here and are not trimmed.
\<close>

definition js_is_space :: "char \<Rightarrow> bool" where
  "js_is_space ch \<longleftrightarrow>
     ch = CHR 0x09 \<or> ch = CHR 0x0A \<or> ch = CHR 0x0B \<or> ch = CHR 0x0C \<or> ch = CHR 0x0D \<or> ch = CHR 0x20"

definition js_trim :: "string \<Rightarrow> string" where
  "js_trim s = rev (dropWhile js_is_space (rev (dropWhile js_is_space s)))"

section \<open>String.prototype.includes\<close>

text \<open>\<open>s.includes(t)\<close>: \<open>t\<close> occurs in \<open>s\<close> as a contiguous, case-sensitive substring.\<close>

fun js_includes :: "string \<Rightarrow> string \<Rightarrow> bool" where
  "js_includes [] t \<longleftrightarrow> t = []"
| "js_includes (x # s) t \<longleftrightarrow> take (length t) (x # s) = t \<or> js_includes s t"

section \<open>Lemmas on split and join\<close>

lemma js_split_not_Nil [simp]: "js_split c s \<noteq> []"
  by (induction s) (auto split: list.split)

lemma js_split_Cons_other:
  "x \<noteq> c \<Longrightarrow> js_split c (x # xs) = (x # hd (js_split c xs)) # tl (js_split c xs)"
  by (cases "js_split c xs") auto

lemma js_join_Cons_Cons:
  "ws \<noteq> [] \<Longrightarrow> js_join c (w # ws) = w @ c # js_join c ws"
  by (cases ws) auto

lemma js_join_prepend:
  "ws \<noteq> [] \<Longrightarrow> js_join c ((x # hd ws) # tl ws) = x # js_join c ws"
  by (cases ws; cases "tl ws") auto

lemma js_split_no_sep: "w \<in> set (js_split c s) \<Longrightarrow> c \<notin> set w"
proof (induction s arbitrary: w)
  case Nil
  then show ?case by simp
next
  case (Cons x xs)
  then show ?case
    by (cases "js_split c xs") (auto split: if_splits)
qed

lemma length_js_split: "length (js_split c s) = Suc (count_list s c)"
  by (induction s) (auto split: list.split)

lemma js_split_append_sep:
  "js_split c (u @ c # v) = js_split c u @ js_split c v"
proof (induction u)
  case Nil
  then show ?case by simp
next
  case (Cons x u)
  then show ?case
    by (cases "js_split c u") (auto simp: js_split_Cons_other)
qed

lemma js_split_no_sep_id: "c \<notin> set s \<Longrightarrow> js_split c s = [s]"
  by (induction s) auto

lemma js_join_split [simp]: "js_join c (js_split c s) = s"
proof (induction s)
  case Nil
  then show ?case by simp
next
  case (Cons x xs)
  show ?case
  proof (cases "x = c")
    case True
    with Cons show ?thesis by (simp add: js_join_Cons_Cons)
  next
    case False
    have "js_join c (js_split c (x # xs)) = x # js_join c (js_split c xs)"
      by (simp only: js_split_Cons_other [OF False] js_join_prepend [OF js_split_not_Nil])
    with Cons.IH show ?thesis by simp
  qed
qed

lemma js_split_join:
  "ws \<noteq> [] \<Longrightarrow> (\<forall>w \<in> set ws. c \<notin> set w) \<Longrightarrow> js_split c (js_join c ws) = ws"
proof (induction ws rule: js_join.induct)
  case (2 c w)
  then show ?case by (simp add: js_split_no_sep_id)
next
  case (3 c w v ws)
  then show ?case
    by (simp add: js_split_append_sep js_split_no_sep_id)
qed simp

lemma in_set_map_filter: "y \<in> set (List.map_filter f xs) \<longleftrightarrow> (\<exists>x \<in> set xs. f x = Some y)"
  by (induction xs) (auto split: option.splits)

text \<open>A string splits into exactly two pieces when it has exactly one separator.\<close>

lemma js_split_two:
  "js_split c s = [a, b] \<longleftrightarrow> s = a @ c # b \<and> c \<notin> set a \<and> c \<notin> set b"
proof
  assume ab: "js_split c s = [a, b]"
  have "s = js_join c [a, b]" using js_join_split [of c s] ab by simp
  moreover have "c \<notin> set a" "c \<notin> set b" using js_split_no_sep [of _ c s] ab by auto
  ultimately show "s = a @ c # b \<and> c \<notin> set a \<and> c \<notin> set b" by simp
next
  assume "s = a @ c # b \<and> c \<notin> set a \<and> c \<notin> set b"
  then show "js_split c s = [a, b]" by (simp add: js_split_append_sep js_split_no_sep_id)
qed

section \<open>Lemmas on trim\<close>

lemma all_set_dropWhile_iff:
  "(\<forall>x \<in> set (dropWhile P s). P x) \<longleftrightarrow> (\<forall>x \<in> set s. P x)"
  by (induction s) auto

lemma js_trim_Nil_iff: "js_trim s = [] \<longleftrightarrow> (\<forall>ch \<in> set s. js_is_space ch)"
  by (simp add: js_trim_def dropWhile_eq_Nil_conv all_set_dropWhile_iff)

lemma js_trim_Nil [simp]: "js_trim [] = []"
  by (simp add: js_trim_def)

lemma dropWhile_rev_strip:
  assumes d: "dropWhile P d = d"
  shows "dropWhile P (rev (dropWhile P (rev d))) = rev (dropWhile P (rev d))"
proof (cases "dropWhile P (rev d) = []")
  case True
  show ?thesis by (simp only: True) simp
next
  case False
  let ?X = "rev (dropWhile P (rev d))" and ?Y = "rev (takeWhile P (rev d))"
  have split: "d = ?X @ ?Y"
    by (metis rev_append rev_rev_ident takeWhile_dropWhile_id)
  obtain x where "x \<in> set ?X" "\<not> P x"
    using False hd_dropWhile [OF False] by (metis hd_in_set set_rev)
  then have "dropWhile P (?X @ ?Y) = dropWhile P ?X @ ?Y"
    by (rule dropWhile_append1)
  with d split show ?thesis by (metis append_same_eq)
qed

lemma dropWhile_idem: "dropWhile P (dropWhile P s) = dropWhile P s"
  by (induction s) auto

lemma js_trim_idem: "js_trim (js_trim s) = js_trim s"
proof -
  let ?d = "dropWhile js_is_space s"
  have "dropWhile js_is_space (rev (dropWhile js_is_space (rev ?d))) = rev (dropWhile js_is_space (rev ?d))"
    by (rule dropWhile_rev_strip) (rule dropWhile_idem)
  then show ?thesis by (simp add: js_trim_def dropWhile_idem)
qed
section \<open>Lemmas on includes\<close>

lemma take_length_eq_iff: "take (length t) s = t \<longleftrightarrow> (\<exists>v. s = t @ v)"
  by (metis append_eq_conv_conj)

text \<open>The recursive \<open>js_includes\<close> decides the substring relation.\<close>

lemma js_includes_iff: "js_includes s t \<longleftrightarrow> (\<exists>u v. s = u @ t @ v)"
proof (induction s)
  case Nil
  then show ?case by simp
next
  case (Cons x s)
  have "(\<exists>u v. x # s = u @ t @ v) \<longleftrightarrow> (\<exists>v. x # s = t @ v) \<or> (\<exists>u v. s = u @ t @ v)"
    by (auto simp: Cons_eq_append_conv)
  with Cons.IH show ?case by (simp add: take_length_eq_iff)
qed

lemma js_includes_Nil [simp]: "js_includes s []"
  by (cases s) simp_all

lemma js_includes_refl [simp]: "js_includes s s"
  by (cases s) simp_all

section \<open>Generic list lemmas\<close>

text \<open>Removing one element (\<open>splice(k, 1)\<close>) keeps a list distinct.\<close>

lemma distinct_take_drop_Suc: "distinct xs \<Longrightarrow> distinct (take k xs @ drop (Suc k) xs)"
  by (simp add: set_take_disj_set_drop_if_distinct)

text \<open>\<open>List.map_filter\<close> keeps nothing exactly when the function rejects every element.\<close>

lemma map_filter_Nil_iff: "List.map_filter f xs = [] \<longleftrightarrow> (\<forall>x \<in> set xs. f x = None)"
  by (induction xs) (auto simp: List.map_filter_simps split: option.split)

text \<open>The empty string is the least timestamp.\<close>

lemma Nil_le_string [simp]: "[] \<le> (x :: string)"
  by (cases x) simp_all

section \<open>Lemmas on list predicates\<close>

lemma list_all_parts:
  "list_all P xs \<Longrightarrow> list_all P (tl xs) \<and> list_all P (take i xs) \<and> list_all P (drop i xs)"
proof (induction xs arbitrary: i)
  case Nil then show ?case by simp
next
  case (Cons x xs) then show ?case by (cases i) auto
qed

lemma list_all_hd: "list_all P xs \<Longrightarrow> xs \<noteq> [] \<Longrightarrow> P (hd xs)"
  by (cases xs) auto

lemma list_all_replicate [simp]: "list_all P (replicate n x) \<longleftrightarrow> n = 0 \<or> P x"
  by (induction n) auto

lemma js_trim_id: "list_all (\<lambda>c. \<not> js_is_space c) s \<Longrightarrow> js_trim s = s"
proof -
  assume a: "list_all (\<lambda>c. \<not> js_is_space c) s"
  then have "dropWhile js_is_space s = s" by (cases s) auto
  moreover from a have "dropWhile js_is_space (rev s) = rev s" by (cases "rev s") (auto simp: list_all_iff)
  ultimately show ?thesis by (simp add: js_trim_def)
qed

end
