(* ===== verification/Database.thy ===== *)
theory Database
  imports Prelude
begin

text \<open>
  The datastore (\<open>src/database.js\<close>, not among the sources: modelled from the
  specification, section 4.2): named tables of task records held in memory and
  written whole to a backing file after every mutation. The state is the record
  \<open>db\<close>: \<open>tables\<close> is the in-memory mapping, \<open>persisted\<close> the content of
  the backing file. Operations are functions from state to state; reads return
  the rows. The table abstraction \<open>task_map\<close> (a map from id to task) is the
  contract the handlers rely on, and each operation is shown to refine the
  corresponding map operation.
\<close>

section \<open>Tasks and their fields\<close>

text \<open>The task object built by the create handler (\<open>routes.js\<close>, lines 60--67).\<close>

record task =
  task_id :: uuid
  title :: string
  description :: string
  completed_at :: timestamp
  created_at :: timestamp
  updated_at :: timestamp

text \<open>Field names, used as the keys of filters and partial updates.\<close>

datatype field = Id | Title | Description | Completed_at | Created_at | Updated_at

fun get_field :: "field \<Rightarrow> task \<Rightarrow> string" where
  "get_field Id r = task_id r"
| "get_field Title r = title r"
| "get_field Description r = description r"
| "get_field Completed_at r = completed_at r"
| "get_field Created_at r = created_at r"
| "get_field Updated_at r = updated_at r"

fun set_field :: "field \<Rightarrow> string \<Rightarrow> task \<Rightarrow> task" where
  "set_field Id v r = r\<lparr>task_id := v\<rparr>"
| "set_field Title v r = r\<lparr>title := v\<rparr>"
| "set_field Description v r = r\<lparr>description := v\<rparr>"
| "set_field Completed_at v r = r\<lparr>completed_at := v\<rparr>"
| "set_field Created_at v r = r\<lparr>created_at := v\<rparr>"
| "set_field Updated_at v r = r\<lparr>updated_at := v\<rparr>"

text \<open>A filter or a partial update: the entries of a JavaScript object, in order.\<close>

type_synonym fields = "(field \<times> string) list"

section \<open>The store\<close>

record db =
  tables :: "string \<rightharpoonup> task list"
  persisted :: "string \<rightharpoonup> task list"

text \<open>\<open>this.#database[table] ?? []\<close>: an absent table reads as empty.\<close>

definition table_rows :: "db \<Rightarrow> string \<Rightarrow> task list" where
  "table_rows d t = (case tables d t of None \<Rightarrow> [] | Some rs \<Rightarrow> rs)"

text \<open>\<open>#persist()\<close>: the whole in-memory state is written to the backing file.\<close>

definition persist :: "db \<Rightarrow> db" where
  "persist d = d\<lparr>persisted := tables d\<rparr>"

text \<open>
  Start-up: the backing file is read; when it is missing or unreadable the store
  starts empty and writes the empty state back.
\<close>

definition load :: "(string \<rightharpoonup> task list) option \<Rightarrow> db" where
  "load f = (case f of
      Some m \<Rightarrow> \<lparr>tables = m, persisted = m\<rparr>
    | None \<Rightarrow> persist \<lparr>tables = Map.empty, persisted = Map.empty\<rparr>)"

section \<open>Reads\<close>

text \<open>\<open>select\<close>: every filter entry must hold, each as a case-sensitive substring test.\<close>

definition matches_substr :: "fields \<Rightarrow> task \<Rightarrow> bool" where
  "matches_substr f r \<longleftrightarrow> list_all (\<lambda>(k, v). js_includes (get_field k r) v) f"

definition select :: "db \<Rightarrow> string \<Rightarrow> fields option \<Rightarrow> task list" where
  "select d t f = (case f of
      None \<Rightarrow> table_rows d t
    | Some fl \<Rightarrow> filter (matches_substr fl) (table_rows d t))"

text \<open>\<open>selectFirstOrDefault\<close>: the first row equal to the filter on every entry.\<close>

definition matches_exact :: "fields \<Rightarrow> task \<Rightarrow> bool" where
  "matches_exact f r \<longleftrightarrow> list_all (\<lambda>(k, v). get_field k r = v) f"

definition selectFirstOrDefault :: "db \<Rightarrow> string \<Rightarrow> fields \<Rightarrow> task option" where
  "selectFirstOrDefault d t f = find (matches_exact f) (table_rows d t)"

section \<open>Mutations\<close>

text \<open>\<open>Array.prototype.findIndex\<close>, with \<open>None\<close> for its \<open>-1\<close>.\<close>

fun find_index :: "('a \<Rightarrow> bool) \<Rightarrow> 'a list \<Rightarrow> nat option" where
  "find_index P [] = None"
| "find_index P (x # xs) = (if P x then Some 0 else map_option Suc (find_index P xs))"

definition insert_db :: "string \<Rightarrow> task \<Rightarrow> db \<Rightarrow> db" where
  "insert_db t r d = persist (d\<lparr>tables := (tables d)(t \<mapsto> table_rows d t @ [r])\<rparr>)"

text \<open>The spread \<open>{...row, ...data}\<close>: later entries of the patch win.\<close>

definition merge_fields :: "fields \<Rightarrow> task \<Rightarrow> task" where
  "merge_fields p r = fold (\<lambda>(k, v). set_field k v) p r"

definition update :: "string \<Rightarrow> uuid \<Rightarrow> fields \<Rightarrow> db \<Rightarrow> db" where
  "update t i p d = (let rows = table_rows d t in
     case find_index (\<lambda>r. task_id r = i) rows of
       None \<Rightarrow> d
     | Some k \<Rightarrow> persist (d\<lparr>tables := (tables d)(t \<mapsto> rows[k := merge_fields p (rows ! k)])\<rparr>))"

text \<open>\<open>delete\<close> removes the first row with that id (\<open>splice(index, 1)\<close>) and persists in either case.\<close>

definition delete :: "string \<Rightarrow> uuid \<Rightarrow> db \<Rightarrow> db" where
  "delete t i d = (let rows = table_rows d t in
     persist (case find_index (\<lambda>r. task_id r = i) rows of
       None \<Rightarrow> d
     | Some k \<Rightarrow> d\<lparr>tables := (tables d)(t \<mapsto> take k rows @ drop (Suc k) rows)\<rparr>))"

section \<open>The table as a map from ids\<close>

text \<open>
  The abstraction of a table: the map from an id to the first row with that id,
  which is the row \<open>selectFirstOrDefault(table, {id})\<close> returns. \<open>ids_distinct\<close>
  is the uniqueness of ids the specification requires; \<open>consistent\<close> says the
  backing file holds the in-memory state.
\<close>

definition task_map :: "task list \<Rightarrow> uuid \<rightharpoonup> task" where
  "task_map rows = map_of (map (\<lambda>r. (task_id r, r)) rows)"

definition ids_distinct :: "task list \<Rightarrow> bool" where
  "ids_distinct rows \<longleftrightarrow> distinct (map task_id rows)"

definition consistent :: "db \<Rightarrow> bool" where
  "consistent d \<longleftrightarrow> persisted d = tables d"

section \<open>Lemmas on the store\<close>

lemma table_rows_upd [simp]: "table_rows (d\<lparr>tables := (tables d)(t \<mapsto> rs)\<rparr>) t = rs"
  by (simp add: table_rows_def)

lemma table_rows_upd_other [simp]:
  "t' \<noteq> t \<Longrightarrow> table_rows (d\<lparr>tables := (tables d)(t \<mapsto> rs)\<rparr>) t' = table_rows d t'"
  by (simp add: table_rows_def)

lemma table_rows_persist [simp]: "table_rows (persist d) t = table_rows d t"
  by (simp add: table_rows_def persist_def)

lemma tables_persist [simp]: "tables (persist d) = tables d"
  by (simp add: persist_def)

lemma persisted_persist [simp]: "persisted (persist d) = tables d"
  by (simp add: persist_def)

lemma find_index_SomeD:
  "find_index P xs = Some k \<Longrightarrow> k < length xs \<and> P (xs ! k) \<and> (\<forall>j < k. \<not> P (xs ! j))"
proof (induction xs arbitrary: k)
  case Nil
  then show ?case by simp
next
  case (Cons x xs)
  then show ?case
    by (cases k) (auto split: if_splits simp: less_Suc_eq_0_disj)
qed

lemma find_index_None_iff: "find_index P xs = None \<longleftrightarrow> (\<forall>x \<in> set xs. \<not> P x)"
  by (induction xs) auto

lemma selectFirstOrDefault_id:
  "selectFirstOrDefault d t [(Id, i)] = task_map (table_rows d t) i"
proof -
  have "\<And>rows. find (matches_exact [(Id, i)]) rows = map_of (map (\<lambda>r. (task_id r, r)) rows) i"
  proof -
    fix rows show "find (matches_exact [(Id, i)]) rows = map_of (map (\<lambda>r. (task_id r, r)) rows) i"
      by (induction rows) (auto simp: matches_exact_def)
  qed
  then show ?thesis by (simp add: selectFirstOrDefault_def task_map_def)
qed

lemma task_map_append_fresh:
  "task_id r \<notin> set (map task_id rows) \<Longrightarrow> task_map (rows @ [r]) = (task_map rows)(task_id r \<mapsto> r)"
  by (induction rows) (auto simp: task_map_def fun_eq_iff)

lemma task_map_Nil [simp]: "task_map [] = Map.empty"
  by (simp add: task_map_def)

lemma task_map_Cons [simp]: "task_map (x # xs) = (task_map xs)(task_id x \<mapsto> x)"
  by (simp add: task_map_def)

lemma find_index_task_map:
  "find_index (\<lambda>r. task_id r = i) rows = Some k \<Longrightarrow> task_map rows i = Some (rows ! k)"
  by (induction rows arbitrary: k) (auto split: if_splits)

lemma task_map_list_update:
  "find_index (\<lambda>r. task_id r = i) rows = Some k \<Longrightarrow> task_id r' = i \<Longrightarrow>
   task_map (rows[k := r']) = (task_map rows)(i \<mapsto> r')"
proof (induction rows arbitrary: k)
  case Nil
  then show ?case by simp
next
  case (Cons x xs)
  show ?case
  proof (cases "task_id x = i")
    case True
    with Cons.prems show ?thesis by auto
  next
    case False
    with Cons.prems obtain k' where k: "k = Suc k'" "find_index (\<lambda>r. task_id r = i) xs = Some k'"
      by (auto split: if_splits)
    with Cons.IH Cons.prems have "task_map (xs[k' := r']) = (task_map xs)(i \<mapsto> r')"
      by blast
    with k False show ?thesis by (auto simp: fun_eq_iff)
  qed
qed

lemma task_map_remove:
  assumes "find_index (\<lambda>r. task_id r = i) rows = Some k" and "ids_distinct rows"
  shows "task_map (take k rows @ drop (Suc k) rows) = (task_map rows)(i := None)"
  using assms
proof (induction rows arbitrary: k)
  case Nil
  then show ?case by simp
next
  case (Cons x xs)
  show ?case
  proof (cases "task_id x = i")
    case True
    with Cons.prems have "k = 0" by simp
    moreover have "task_map xs i = None"
      using True Cons.prems(2) by (simp add: ids_distinct_def task_map_def map_of_eq_None_iff image_image)
    ultimately show ?thesis using True
      by (auto simp: fun_eq_iff)
  next
    case False
    with Cons.prems obtain k' where "k = Suc k'" "find_index (\<lambda>r. task_id r = i) xs = Some k'"
      by (auto split: if_splits)
    with Cons.IH Cons.prems False show ?thesis
      by (auto simp: ids_distinct_def fun_upd_twist)
  qed
qed

lemma dom_task_map: "dom (task_map rows) = set (map task_id rows)"
  by (simp add: task_map_def dom_map_of_conv_image_fst image_image)

lemma task_id_set_field [simp]: "k \<noteq> Id \<Longrightarrow> task_id (set_field k v r) = task_id r"
  by (cases k) simp_all

lemma task_id_merge_fields:
  "Id \<notin> fst ` set p \<Longrightarrow> task_id (merge_fields p r) = task_id r"
  unfolding merge_fields_def
  by (induction p arbitrary: r) (auto split: prod.splits)

lemma find_index_id_None:
  "find_index (\<lambda>r. task_id r = i) rows = None \<Longrightarrow> task_map rows i = None"
  by (auto simp: find_index_None_iff map_of_eq_None_iff task_map_def)

lemma table_rows_update_cases:
  "table_rows (update t i p d) t =
     (case find_index (\<lambda>r. task_id r = i) (table_rows d t) of
        None \<Rightarrow> table_rows d t
      | Some k \<Rightarrow> (table_rows d t)[k := merge_fields p (table_rows d t ! k)])"
  by (simp add: update_def Let_def split: option.split)

lemma table_rows_delete_cases:
  "table_rows (delete t i d) t =
     (case find_index (\<lambda>r. task_id r = i) (table_rows d t) of
        None \<Rightarrow> table_rows d t
      | Some k \<Rightarrow> take k (table_rows d t) @ drop (Suc k) (table_rows d t))"
  by (simp add: delete_def Let_def split: option.split)

lemma insert_db_refines:
  "task_id r \<notin> dom (task_map (table_rows d t)) \<Longrightarrow>
   task_map (table_rows (insert_db t r d) t) = (task_map (table_rows d t))(task_id r \<mapsto> r)"
  by (simp add: insert_db_def dom_task_map task_map_append_fresh)

lemma update_refines:
  assumes "Id \<notin> fst ` set p"
  shows "task_map (table_rows (update t i p d) t) =
           (task_map (table_rows d t))(i := map_option (merge_fields p) (task_map (table_rows d t) i))"
proof (cases "find_index (\<lambda>r. task_id r = i) (table_rows d t)")
  case None
  then show ?thesis
    by (simp add: table_rows_update_cases find_index_id_None fun_upd_idem)
next
  case (Some k)
  have "task_id (merge_fields p (table_rows d t ! k)) = i"
    using find_index_SomeD [OF Some] task_id_merge_fields [OF assms] by simp
  with Some show ?thesis
    by (simp add: table_rows_update_cases task_map_list_update find_index_task_map)
qed

lemma delete_refines:
  "ids_distinct (table_rows d t) \<Longrightarrow>
   task_map (table_rows (delete t i d) t) = (task_map (table_rows d t))(i := None)"
  by (auto simp: table_rows_delete_cases task_map_remove find_index_id_None fun_upd_idem
      split: option.split)

lemma insert_db_ids_distinct:
  "ids_distinct (table_rows d t) \<Longrightarrow> task_id r \<notin> set (map task_id (table_rows d t)) \<Longrightarrow>
   ids_distinct (table_rows (insert_db t r d) t)"
  by (simp add: insert_db_def ids_distinct_def)

lemma update_ids_distinct:
  assumes "ids_distinct (table_rows d t)" and "Id \<notin> fst ` set p"
  shows "ids_distinct (table_rows (update t i p d) t)"
proof (cases "find_index (\<lambda>r. task_id r = i) (table_rows d t)")
  case None
  with assms show ?thesis by (simp add: table_rows_update_cases)
next
  case (Some k)
  then have "k < length (table_rows d t)" by (simp add: find_index_SomeD)
  then have "(map task_id (table_rows d t))[k := task_id (table_rows d t ! k)] =
             map task_id (table_rows d t)"
    by (metis list_update_id nth_map length_map)
  then have "map task_id ((table_rows d t)[k := merge_fields p (table_rows d t ! k)]) =
             map task_id (table_rows d t)"
    by (simp add: map_update task_id_merge_fields [OF assms(2)])
  with assms Some show ?thesis by (simp add: table_rows_update_cases ids_distinct_def)
qed

lemma delete_ids_distinct:
  assumes "ids_distinct (table_rows d t)"
  shows "ids_distinct (table_rows (delete t i d) t)"
proof (cases "find_index (\<lambda>r. task_id r = i) (table_rows d t)")
  case None
  with assms show ?thesis by (simp add: table_rows_delete_cases)
next
  case (Some k)
  have "distinct (take k (map task_id (table_rows d t)) @ drop (Suc k) (map task_id (table_rows d t)))"
    using assms by (intro distinct_take_drop_Suc) (simp add: ids_distinct_def)
  with Some show ?thesis
    by (simp add: table_rows_delete_cases ids_distinct_def take_map drop_map)
qed

lemma consistent_persist [simp]: "consistent (persist d)"
  by (simp add: consistent_def)

lemma consistent_insert_db [simp]: "consistent (insert_db t r d)"
  by (simp add: consistent_def insert_db_def)

lemma consistent_delete [simp]: "consistent (delete t i d)"
  by (simp add: consistent_def delete_def Let_def)

lemma consistent_update: "consistent d \<Longrightarrow> consistent (update t i p d)"
  by (simp add: consistent_def update_def Let_def split: option.split)

lemma task_map_SomeD:
  assumes "task_map rows i = Some r"
  shows "\<exists>k. find_index (\<lambda>x. task_id x = i) rows = Some k \<and> rows ! k = r"
proof (cases "find_index (\<lambda>x. task_id x = i) rows")
  case None
  with assms show ?thesis by (simp add: find_index_id_None)
next
  case (Some k)
  with assms find_index_task_map [OF Some] show ?thesis by simp
qed

lemma task_map_in_set: "task_map rows i = Some r \<Longrightarrow> r \<in> set rows"
  by (induction rows) (auto split: if_splits)

lemma set_rows_insert_db: "set (table_rows (insert_db t r d) t) = insert r (set (table_rows d t))"
  by (auto simp: insert_db_def)

lemma set_rows_update:
  assumes "task_map (table_rows d t) i = Some r"
  shows "set (table_rows (update t i p d) t) \<subseteq> insert (merge_fields p r) (set (table_rows d t))"
proof -
  obtain k where k: "find_index (\<lambda>x. task_id x = i) (table_rows d t) = Some k" "table_rows d t ! k = r"
    using task_map_SomeD [OF assms] by blast
  then show ?thesis
    by (simp add: table_rows_update_cases set_update_subset_insert)
qed

lemma set_rows_delete: "set (table_rows (delete t i d) t) \<subseteq> set (table_rows d t)"
  by (auto simp: table_rows_delete_cases split: option.split dest: in_set_takeD in_set_dropD)

lemma dom_tables_insert_db: "dom (tables (insert_db t r d)) = insert t (dom (tables d))"
  by (simp add: insert_db_def)

lemma dom_tables_update: "dom (tables (update t i p d)) \<subseteq> insert t (dom (tables d))"
  by (auto simp: update_def Let_def split: option.splits)

lemma dom_tables_delete: "dom (tables (delete t i d)) \<subseteq> insert t (dom (tables d))"
  by (auto simp: delete_def Let_def split: option.splits)

lemma load_persisted: "consistent d \<Longrightarrow> load (Some (persisted d)) = d"
  by (simp add: load_def consistent_def)

lemmas db_read_simps = table_rows_def selectFirstOrDefault_def select_def matches_substr_def
  matches_exact_def

section \<open>Properties of the store\<close>

text \<open>
  C6 (round trip): after inserting a task whose id is not yet in the table,
  \<open>selectFirstOrDefault\<close> with the exact filter on that id returns exactly that task.
\<close>

theorem insert_select_roundtrip:
  "task_id r \<notin> set (map task_id (table_rows d t)) \<Longrightarrow>
   selectFirstOrDefault (insert_db t r d) t [(Id, task_id r)] = Some r"
  by (simp add: selectFirstOrDefault_id insert_db_refines dom_task_map)

theorem insert_select_roundtrip_witness:
  "''1'' \<notin> set (map task_id (table_rows (load None) ''tasks'')) \<and>
   selectFirstOrDefault
     (insert_db ''tasks'' \<lparr>task_id = ''1'', title = ''A'', description = ''B'',
        completed_at = [], created_at = ''t'', updated_at = ''t''\<rparr> (load None)) ''tasks'' [(Id, ''1'')] =
   Some \<lparr>task_id = ''1'', title = ''A'', description = ''B'',
        completed_at = [], created_at = ''t'', updated_at = ''t''\<rparr>"
  using insert_select_roundtrip [of "\<lparr>task_id = ''1'', title = ''A'', description = ''B'',
        completed_at = [], created_at = ''t'', updated_at = ''t''\<rparr>" "load None" "''tasks''"]
  by (simp add: load_def persist_def table_rows_def)

end
