(* ===== verification/Router.thy ===== *)
theory Router
  imports Prelude
begin

text \<open>
  The pattern router (\<open>src/utils/build-route-path.js\<close> and
  \<open>src/utils/extract-query-params.js\<close>, not among the sources: modelled from the
  specification, section 4.1). A route template such as \<open>/tasks/:id/complete\<close> is
  compiled into a regular expression
  \<open>^/tasks/(?<id>[^/]+)/complete(?<query>\?(.*))?$\<close>; the server calls its
  \<open>test\<close> and \<open>match\<close> methods (\<open>server.js\<close>, lines 61--68).
  Here the compiled expression is a list of segments, and matching follows the
  backtracking semantics of JavaScript regular expressions: \<open>match_segs\<close> lists
  every way to match the segments, in the order the regex engine tries them
  (a parameter group is greedy, so longer values first), and \<open>route_exec\<close> takes
  the first that the optional query group and the end anchor accept.
\<close>

section \<open>Templates\<close>

datatype seg = Lit string | Param string

type_synonym params = "(string \<times> string) list"

text \<open>Parameter names are \<open>[a-zA-Z]+\<close>.\<close>

definition is_alpha :: "char \<Rightarrow> bool" where
  "is_alpha c \<longleftrightarrow> (CHR ''a'' \<le> c \<and> c \<le> CHR ''z'') \<or> (CHR ''A'' \<le> c \<and> c \<le> CHR ''Z'')"

fun add_lit :: "char \<Rightarrow> seg list \<Rightarrow> seg list" where
  "add_lit c (Lit l # ss) = Lit (c # l) # ss"
| "add_lit c ss = Lit [c] # ss"

text \<open>\<open>path.replaceAll(/:([a-zA-Z]+)/g, ...)\<close>: each \<open>:name\<close> becomes a parameter group.\<close>

function template_segs :: "string \<Rightarrow> seg list" where
  "template_segs [] = []"
| "template_segs (c # cs) =
     (if c = CHR '':'' \<and> cs \<noteq> [] \<and> is_alpha (hd cs)
      then Param (takeWhile is_alpha cs) # template_segs (dropWhile is_alpha cs)
      else add_lit c (template_segs cs))"
  by pat_completeness auto
termination
  by (relation "measure length") (auto simp: le_imp_less_Suc length_dropWhile_le)

fun param_names :: "seg list \<Rightarrow> string list" where
  "param_names [] = []"
| "param_names (Lit l # ss) = param_names ss"
| "param_names (Param n # ss) = n # param_names ss"

text \<open>
  \<open>new RegExp(...)\<close> throws at start-up when two groups share a name; the
  trailing group is named \<open>query\<close>, so a parameter of that name is a clash too.
\<close>

definition build_route_path :: "string \<Rightarrow> seg list option" where
  "build_route_path p =
     (let segs = template_segs p
      in if distinct (param_names segs) \<and> ''query'' \<notin> set (param_names segs) then Some segs else None)"

section \<open>Matching\<close>

text \<open>
  The ways a greedy \<open>[^/]+\<close> group can match at the start of a string: the
  non-empty prefixes free of \<open>/\<close>, longest first, with what remains.
\<close>

fun param_splits :: "string \<Rightarrow> (string \<times> string) list" where
  "param_splits [] = []"
| "param_splits (c # cs) =
     (if c = CHR ''/'' then []
      else map (\<lambda>(v, r). (c # v, r)) (param_splits cs) @ [([c], cs)])"

fun match_segs :: "seg list \<Rightarrow> string \<Rightarrow> (params \<times> string) list" where
  "match_segs [] s = [([], s)]"
| "match_segs (Lit l # ss) s =
     (if take (length l) s = l then match_segs ss (drop (length l) s) else [])"
| "match_segs (Param n # ss) s =
     concat (map (\<lambda>(v, r). map (\<lambda>(ps, r'). ((n, v) # ps, r')) (match_segs ss r)) (param_splits s))"

text \<open>
  The tail \<open>(?<query>\?(.*))?$\<close>: the optional group is tried first; \<open>.\<close> does
  not match a line terminator (LF, CR). The query string keeps its \<open>?\<close>.
\<close>

definition query_tail :: "params \<times> string \<Rightarrow> (params \<times> string option) option" where
  "query_tail m = (case m of
      (ps, []) \<Rightarrow> Some (ps, None)
    | (ps, c # r) \<Rightarrow>
        if c = CHR ''?'' \<and> list_all (\<lambda>x. x \<noteq> CHR 0x0A \<and> x \<noteq> CHR 0x0D) r
        then Some (ps, Some (c # r)) else None)"

text \<open>\<open>url.match(regex)\<close>: the groups of the first match, or \<open>null\<close>.\<close>

definition route_exec :: "seg list \<Rightarrow> string \<Rightarrow> (params \<times> string option) option" where
  "route_exec segs url =
     (case List.map_filter query_tail (match_segs segs url) of [] \<Rightarrow> None | m # _ \<Rightarrow> Some m)"

text \<open>\<open>regex.test(url)\<close>.\<close>

definition route_test :: "seg list \<Rightarrow> string \<Rightarrow> bool" where
  "route_test segs url \<longleftrightarrow> list_ex (\<lambda>m. query_tail m \<noteq> None) (match_segs segs url)"

section \<open>Query strings\<close>

text \<open>
  \<open>extractQueryParams(query)\<close>: drop the \<open>?\<close>, split at \<open>&\<close>, split each entry
  at \<open>=\<close> and keep the first two pieces as key and value (the value is
  \<open>undefined\<close>, here \<open>None\<close>, when there is no \<open>=\<close>). No percent-decoding.
\<close>

definition query_entry :: "string \<Rightarrow> string \<times> string option" where
  "query_entry p =
     (let kv = js_split CHR ''='' p in (hd kv, if 2 \<le> length kv then Some (kv ! 1) else None))"

definition extract_query_params :: "string \<Rightarrow> (string \<times> string option) list" where
  "extract_query_params q = map query_entry (js_split CHR ''&'' (drop 1 q))"

text \<open>Reading a key of the resulting object: the last assignment wins.\<close>

definition query_get :: "string \<Rightarrow> (string \<times> string option) list \<Rightarrow> string option" where
  "query_get k q = (case map_of (rev q) k of Some v \<Rightarrow> v | None \<Rightarrow> None)"

text \<open>The URL a template produces from parameter values, in template order.\<close>

fun fill_segs :: "seg list \<Rightarrow> params \<Rightarrow> string" where
  "fill_segs [] ps = []"
| "fill_segs (Lit l # ss) ps = l @ fill_segs ss ps"
| "fill_segs (Param n # ss) ps = (case ps of [] \<Rightarrow> [] | (_, v) # ps' \<Rightarrow> v @ fill_segs ss ps')"

section \<open>Lemmas on matching\<close>

lemma param_splits_sound:
  "(v, r) \<in> set (param_splits s) \<Longrightarrow> s = v @ r \<and> v \<noteq> [] \<and> CHR ''/'' \<notin> set v"
  by (induction s arbitrary: v r) (auto split: if_splits)

lemma match_segs_sound:
  "(ps, r) \<in> set (match_segs segs s) \<Longrightarrow>
   s = fill_segs segs ps @ r \<and> map fst ps = param_names segs \<and>
   list_all (\<lambda>(n, v). v \<noteq> [] \<and> CHR ''/'' \<notin> set v) ps"
proof (induction segs s arbitrary: ps r rule: match_segs.induct)
  case (1 s)
  then show ?case by simp
next
  case (2 l ss s)
  then show ?case
    by (auto split: if_splits) (metis append_take_drop_id)
next
  case (3 n ss s)
  from "3.prems" obtain v r0 ps' where
    vr: "(v, r0) \<in> set (param_splits s)" and m: "(ps', r) \<in> set (match_segs ss r0)"
    and ps: "ps = (n, v) # ps'"
    by auto
  from "3.IH" [OF vr refl m] param_splits_sound [OF vr] ps show ?case
    by simp
qed

lemma route_exec_Some_in:
  "route_exec segs url = Some res \<Longrightarrow> \<exists>m \<in> set (match_segs segs url). query_tail m = Some res"
proof -
  assume "route_exec segs url = Some res"
  then obtain rest where "List.map_filter query_tail (match_segs segs url) = res # rest"
    by (auto simp: route_exec_def split: list.splits)
  then have "res \<in> set (List.map_filter query_tail (match_segs segs url))" by simp
  then show ?thesis by (auto simp: List.map_filter_def)
qed

lemma query_tail_SomeD:
  "query_tail (ps, r) = Some (ps', q) \<Longrightarrow> ps' = ps \<and> r = (case q of None \<Rightarrow> [] | Some x \<Rightarrow> x)"
  by (auto simp: query_tail_def split: list.splits if_splits)

section \<open>Properties of the router\<close>

text \<open>
  C18 (round trip): when a compiled route matches a URL, the bound parameter values,
  in template order, put back into the template, followed by the captured query
  string, give the URL again; and the parameters bound are exactly the template's.
\<close>

theorem route_exec_roundtrip:
  assumes "route_exec segs url = Some (ps, q)"
  shows "url = fill_segs segs ps @ (case q of None \<Rightarrow> [] | Some x \<Rightarrow> x) \<and>
         map fst ps = param_names segs"
proof -
  obtain ps0 r where m: "(ps0, r) \<in> set (match_segs segs url)" and qt: "query_tail (ps0, r) = Some (ps, q)"
    using route_exec_Some_in [OF assms] by auto
  from query_tail_SomeD [OF qt] match_segs_sound [OF m] show ?thesis by simp
qed
theorem route_exec_roundtrip_witness:
  "route_exec [Lit ''/tasks/'', Param ''id'', Lit ''/complete''] ''/tasks/abc/complete?x=1'' =
     Some ([(''id'', ''abc'')], Some ''?x=1'') \<and>
   ''/tasks/abc/complete?x=1'' =
     fill_segs [Lit ''/tasks/'', Param ''id'', Lit ''/complete''] [(''id'', ''abc'')] @
       (case Some ''?x=1'' of None \<Rightarrow> [] | Some x \<Rightarrow> x) \<and>
   map fst [(''id'', ''abc'')] = param_names [Lit ''/tasks/'', Param ''id'', Lit ''/complete'']"
proof -
  have ex: "route_exec [Lit ''/tasks/'', Param ''id'', Lit ''/complete''] ''/tasks/abc/complete?x=1'' =
     Some ([(''id'', ''abc'')], Some ''?x=1'')"
    by (simp add: route_exec_def query_tail_def List.map_filter_def)
  show ?thesis using ex route_exec_roundtrip [OF ex] by blast
qed

end
