(* ===== verification/JS_Number.thy ===== *)
theory JS_Number
  imports Prelude
begin

text \<open>
  JavaScript numbers as the program meets them: \<open>Number(s)\<close> (the abstract operation
  StringToNumber of ECMA-262, sec. 7.1.4.1.1) and \<open>String(x)\<close> (Number::toString,
  sec. 6.1.6.1.20), with the dead \<open>InverseNumberStream\<close> of \<open>src/routes.js\<close> that
  combines them. A finite number is kept as an exact decimal \<open>Fin neg m e\<close>, the value
  \<open>(-1)^neg * m * 10^e\<close>, normalised so that \<open>m\<close> has no trailing zero
  (\<open>jsnum_ok\<close>); \<open>Fin True 0 0\<close> is the negative zero. JavaScript rounds every
  number to the nearest IEEE double: the model agrees with it on every value that is a
  double whose shortest decimal form is \<open>m * 10^e\<close> (at most 15 significant digits,
  magnitude between \<open>10^-307\<close> and \<open>10^308\<close>); beyond that JavaScript rounds,
  overflows to \<open>Infinity\<close> or underflows to zero, and the model keeps the exact value.
\<close>

section \<open>Decimal digits\<close>

text \<open>Digit characters, their values, and the decimal spelling of a natural number.\<close>

definition is_digit :: "char \<Rightarrow> bool" where
  "is_digit c \<longleftrightarrow> CHR ''0'' \<le> c \<and> c \<le> CHR ''9''"

definition digit_val :: "char \<Rightarrow> nat" where
  "digit_val c = of_char c - 48"

definition digits_val :: "string \<Rightarrow> nat" where
  "digits_val ds = foldl (\<lambda>acc c. 10 * acc + digit_val c) 0 ds"

definition digit_char :: "nat \<Rightarrow> char" where
  "digit_char d = char_of (48 + d)"

fun nat_digits :: "nat \<Rightarrow> string" where
  "nat_digits n = (if n < 10 then [digit_char n] else nat_digits (n div 10) @ [digit_char (n mod 10)])"

declare nat_digits.simps [simp del]

section \<open>Numbers and Number::toString\<close>

text \<open>
  \<open>fin_str m e\<close> is Number::toString of the positive value \<open>m * 10^e\<close> with
  \<open>m\<close> normalised: with \<open>k\<close> the number of digits of \<open>m\<close> and \<open>n = k + e\<close>, plain
  digits padded with zeros when \<open>k \<le> n \<le> 21\<close>, a decimal point inside the digits
  when \<open>0 < n \<le> 21\<close>, a leading \<open>0.\<close> and zeros when \<open>-6 < n \<le> 0\<close>, and the
  exponent form \<open>d.ddde+x\<close> otherwise. Both zeros print as \<open>0\<close>.
\<close>

datatype jsnum = NaN | Inf bool | Fin bool nat int

fun norm_dec :: "nat \<Rightarrow> int \<Rightarrow> nat \<times> int" where
  "norm_dec m e = (if m \<noteq> 0 \<and> m mod 10 = 0 then norm_dec (m div 10) (e + 1) else (m, if m = 0 then 0 else e))"

declare norm_dec.simps [simp del]

definition mk_fin :: "bool \<Rightarrow> nat \<Rightarrow> int \<Rightarrow> jsnum" where
  "mk_fin neg m e = (case norm_dec m e of (m', e') \<Rightarrow> Fin neg m' e')"

definition fin_str :: "nat \<Rightarrow> int \<Rightarrow> string" where
  "fin_str m e = (let ds = nat_digits m; k = int (length ds); n = k + e in
     if m = 0 then ''0''
     else if k \<le> n \<and> n \<le> 21 then ds @ replicate (nat (n - k)) CHR ''0''
     else if 0 < n \<and> n \<le> 21 then take (nat n) ds @ CHR ''.'' # drop (nat n) ds
     else if -6 < n \<and> n \<le> 0 then CHR ''0'' # CHR ''.'' # replicate (nat (- n)) CHR ''0'' @ ds
     else hd ds # (if k = 1 then [] else CHR ''.'' # tl ds) @ CHR ''e'' #
       (if 0 \<le> n - 1 then CHR ''+'' else CHR ''-'') # nat_digits (nat \<bar>n - 1\<bar>))"

fun js_num_str :: "jsnum \<Rightarrow> string" where
  "js_num_str NaN = ''NaN''"
| "js_num_str (Inf neg) = (if neg then ''-Infinity'' else ''Infinity'')"
| "js_num_str (Fin neg m e) = (if neg \<and> m \<noteq> 0 then CHR ''-'' # fin_str m e else fin_str m e)"

section \<open>StringToNumber\<close>

text \<open>
  \<open>Number(s)\<close> trims white space; the empty string is \<open>0\<close>; then it accepts
  \<open>0x\<close>/\<open>0o\<close>/\<open>0b\<close> integers (no sign), or an optional sign followed by
  \<open>Infinity\<close> or a decimal literal \<open>digits[.digits][(e|E)[+|-]digits]\<close> (also
  \<open>.digits\<close> and \<open>digits.\<close>), and is \<open>NaN\<close> on anything else.
\<close>

definition all_digits :: "string \<Rightarrow> bool" where
  "all_digits ds \<longleftrightarrow> ds \<noteq> [] \<and> list_all is_digit ds"

definition exp_digits :: "string \<Rightarrow> int option" where
  "exp_digits ds = (if all_digits ds then Some (int (digits_val ds)) else None)"

definition exp_part :: "string \<Rightarrow> int option" where
  "exp_part r = (if r = [] then Some 0
     else if hd r \<noteq> CHR ''e'' \<and> hd r \<noteq> CHR ''E'' then None
     else if tl r \<noteq> [] \<and> hd (tl r) = CHR ''+'' then exp_digits (tl (tl r))
     else if tl r \<noteq> [] \<and> hd (tl r) = CHR ''-'' then map_option uminus (exp_digits (tl (tl r)))
     else exp_digits (tl r))"

definition dec_value :: "bool \<Rightarrow> string \<Rightarrow> string \<Rightarrow> int \<Rightarrow> jsnum" where
  "dec_value neg ds fs x = mk_fin neg (digits_val (ds @ fs)) (x - int (length fs))"

definition unsigned_decimal :: "bool \<Rightarrow> string \<Rightarrow> jsnum" where
  "unsigned_decimal neg u = (if u = ''Infinity'' then Inf neg else
     (let ds = takeWhile is_digit u; r1 = dropWhile is_digit u;
          fs = (if r1 \<noteq> [] \<and> hd r1 = CHR ''.'' then takeWhile is_digit (tl r1) else []);
          r2 = (if r1 \<noteq> [] \<and> hd r1 = CHR ''.'' then dropWhile is_digit (tl r1) else r1)
      in if ds = [] \<and> fs = [] then NaN
         else (case exp_part r2 of None \<Rightarrow> NaN | Some x \<Rightarrow> dec_value neg ds fs x)))"

definition radix_digit :: "nat \<Rightarrow> char \<Rightarrow> nat option" where
  "radix_digit b c = (let v = (if is_digit c then digit_val c
       else if CHR ''a'' \<le> c \<and> c \<le> CHR ''z'' then of_char c - 87
       else if CHR ''A'' \<le> c \<and> c \<le> CHR ''Z'' then of_char c - 55 else b)
     in if v < b then Some v else None)"

fun radix_val :: "nat \<Rightarrow> nat \<Rightarrow> string \<Rightarrow> nat option" where
  "radix_val b acc [] = Some acc"
| "radix_val b acc (c # cs) = (case radix_digit b c of None \<Rightarrow> None | Some d \<Rightarrow> radix_val b (b * acc + d) cs)"

definition radix_prefix :: "char \<Rightarrow> nat option" where
  "radix_prefix c = (if c = CHR ''x'' \<or> c = CHR ''X'' then Some 16
     else if c = CHR ''o'' \<or> c = CHR ''O'' then Some 8
     else if c = CHR ''b'' \<or> c = CHR ''B'' then Some 2 else None)"

definition non_decimal :: "string \<Rightarrow> jsnum option" where
  "non_decimal s = (case s of
       c0 # c1 # ds \<Rightarrow> (if c0 = CHR ''0'' \<and> ds \<noteq> [] then
           (case radix_prefix c1 of None \<Rightarrow> None
            | Some b \<Rightarrow> Some (case radix_val b 0 ds of None \<Rightarrow> NaN | Some v \<Rightarrow> mk_fin False v 0))
         else None)
     | _ \<Rightarrow> None)"

definition js_to_number :: "string \<Rightarrow> jsnum" where
  "js_to_number str = (let s = js_trim str in
     if s = [] then Fin False 0 0
     else case non_decimal s of Some v \<Rightarrow> v
     | None \<Rightarrow> (if hd s = CHR ''+'' then unsigned_decimal False (tl s)
                else if hd s = CHR ''-'' then unsigned_decimal True (tl s)
                else unsigned_decimal False s))"

fun js_neg :: "jsnum \<Rightarrow> jsnum" where
  "js_neg NaN = NaN"
| "js_neg (Inf neg) = Inf (\<not> neg)"
| "js_neg (Fin neg m e) = Fin (\<not> neg) m e"

definition exp_str :: "int \<Rightarrow> string" where
  "exp_str x = (if x = 0 then [] else CHR ''e'' # (if 0 \<le> x then CHR ''+'' else CHR ''-'') # nat_digits (nat \<bar>x\<bar>))"

definition dec_str :: "string \<Rightarrow> string \<Rightarrow> int \<Rightarrow> string" where
  "dec_str ds fs x = ds @ (if fs = [] then [] else CHR ''.'' # fs) @ exp_str x"

definition dec_parts :: "string \<Rightarrow> string \<Rightarrow> bool" where
  "dec_parts ds fs \<longleftrightarrow> list_all is_digit ds \<and> ds \<noteq> [] \<and> (ds = [CHR ''0''] \<or> hd ds \<noteq> CHR ''0'') \<and>
     list_all is_digit fs"

definition num_char :: "char \<Rightarrow> bool" where
  "num_char c \<longleftrightarrow> is_digit c \<or> c = CHR ''.'' \<or> c = CHR ''e'' \<or> c = CHR ''+'' \<or> c = CHR ''-''"

fun jsnum_ok :: "jsnum \<Rightarrow> bool" where
  "jsnum_ok (Fin neg m e) \<longleftrightarrow> (if m = 0 then e = 0 else \<not> 10 dvd m)"
| "jsnum_ok _ \<longleftrightarrow> True"

section \<open>InverseNumberStream\<close>

text \<open>
  \<open>InverseNumberStream._transform\<close> (\<open>src/routes.js\<close>, lines 10 to 18) reads each
  chunk as text, computes \<open>Number(chunk.toString()) * -1\<close>, logs it, and passes on
  \<open>String(transformed)\<close> as the output chunk. A \<open>Transform\<close> calls it once per
  incoming chunk, so the stream maps the chunks one by one. The class is only used by a
  commented-out route.
\<close>

definition inverse_number_transform :: "string \<Rightarrow> string" where
  "inverse_number_transform chunk = js_num_str (js_neg (js_to_number chunk))"

definition inverse_number_stream :: "string list \<Rightarrow> string list" where
  "inverse_number_stream chunks = map inverse_number_transform chunks"

section \<open>Lemmas on digits, normalisation and parsing\<close>

lemma digit_val_digit_char [simp]: "d < 10 \<Longrightarrow> digit_val (digit_char d) = d"
  by (simp add: digit_val_def digit_char_def)

lemma is_digit_digit_char [simp]: "d < 10 \<Longrightarrow> is_digit (digit_char d)"
  by (simp add: is_digit_def digit_char_def less_eq_char_def)

lemma digit_char_zero_iff: "d < 10 \<Longrightarrow> digit_char d = CHR ''0'' \<longleftrightarrow> d = 0"
proof -
  assume "d < 10"
  have "digit_char d = CHR ''0'' \<longleftrightarrow> of_char (digit_char d) = (of_char (CHR ''0'') :: nat)"
    by (metis char_of_char)
  with \<open>d < 10\<close> show ?thesis by (simp add: digit_char_def)
qed

lemma nat_digits_not_Nil [simp]: "nat_digits n \<noteq> []"
  by (induction n rule: nat_digits.induct) (simp add: nat_digits.simps)

lemma nat_digits_digits: "list_all is_digit (nat_digits n)"
  by (induction n rule: nat_digits.induct) (simp add: nat_digits.simps)

lemma digits_val_append: "digits_val (xs @ ys) = digits_val xs * 10 ^ length ys + digits_val ys"
  unfolding digits_val_def
proof (induction ys rule: rev_induct)
  case Nil then show ?case by simp
next
  case (snoc y ys) then show ?case by (simp add: algebra_simps)
qed

lemma digits_val_Cons: "digits_val (x # xs) = digit_val x * 10 ^ length xs + digits_val xs"
  using digits_val_append [of "[x]" xs] by (simp add: digits_val_def)

lemma digits_val_nat_digits [simp]: "digits_val (nat_digits n) = n"
  by (induction n rule: nat_digits.induct) (simp add: nat_digits.simps digits_val_append digits_val_def)

lemma digits_val_zeros [simp]: "digits_val (replicate z CHR ''0'') = 0"
  by (induction z) (simp_all add: digits_val_Cons digit_val_def, simp add: digits_val_def)

lemma hd_nat_digits: "0 < n \<Longrightarrow> hd (nat_digits n) \<noteq> CHR ''0''"
proof (induction n rule: nat_digits.induct)
  case (1 n)
  show ?case
  proof (cases "n < 10")
    case True with 1(2) show ?thesis by (simp add: nat_digits.simps digit_char_zero_iff)
  next
    case False
    then have "0 < n div 10" by simp
    with 1(1) False show ?thesis by (simp add: nat_digits.simps)
  qed
qed


lemma norm_dec_canon: "0 < m \<Longrightarrow> \<not> 10 dvd m \<Longrightarrow> norm_dec (m * 10 ^ z) e = (m, e + int z)"
proof (induction z arbitrary: e)
  case 0 then show ?case by (subst norm_dec.simps) (simp add: dvd_eq_mod_eq_0)
next
  case (Suc z)
  have "norm_dec (m * 10 ^ Suc z) e = norm_dec (m * 10 ^ z) (e + 1)"
    using Suc.prems by (subst norm_dec.simps) simp
  with Suc.IH [OF Suc.prems, of "e + 1"] show ?case by simp
qed

lemma mk_fin_canon: "0 < m \<Longrightarrow> \<not> 10 dvd m \<Longrightarrow> mk_fin neg (m * 10 ^ z) e = Fin neg m (e + int z)"
  by (simp add: mk_fin_def norm_dec_canon)

lemma mk_fin_canon0: "0 < m \<Longrightarrow> \<not> 10 dvd m \<Longrightarrow> mk_fin neg m e = Fin neg m e"
  using mk_fin_canon [where z = 0] by simp


lemma exp_part_Nil [simp]: "exp_part [] = Some 0"
  by (simp add: exp_part_def)

lemma exp_part_sign:
  "exp_part (CHR ''e'' # (if 0 \<le> x then CHR ''+'' else CHR ''-'') # nat_digits (nat \<bar>x\<bar>)) = Some x"
  using nat_digits_digits [of "nat \<bar>x\<bar>"]
  by (simp add: exp_part_def exp_digits_def all_digits_def)

lemma takeWhile_digits: "list_all is_digit ds \<Longrightarrow> (r = [] \<or> \<not> is_digit (hd r)) \<Longrightarrow> takeWhile is_digit (ds @ r) = ds"
  by (cases r) (auto simp: takeWhile_append2 list_all_iff)

lemma dropWhile_digits: "list_all is_digit ds \<Longrightarrow> (r = [] \<or> \<not> is_digit (hd r)) \<Longrightarrow> dropWhile is_digit (ds @ r) = r"
  by (cases r) (auto simp: dropWhile_append2 list_all_iff)

lemma not_digit_dot [simp]: "\<not> is_digit CHR ''.''" and not_digit_e [simp]: "\<not> is_digit CHR ''e''"
  by (simp_all add: is_digit_def)


lemma unsigned_decimal_frac:
  assumes "list_all is_digit ds" "ds \<noteq> []" "list_all is_digit fs" "hd ds \<noteq> CHR ''I''"
    "r = [] \<or> \<not> is_digit (hd r)" "exp_part r = Some x"
  shows "unsigned_decimal neg (ds @ CHR ''.'' # fs @ r) = dec_value neg ds fs x"
proof -
  have "ds @ CHR ''.'' # fs @ r \<noteq> ''Infinity''" using assms(2,4) by (cases ds) auto
  with assms show ?thesis
    by (simp add: unsigned_decimal_def takeWhile_digits dropWhile_digits)
qed

lemma unsigned_decimal_int:
  assumes "list_all is_digit ds" "ds \<noteq> []" "hd ds \<noteq> CHR ''I''"
    "r = [] \<or> (\<not> is_digit (hd r) \<and> hd r \<noteq> CHR ''.'')" "exp_part r = Some x"
  shows "unsigned_decimal neg (ds @ r) = dec_value neg ds [] x"
proof -
  have "ds @ r \<noteq> ''Infinity''" using assms(2,3) by (cases ds) auto
  moreover have "takeWhile is_digit (ds @ r) = ds" "dropWhile is_digit (ds @ r) = r"
    using assms(1,4) by (auto intro: takeWhile_digits dropWhile_digits)
  ultimately show ?thesis
    using assms(2,4,5) unfolding unsigned_decimal_def Let_def by auto
qed


lemma num_char_not_space: "num_char c \<Longrightarrow> \<not> js_is_space c"
  by (auto simp: num_char_def is_digit_def js_is_space_def)

lemma num_char_simps [simp]: "num_char CHR ''.''" "num_char CHR ''e''" "num_char CHR ''+''"
  "num_char CHR ''-''" "num_char CHR ''0''"
  by (simp_all add: num_char_def is_digit_def)

lemma nat_digits_num_chars: "list_all num_char (nat_digits n)"
  using nat_digits_digits [of n] by (simp add: list_all_iff num_char_def)

lemma fin_str_num_chars: "list_all num_char (fin_str m e)"
proof -
  have d: "list_all num_char (nat_digits n)" for n by (rule nat_digits_num_chars)
  have "num_char (hd (nat_digits m))" using d by (rule list_all_hd) simp
  with d [of m] list_all_parts [OF d [of m]] d show ?thesis
    by (simp add: fin_str_def Let_def)
qed


lemma digits_val_zeros_append [simp]: "digits_val (replicate z CHR ''0'' @ ds) = digits_val ds"
  by (simp add: digits_val_append)

lemma digits_val_append_zeros: "digits_val (ds @ replicate z CHR ''0'') = digits_val ds * 10 ^ z"
  by (simp add: digits_val_append)

lemma is_digit_0 [simp]: "is_digit CHR ''0''"
  by (simp add: is_digit_def)

lemma is_digit_not_I: "is_digit c \<Longrightarrow> c \<noteq> CHR ''I''"
  by (auto simp: is_digit_def)

lemma exp_part_exp_str: "exp_part (exp_str x) = Some x"
  using exp_part_sign [of x] by (simp add: exp_str_def)

lemma exp_str_hd: "exp_str x = [] \<or> (\<not> is_digit (hd (exp_str x)) \<and> hd (exp_str x) \<noteq> CHR ''.'')"
  by (simp add: exp_str_def is_digit_def)

lemma unsigned_decimal_dec_str:
  assumes "dec_parts ds fs"
  shows "unsigned_decimal neg (dec_str ds fs x) = dec_value neg ds fs x"
proof -
  have ds: "list_all is_digit ds" "ds \<noteq> []" "list_all is_digit fs" "hd ds \<noteq> CHR ''I''"
    using assms list_all_hd [of is_digit ds] is_digit_not_I by (auto simp: dec_parts_def)
  show ?thesis
  proof (cases "fs = []")
    case True
    with ds exp_str_hd [of x] unsigned_decimal_int [of ds "exp_str x" x neg] show ?thesis
      by (simp add: dec_str_def exp_part_exp_str)
  next
    case False
    with ds exp_str_hd [of x] unsigned_decimal_frac [of ds fs "exp_str x" x neg] show ?thesis
      by (simp add: dec_str_def exp_part_exp_str) blast
  qed
qed

lemma fin_str_parts:
  assumes m: "0 < m" "\<not> 10 dvd m"
  shows "\<exists>ds fs x. fin_str m e = dec_str ds fs x \<and> dec_parts ds fs \<and> dec_value neg ds fs x = Fin neg m e"
proof -
  define ds where "ds = nat_digits m"
  define k where "k = int (length ds)"
  define n where "n = k + e"
  have ds: "list_all is_digit ds" "ds \<noteq> []" "hd ds \<noteq> CHR ''0''" "digits_val ds = m" "is_digit (hd ds)"
    using nat_digits_digits [of m] hd_nat_digits [OF m(1)] list_all_hd [OF nat_digits_digits [of m]]
    by (simp_all add: ds_def)
  have fs: "fin_str m e = (if k \<le> n \<and> n \<le> 21 then ds @ replicate (nat (n - k)) CHR ''0''
     else if 0 < n \<and> n \<le> 21 then take (nat n) ds @ CHR ''.'' # drop (nat n) ds
     else if -6 < n \<and> n \<le> 0 then CHR ''0'' # CHR ''.'' # replicate (nat (- n)) CHR ''0'' @ ds
     else hd ds # (if k = 1 then [] else CHR ''.'' # tl ds) @ CHR ''e'' #
       (if 0 \<le> n - 1 then CHR ''+'' else CHR ''-'') # nat_digits (nat \<bar>n - 1\<bar>))"
    using m(1) by (simp add: fin_str_def Let_def ds_def k_def n_def)
  show ?thesis
  proof (cases "k \<le> n \<and> n \<le> 21")
    case L1: True
    have "fin_str m e = dec_str (ds @ replicate (nat (n - k)) CHR ''0'') [] 0"
      by (simp only: fs if_P [OF L1]) (simp add: dec_str_def exp_str_def)
    moreover have "dec_value neg (ds @ replicate (nat (n - k)) CHR ''0'') [] 0 = Fin neg m e"
      using L1 m by (simp add: dec_value_def digits_val_append_zeros ds mk_fin_canon n_def)
    moreover have "dec_parts (ds @ replicate (nat (n - k)) CHR ''0'') []"
      using ds by (simp add: dec_parts_def)
    ultimately show ?thesis by blast
  next
    case nL1: False
    show ?thesis
    proof (cases "0 < n \<and> n \<le> 21")
      case L2: True
      have lt: "nat n < length ds" using nL1 L2 by (simp add: k_def) linarith
      have "fin_str m e = dec_str (take (nat n) ds) (drop (nat n) ds) 0"
        using lt by (simp only: fs if_not_P [OF nL1] if_P [OF L2]) (simp add: dec_str_def exp_str_def)
      moreover have "dec_value neg (take (nat n) ds) (drop (nat n) ds) 0 = Fin neg m e"
        using L2 lt m by (simp add: dec_value_def ds mk_fin_canon0 n_def k_def)
      moreover have "dec_parts (take (nat n) ds) (drop (nat n) ds)"
        using ds L2 list_all_parts [OF ds(1)] by (simp add: dec_parts_def)
      ultimately show ?thesis by blast
    next
      case nL2: False
      show ?thesis
      proof (cases "-6 < n \<and> n \<le> 0")
        case L3: True
        have "fin_str m e = dec_str [CHR ''0''] (replicate (nat (- n)) CHR ''0'' @ ds) 0"
          using ds(2) by (simp only: fs if_not_P [OF nL1] if_not_P [OF nL2] if_P [OF L3])
            (simp add: dec_str_def exp_str_def)
        moreover have "dec_value neg [CHR ''0''] (replicate (nat (- n)) CHR ''0'' @ ds) 0 = Fin neg m e"
          using L3 m by (simp add: dec_value_def ds mk_fin_canon0 n_def k_def digits_val_Cons digit_val_def)
        moreover have "dec_parts [CHR ''0''] (replicate (nat (- n)) CHR ''0'' @ ds)"
          using ds by (simp add: dec_parts_def)
        ultimately show ?thesis by blast
      next
        case L4: False
        have x: "n - 1 \<noteq> 0" using nL1 nL2 L4 by auto
        have "fin_str m e = dec_str [hd ds] (tl ds) (n - 1)"
          using x ds(2) by (simp only: fs if_not_P [OF nL1] if_not_P [OF nL2] if_not_P [OF L4])
            (cases ds, auto simp: dec_str_def exp_str_def k_def)
        moreover have "dec_value neg [hd ds] (tl ds) (n - 1) = Fin neg m e"
          using m ds by (cases ds) (simp_all add: dec_value_def mk_fin_canon0 n_def k_def)
        moreover have "dec_parts [hd ds] (tl ds)"
          using ds list_all_parts [OF ds(1)] by (simp add: dec_parts_def)
        ultimately show ?thesis by blast
      qed
    qed
  qed
qed

lemma unsigned_decimal_fin_str:
  "0 < m \<Longrightarrow> \<not> 10 dvd m \<Longrightarrow> unsigned_decimal neg (fin_str m e) = Fin neg m e"
  using fin_str_parts [of m e neg] unsigned_decimal_dec_str by force

lemma norm_dec_ok: "norm_dec m e = (m', e') \<Longrightarrow> (if m' = 0 then e' = 0 else \<not> 10 dvd m')"
proof (induction m e rule: norm_dec.induct)
  case (1 m e)
  show ?case
  proof (cases "m \<noteq> 0 \<and> m mod 10 = 0")
    case True
    with 1 show ?thesis by (simp add: norm_dec.simps [of m e])
  next
    case False
    with "1.prems" show ?thesis by (auto simp: norm_dec.simps [of m e] dvd_eq_mod_eq_0)
  qed
qed

lemma mk_fin_ok: "jsnum_ok (mk_fin neg m e)"
  using norm_dec_ok by (simp add: mk_fin_def split: prod.split)

lemma unsigned_decimal_ok: "jsnum_ok (unsigned_decimal neg u)"
  by (simp add: unsigned_decimal_def Let_def dec_value_def mk_fin_ok split: option.split)

lemma non_decimal_ok: "non_decimal s = Some v \<Longrightarrow> jsnum_ok v"
  by (auto simp: non_decimal_def mk_fin_ok split: list.splits if_splits option.splits)

lemma js_to_number_ok: "jsnum_ok (js_to_number s)"
  by (simp add: js_to_number_def Let_def unsigned_decimal_ok non_decimal_ok split: option.split)

lemma non_decimal_num_chars: "list_all num_char s \<Longrightarrow> non_decimal s = None"
  by (auto simp: non_decimal_def radix_prefix_def num_char_def is_digit_def split: list.split)

lemma js_to_number_num_chars:
  "s \<noteq> [] \<Longrightarrow> list_all num_char s \<Longrightarrow>
   js_to_number s = (if hd s = CHR ''+'' then unsigned_decimal False (tl s)
     else if hd s = CHR ''-'' then unsigned_decimal True (tl s) else unsigned_decimal False s)"
  by (simp add: js_to_number_def js_trim_id list_all_iff num_char_not_space non_decimal_num_chars)

lemma fin_str_hd: "0 < m \<Longrightarrow> is_digit (hd (fin_str m e))"
  using list_all_hd [OF nat_digits_digits [of m]]
  by (auto simp: fin_str_def Let_def hd_append)

lemma fin_str_not_Nil [simp]: "fin_str m e \<noteq> []"
  by (auto simp: fin_str_def Let_def)


lemma js_to_number_zero: "js_to_number ''0'' = Fin False 0 0"
  by (simp add: js_to_number_def js_trim_def js_is_space_def non_decimal_def unsigned_decimal_def
      dec_value_def mk_fin_def is_digit_def digits_val_def digit_val_def norm_dec.simps exp_part_def)

lemma js_neg_ok: "jsnum_ok (js_neg v) = jsnum_ok v"
  by (cases v) simp_all

lemma js_to_number_js_num_str:
  "jsnum_ok v \<Longrightarrow> v \<noteq> Fin True 0 0 \<Longrightarrow> js_to_number (js_num_str v) = v"
proof (cases v)
  case NaN then show ?thesis by (simp add: js_to_number_def js_trim_def js_is_space_def non_decimal_def
    unsigned_decimal_def is_digit_def)
next
  case (Inf neg) then show ?thesis by (simp add: js_to_number_def js_trim_def js_is_space_def non_decimal_def
    unsigned_decimal_def)
next
  case (Fin neg m e)
  assume ok: "jsnum_ok v" and nz: "v \<noteq> Fin True 0 0"
  show ?thesis
  proof (cases "m = 0")
    case True
    with ok nz Fin show ?thesis
      by (simp add: fin_str_def js_to_number_def js_trim_def js_is_space_def non_decimal_def
          unsigned_decimal_def dec_value_def mk_fin_def is_digit_def digits_val_def digit_val_def norm_dec.simps exp_part_def)
  next
    case False
    with ok Fin have m: "0 < m" "\<not> 10 dvd m" by simp_all
    have d: "is_digit (hd (fin_str m e))" by (rule fin_str_hd [OF m(1)])
    then have "hd (fin_str m e) \<noteq> CHR ''+'' \<and> hd (fin_str m e) \<noteq> CHR ''-''" by (auto simp: is_digit_def)
    with m Fin fin_str_num_chars [of m e] show ?thesis
      by (simp add: js_to_number_num_chars unsigned_decimal_fin_str)
  qed
qed

text \<open>
  One chunk through the transform: \<open>Number\<close> reads back the negation of the chunk's
  number, except that the positive zero stays positive (its negation prints as \<open>0\<close>).
\<close>

lemma inverse_number_transform_value:
  "js_to_number (inverse_number_transform chunk) =
     (if js_to_number chunk = Fin False 0 0 then Fin False 0 0 else js_neg (js_to_number chunk))"
proof (cases "js_to_number chunk = Fin False 0 0")
  case True
  then have "inverse_number_transform chunk = ''0''"
    by (simp add: inverse_number_transform_def fin_str_def)
  with True show ?thesis by (simp add: js_to_number_zero)
next
  case False
  have ok: "jsnum_ok (js_neg (js_to_number chunk))" using js_to_number_ok by (simp add: js_neg_ok)
  have "js_neg (js_to_number chunk) \<noteq> Fin True 0 0" using False by (cases "js_to_number chunk") auto
  with False js_to_number_js_num_str [OF ok] show ?thesis by (simp add: inverse_number_transform_def)
qed

section \<open>Properties of the stream\<close>

text \<open>
  C17 (functional): every chunk InverseNumberStream emits denotes the negation of the
  number its input chunk denotes (\<open>NaN\<close> and the infinities included), except that
  a chunk denoting the positive zero comes out as \<open>0\<close> again, since
  \<open>String(-0)\<close> is \<open>"0"\<close>. Negation is exact on doubles and \<open>Number(String(x)) = x\<close>
  holds for every double other than the negative zero, so this holds of doubles as well.
\<close>

theorem inverse_number_negates:
  "map js_to_number (inverse_number_stream cs) =
   map (\<lambda>c. if js_to_number c = Fin False 0 0 then Fin False 0 0 else js_neg (js_to_number c)) cs"
  by (simp add: inverse_number_stream_def inverse_number_transform_value)

end
