(* ===== verification/Json.thy ===== *)
theory Json
  imports JS_Number
begin

text \<open>
  JSON as the program uses it. \<open>JSON.stringify\<close> (\<open>js_stringify\<close>, ECMA-262
  SerializeJSONProperty and QuoteJSONString) builds the CSV import's request bodies
  (\<open>src/server.js\<close>, lines 24--27) and the body of \<open>GET /tasks\<close>
  (\<open>src/routes.js\<close>, line 40). \<open>JSON.parse\<close> (\<open>json_parse\<close>) is what the body
  middleware \<open>middlewares/json.js\<close> (imported by \<open>src/server.js\<close>, not among the
  sources) applies to the concatenated request body; a body that does not parse,
  the empty one included, leaves \<open>req.body\<close> as \<open>null\<close> (\<open>json_middleware\<close>).

  Strings are byte strings (UTF-8): a \<open>\u\<close> escape is decoded to the UTF-8 bytes of
  its code unit, a surrogate pair to those of its code point, and a lone surrogate to
  its three-byte (WTF-8) form; \<open>JSON.stringify\<close> escapes quote, backslash and the
  control characters and copies every other byte. An object is the list of its
  members in source order; member lookup (\<open>json_get\<close>) is last-wins as for a
  JavaScript object built by \<open>JSON.parse\<close>. Numbers are the exact decimals of
  \<open>JS_Number\<close>. The parser is a recursive descent over the string with a fuel
  argument; \<open>json_parse\<close> gives it \<open>2 * length s + 1\<close>, which is proved enough
  (\<open>json_fuel_enough\<close>), so \<open>None\<close> is always a syntax error.
\<close>

section \<open>JSON values\<close>

datatype json =
    JNull
  | JBool bool
  | JNum jsnum
  | JStr string
  | JArr "json list"
  | JObj "(string \<times> json) list"

definition json_get :: "string \<Rightarrow> (string \<times> json) list \<Rightarrow> json option" where
  "json_get k kvs = map_of (rev kvs) k"

section \<open>JSON.stringify\<close>

text \<open>
  QuoteJSONString: quote and backslash are escaped, backspace, tab, line feed, form
  feed and carriage return get their short escapes, the other control characters
  \<open>\u00xx\<close> with lower-case hexadecimal digits. Non-finite numbers print as
  \<open>null\<close>.
\<close>

definition hex_char :: "nat \<Rightarrow> char" where
  "hex_char d = (if d < 10 then digit_char d else char_of (87 + d))"

definition json_escape :: "char \<Rightarrow> string" where
  "json_escape c = (if c = CHR 0x22 then [CHR 0x5C, CHR 0x22]
     else if c = CHR 0x5C then [CHR 0x5C, CHR 0x5C]
     else if c = CHR 0x08 then [CHR 0x5C, CHR ''b'']
     else if c = CHR 0x09 then [CHR 0x5C, CHR ''t'']
     else if c = CHR 0x0A then [CHR 0x5C, CHR ''n'']
     else if c = CHR 0x0C then [CHR 0x5C, CHR ''f'']
     else if c = CHR 0x0D then [CHR 0x5C, CHR ''r'']
     else if c < CHR 0x20 then [CHR 0x5C, CHR ''u'', CHR ''0'', CHR ''0'',
       hex_char (of_char c div 16), hex_char (of_char c mod 16)]
     else [c])"

definition js_quote :: "string \<Rightarrow> string" where
  "js_quote s = CHR 0x22 # concat (map json_escape s) @ [CHR 0x22]"

fun js_stringify :: "json \<Rightarrow> string" where
  "js_stringify JNull = ''null''"
| "js_stringify (JBool b) = (if b then ''true'' else ''false'')"
| "js_stringify (JNum v) = (case v of Fin _ _ _ \<Rightarrow> js_num_str v | _ \<Rightarrow> ''null'')"
| "js_stringify (JStr s) = js_quote s"
| "js_stringify (JArr vs) = CHR ''['' # js_join CHR '','' (map js_stringify vs) @ '']''"
| "js_stringify (JObj kvs) =
     CHR ''{'' # js_join CHR '','' (map (\<lambda>(k, v). js_quote k @ CHR '':'' # js_stringify v) kvs) @ ''}''"

section \<open>JSON.parse\<close>

text \<open>
  The grammar of ECMA-404: white space is space, tab, line feed and carriage return;
  a number is \<open>-?(0|[1-9][0-9]*)(.[0-9]+)?([eE][+-]?[0-9]+)?\<close>; a string may not
  contain an unescaped control character. \<open>json_value n s\<close> parses one value at the
  front of \<open>s\<close> and returns it with the rest of the string; \<open>json_elems\<close> and
  \<open>json_members\<close> parse the rest of an array or object after its first
  character. \<open>Out_of_fuel\<close> is the result when the fuel runs out.
\<close>

definition json_ws :: "char \<Rightarrow> bool" where
  "json_ws c \<longleftrightarrow> c = CHR 0x20 \<or> c = CHR 0x09 \<or> c = CHR 0x0A \<or> c = CHR 0x0D"

definition skip_ws :: "string \<Rightarrow> string" where
  "skip_ws s = dropWhile json_ws s"

definition hex4 :: "string \<Rightarrow> nat option" where
  "hex4 s = (if length (take 4 s) = 4 then radix_val 16 0 (take 4 s) else None)"

definition utf8_encode :: "nat \<Rightarrow> string" where
  "utf8_encode cp = (if cp < 0x80 then [char_of cp]
     else if cp < 0x800 then [char_of (0xC0 + cp div 64), char_of (0x80 + cp mod 64)]
     else if cp < 0x10000 then
       [char_of (0xE0 + cp div 4096), char_of (0x80 + (cp div 64) mod 64), char_of (0x80 + cp mod 64)]
     else [char_of (0xF0 + cp div 262144), char_of (0x80 + (cp div 4096) mod 64),
       char_of (0x80 + (cp div 64) mod 64), char_of (0x80 + cp mod 64)])"

definition simple_escape :: "char \<Rightarrow> char option" where
  "simple_escape e = (if e = CHR 0x22 \<or> e = CHR 0x5C \<or> e = CHR ''/'' then Some e
     else if e = CHR ''b'' then Some (CHR 0x08) else if e = CHR ''f'' then Some (CHR 0x0C)
     else if e = CHR ''n'' then Some (CHR 0x0A) else if e = CHR ''r'' then Some (CHR 0x0D)
     else if e = CHR ''t'' then Some (CHR 0x09) else None)"

definition json_escape_seq :: "string \<Rightarrow> (string \<times> nat) option" where
  "json_escape_seq cs = (case cs of [] \<Rightarrow> None
     | e # r \<Rightarrow> (case simple_escape e of Some c \<Rightarrow> Some ([c], 1)
       | None \<Rightarrow> if e \<noteq> CHR ''u'' then None
         else case hex4 r of None \<Rightarrow> None
         | Some u \<Rightarrow> (if 0xD800 \<le> u \<and> u < 0xDC00 \<and> take 2 (drop 4 r) = [CHR 0x5C, CHR ''u'']
             then (case hex4 (drop 6 r) of
                    Some l \<Rightarrow> if 0xDC00 \<le> l \<and> l < 0xE000
                      then Some (utf8_encode (0x10000 + (u - 0xD800) * 0x400 + (l - 0xDC00)), 11)
                      else Some (utf8_encode u, 5)
                  | None \<Rightarrow> Some (utf8_encode u, 5))
             else Some (utf8_encode u, 5))))"

function json_str :: "string \<Rightarrow> (string \<times> string) option" where
  "json_str [] = None"
| "json_str (c # cs) = (if c = CHR 0x22 then Some ([], cs)
     else if c = CHR 0x5C then (case json_escape_seq cs of None \<Rightarrow> None
       | Some (bs, k) \<Rightarrow> map_option (apfst ((@) bs)) (json_str (drop k cs)))
     else if c < CHR 0x20 then None
     else map_option (apfst (Cons c)) (json_str cs))"
  by pat_completeness auto
termination by (relation "measure length") auto

definition json_exp :: "string \<Rightarrow> (int \<times> string) option" where
  "json_exp r = (if r \<noteq> [] \<and> (hd r = CHR ''e'' \<or> hd r = CHR ''E'') then
     (let t = tl r; t' = (if t \<noteq> [] \<and> (hd t = CHR ''+'' \<or> hd t = CHR ''-'') then tl t else t);
          ds = takeWhile is_digit t'; x = int (digits_val ds)
      in if ds = [] then None
         else Some (if t \<noteq> [] \<and> hd t = CHR ''-'' then - x else x, dropWhile is_digit t'))
   else Some (0, r))"

definition json_number :: "string \<Rightarrow> (jsnum \<times> string) option" where
  "json_number s = (let neg = (s \<noteq> [] \<and> hd s = CHR ''-''); s1 = (if neg then tl s else s) in
     if s1 = [] \<or> \<not> is_digit (hd s1) then None
     else (let ds = (if hd s1 = CHR ''0'' then [CHR ''0''] else takeWhile is_digit s1);
               r1 = drop (length ds) s1;
               dot = (r1 \<noteq> [] \<and> hd r1 = CHR ''.'');
               fs = (if dot then takeWhile is_digit (tl r1) else []);
               r2 = (if dot then dropWhile is_digit (tl r1) else r1)
           in if dot \<and> fs = [] then None
              else (case json_exp r2 of None \<Rightarrow> None
                    | Some (x, r3) \<Rightarrow> Some (dec_value neg ds fs x, r3))))"

datatype 'a presult = Out_of_fuel | Syntax_error | Parsed 'a

definition json_scalar :: "string \<Rightarrow> (json \<times> string) presult" where
  "json_scalar t = (if hd t = CHR 0x22 then
       (case json_str (tl t) of None \<Rightarrow> Syntax_error | Some (str, r) \<Rightarrow> Parsed (JStr str, r))
     else if take 4 t = ''true'' then Parsed (JBool True, drop 4 t)
     else if take 5 t = ''false'' then Parsed (JBool False, drop 5 t)
     else if take 4 t = ''null'' then Parsed (JNull, drop 4 t)
     else (case json_number t of None \<Rightarrow> Syntax_error | Some (v, r) \<Rightarrow> Parsed (JNum v, r)))"

fun json_value :: "nat \<Rightarrow> string \<Rightarrow> (json \<times> string) presult"
and json_elems :: "nat \<Rightarrow> json list \<Rightarrow> string \<Rightarrow> (json list \<times> string) presult"
and json_members :: "nat \<Rightarrow> (string \<times> json) list \<Rightarrow> string \<Rightarrow> ((string \<times> json) list \<times> string) presult"
where
  "json_value 0 s = Out_of_fuel"
| "json_value (Suc n) s = (let t = skip_ws s in
     if t = [] then Syntax_error
     else if hd t = CHR ''{'' then
       (let u = skip_ws (tl t) in
        if u \<noteq> [] \<and> hd u = CHR ''}'' then Parsed (JObj [], tl u)
        else map_presult (\<lambda>(kvs, r). (JObj kvs, r)) (json_members n [] (tl t)))
     else if hd t = CHR ''['' then
       (let u = skip_ws (tl t) in
        if u \<noteq> [] \<and> hd u = CHR '']'' then Parsed (JArr [], tl u)
        else map_presult (\<lambda>(vs, r). (JArr vs, r)) (json_elems n [] (tl t)))
     else json_scalar t)"
| "json_elems 0 acc s = Out_of_fuel"
| "json_elems (Suc n) acc s = (case json_value n s of
     Parsed (v, r) \<Rightarrow> (let u = skip_ws r in
       if u \<noteq> [] \<and> hd u = CHR '','' then json_elems n (acc @ [v]) (tl u)
       else if u \<noteq> [] \<and> hd u = CHR '']'' then Parsed (acc @ [v], tl u)
       else Syntax_error)
   | Out_of_fuel \<Rightarrow> Out_of_fuel | Syntax_error \<Rightarrow> Syntax_error)"
| "json_members 0 acc s = Out_of_fuel"
| "json_members (Suc n) acc s = (let t = skip_ws s in
     if t = [] \<or> hd t \<noteq> CHR 0x22 then Syntax_error
     else case json_str (tl t) of None \<Rightarrow> Syntax_error
       | Some (k, r) \<Rightarrow> (let u = skip_ws r in
          if u = [] \<or> hd u \<noteq> CHR '':'' then Syntax_error
          else case json_value n (tl u) of
            Parsed (v, r') \<Rightarrow> (let w = skip_ws r' in
              if w \<noteq> [] \<and> hd w = CHR '','' then json_members n (acc @ [(k, v)]) (tl w)
              else if w \<noteq> [] \<and> hd w = CHR ''}'' then Parsed (acc @ [(k, v)], tl w)
              else Syntax_error)
          | Out_of_fuel \<Rightarrow> Out_of_fuel | Syntax_error \<Rightarrow> Syntax_error))"

definition json_parse :: "string \<Rightarrow> json option" where
  "json_parse s = (case json_value (Suc (2 * length s)) s of
     Parsed (v, r) \<Rightarrow> if skip_ws r = [] then Some v else None
   | _ \<Rightarrow> None)"

fun json_ok :: "json \<Rightarrow> bool" where
  "json_ok (JNum v) \<longleftrightarrow> (case v of Fin neg m e \<Rightarrow> jsnum_ok v \<and> v \<noteq> Fin True 0 0 | _ \<Rightarrow> False)"
| "json_ok (JArr vs) \<longleftrightarrow> list_all json_ok vs"
| "json_ok (JObj kvs) \<longleftrightarrow> list_all (\<lambda>kv. json_ok (snd kv)) kvs"
| "json_ok _ \<longleftrightarrow> True"

text \<open>
  The body middleware: all chunks of the request body are concatenated and parsed;
  \<open>null\<close> when the text is not JSON.
\<close>

definition json_middleware :: "string list \<Rightarrow> json" where
  "json_middleware chunks = (case json_parse (concat chunks) of Some v \<Rightarrow> v | None \<Rightarrow> JNull)"

definition named_escape :: "char \<Rightarrow> char option" where
  "named_escape c = (if c = CHR 0x22 then Some (CHR 0x22) else if c = CHR 0x5C then Some (CHR 0x5C)
     else if c = CHR 0x08 then Some (CHR ''b'') else if c = CHR 0x09 then Some (CHR ''t'')
     else if c = CHR 0x0A then Some (CHR ''n'') else if c = CHR 0x0C then Some (CHR ''f'')
     else if c = CHR 0x0D then Some (CHR ''r'') else None)"

definition json_delim :: "string \<Rightarrow> bool" where
  "json_delim r \<longleftrightarrow> r = [] \<or> hd r = CHR '','' \<or> hd r = CHR '']'' \<or> hd r = CHR ''}''"

section \<open>Lemmas on the parser\<close>

lemma length_skip_ws: "length (skip_ws s) \<le> length s"
  by (simp add: skip_ws_def length_dropWhile_le)

lemma json_str_shorter: "json_str s = Some p \<Longrightarrow> length (snd p) < length s"
proof (induction s arbitrary: p rule: json_str.induct)
  case 1 then show ?case by simp
next
  case (2 c cs)
  show ?case
  proof (cases "c = CHR 0x22 \<or> c = CHR 0x5C")
    case True
    with 2 show ?thesis
      by (fastforce split: if_splits option.splits prod.splits intro: le_less_trans [OF _ "2.IH"(1)])
  next
    case False
    with 2 show ?thesis by (fastforce split: if_splits)
  qed
qed

lemma length_dropWhile_tl [simp]:
  "length (dropWhile P (tl xs)) \<le> length xs" "length (dropWhile P (tl (tl xs))) \<le> length xs"
  using length_dropWhile_le [of P "tl xs"] length_dropWhile_le [of P "tl (tl xs)"] by simp_all

lemma json_exp_shorter: "json_exp r = Some p \<Longrightarrow> length (snd p) \<le> length r"
proof -
  assume "json_exp r = Some p"
  then show ?thesis
    by (auto simp: json_exp_def Let_def split: if_splits)
qed

lemma json_number_shorter: "json_number s = Some p \<Longrightarrow> length (snd p) < length s"
proof -
  assume a: "json_number s = Some p"
  define s1 where "s1 = (if s \<noteq> [] \<and> hd s = CHR ''-'' then tl s else s)"
  have s1: "length s1 \<le> length s" by (simp add: s1_def)
  from a have ne: "s1 \<noteq> []" "is_digit (hd s1)" by (auto simp: json_number_def s1_def Let_def split: if_splits)
  define ds where "ds = (if hd s1 = CHR ''0'' then [CHR ''0''] else takeWhile is_digit s1)"
  have "ds \<noteq> []" using ne by (cases s1) (auto simp: ds_def)
  then have r1: "length (drop (length ds) s1) < length s1" using ne(1) by simp
  define r1 where "r1 = drop (length ds) s1"
  define r2 where "r2 = (if r1 \<noteq> [] \<and> hd r1 = CHR ''.'' then dropWhile is_digit (tl r1) else r1)"
  have r2: "length r2 \<le> length r1"
    by (simp add: r2_def)
  have "\<exists>x. json_exp r2 = Some (x, snd p)"
    using a unfolding json_number_def Let_def s1_def [symmetric] ds_def [symmetric] r1_def [symmetric]
      r2_def [symmetric]
    by (auto split: if_splits option.splits)
  then obtain x where "json_exp r2 = Some (x, snd p)" by blast
  then have "length (snd p) \<le> length r2" using json_exp_shorter by fastforce
  with r1 r2 s1 show ?thesis by (simp add: r1_def)
qed

lemma skip_ws_tl: "skip_ws s \<noteq> [] \<Longrightarrow> length (tl (skip_ws s)) < length s"
proof -
  assume "skip_ws s \<noteq> []"
  then obtain c r where "skip_ws s = c # r" by (cases "skip_ws s") auto
  with length_skip_ws [of s] show ?thesis by simp
qed

lemma json_scalar_shorter: "json_scalar t = Parsed p \<Longrightarrow> t \<noteq> [] \<Longrightarrow> length (snd p) < length t"
  using json_str_shorter [of "tl t"] json_number_shorter [of t]
  by (cases t) (auto simp: json_scalar_def split: if_splits option.splits prod.splits)

lemma json_scalar_fuel: "json_scalar t \<noteq> Out_of_fuel"
  by (simp add: json_scalar_def split: option.split prod.split)

lemma json_value_Suc_cases:
  "json_value (Suc n) s = (let t = skip_ws s in
     if t = [] then Syntax_error
     else if hd t = CHR ''{'' then
       (if skip_ws (tl t) \<noteq> [] \<and> hd (skip_ws (tl t)) = CHR ''}'' then Parsed (JObj [], tl (skip_ws (tl t)))
        else map_presult (\<lambda>(kvs, r). (JObj kvs, r)) (json_members n [] (tl t)))
     else if hd t = CHR ''['' then
       (if skip_ws (tl t) \<noteq> [] \<and> hd (skip_ws (tl t)) = CHR '']'' then Parsed (JArr [], tl (skip_ws (tl t)))
        else map_presult (\<lambda>(vs, r). (JArr vs, r)) (json_elems n [] (tl t)))
     else json_scalar t)"
  by (simp add: Let_def)

lemma map_presult_Parsed_shorter:
  "map_presult (\<lambda>(x, r). (f x, r)) q = Parsed p \<Longrightarrow>
   (\<And>q'. q = Parsed q' \<Longrightarrow> length (snd q') < k) \<Longrightarrow> length (snd p) < k"
  by (cases q) auto

lemma json_value_shorter_step:
  assumes p: "json_value (Suc n) s = Parsed p"
    and IHm: "\<And>q. json_members n [] (tl (skip_ws s)) = Parsed q \<Longrightarrow> length (snd q) < length (tl (skip_ws s))"
    and IHe: "\<And>q. json_elems n [] (tl (skip_ws s)) = Parsed q \<Longrightarrow> length (snd q) < length (tl (skip_ws s))"
  shows "length (snd p) < length s"
proof -
  define t where "t = skip_ws s"
  have t: "length t \<le> length s" by (simp add: t_def length_skip_ws)
  show ?thesis
  proof (cases "t = []")
    case True with p show ?thesis by (simp add: t_def)
  next
    case ne: False
    have tt: "length (tl t) < length s" using ne unfolding t_def by (rule skip_ws_tl)
    have tu: "length (tl (skip_ws (tl t))) < length s" if "skip_ws (tl t) \<noteq> []"
      using skip_ws_tl [OF that] tt by simp
    consider (O) "hd t = CHR ''{''" | (A) "hd t \<noteq> CHR ''{''" "hd t = CHR ''[''"
      | (S) "hd t \<noteq> CHR ''{''" "hd t \<noteq> CHR ''[''" by blast
    then show ?thesis
    proof cases
      case O
      with p ne tu IHm tt show ?thesis
        unfolding json_value_Suc_cases Let_def t_def [symmetric]
        by (auto split: if_splits elim!: map_presult_Parsed_shorter)
    next
      case A
      with p ne tu IHe tt show ?thesis
        unfolding json_value_Suc_cases Let_def t_def [symmetric]
        by (auto split: if_splits elim!: map_presult_Parsed_shorter)
    next
      case S
      with p ne have "json_scalar t = Parsed p"
        unfolding json_value_Suc_cases Let_def t_def [symmetric] by simp
      with ne t show ?thesis using json_scalar_shorter by fastforce
    qed
  qed
qed

lemma json_elems_shorter_step:
  assumes q: "json_elems (Suc n) acc s = Parsed q"
    and IHv: "\<And>s p. json_value n s = Parsed p \<Longrightarrow> length (snd p) < length s"
    and IHe: "\<And>acc s q. json_elems n acc s = Parsed q \<Longrightarrow> length (snd q) < length s"
  shows "length (snd q) < length s"
proof (cases "json_value n s")
  case (Parsed p)
  obtain v r where p: "p = (v, r)" by (cases p)
  have r: "length r < length s" using IHv [OF Parsed] p by simp
  show ?thesis
  proof (cases "skip_ws r = []")
    case True with q Parsed p show ?thesis by simp
  next
    case False
    have u: "length (tl (skip_ws r)) < length s" using skip_ws_tl [OF False] r by simp
    with q Parsed p False IHe [of acc] show ?thesis
      by (auto simp: Let_def split: if_splits dest!: IHe)
  qed
qed (use q in simp_all)

lemma json_members_shorter_step:
  assumes q: "json_members (Suc n) acc s = Parsed q"
    and IHv: "\<And>s p. json_value n s = Parsed p \<Longrightarrow> length (snd p) < length s"
    and IHm: "\<And>acc s q. json_members n acc s = Parsed q \<Longrightarrow> length (snd q) < length s"
  shows "length (snd q) < length s"
proof -
  define t where "t = skip_ws s"
  from q have ne: "t \<noteq> []" "hd t = CHR 0x22" by (auto simp: t_def Let_def split: if_splits)
  from q ne obtain k r where kr: "json_str (tl t) = Some (k, r)"
    by (auto simp: t_def [symmetric] Let_def split: option.splits)
  have r: "length r < length s"
    using json_str_shorter [OF kr] skip_ws_tl [of s] ne by (simp add: t_def)
  define u where "u = skip_ws r"
  from q ne kr have u: "u \<noteq> []" "hd u = CHR '':''"
    by (auto simp: t_def [symmetric] u_def [symmetric] Let_def split: if_splits)
  have ur: "length (tl u) < length s" using skip_ws_tl [of r] u r by (simp add: u_def)
  from q ne kr u obtain v r' where vr: "json_value n (tl u) = Parsed (v, r')"
    by (auto simp: t_def [symmetric] u_def [symmetric] Let_def split: presult.splits)
  have r': "length r' < length s" using IHv [OF vr] ur by simp
  define w where "w = skip_ws r'"
  have w: "w \<noteq> [] \<Longrightarrow> length (tl w) < length s" using skip_ws_tl [of r'] r' by (simp add: w_def)
  from q ne kr u vr w show ?thesis
    by (auto simp: t_def [symmetric] u_def [symmetric] w_def [symmetric] Let_def split: if_splits
        dest!: IHm)
qed

lemma json_shorter_fuel:
  "(\<forall>s p. json_value n s = Parsed p \<longrightarrow> length (snd p) < length s) \<and>
   (\<forall>acc s q. json_elems n acc s = Parsed q \<longrightarrow> length (snd q) < length s) \<and>
   (\<forall>acc s q. json_members n acc s = Parsed q \<longrightarrow> length (snd q) < length s)"
proof (induction n)
  case 0 then show ?case by simp
next
  case (Suc n)
  then have IHv: "\<And>s p. json_value n s = Parsed p \<Longrightarrow> length (snd p) < length s"
    and IHe: "\<And>acc s q. json_elems n acc s = Parsed q \<Longrightarrow> length (snd q) < length s"
    and IHm: "\<And>acc s q. json_members n acc s = Parsed q \<Longrightarrow> length (snd q) < length s" by blast+
  show ?case
  proof (intro conjI allI impI)
    fix s p assume "json_value (Suc n) s = Parsed p"
    then show "length (snd p) < length s"
      by (rule json_value_shorter_step) (erule IHm, erule IHe)
  next
    fix acc s q assume "json_elems (Suc n) acc s = Parsed q"
    then show "length (snd q) < length s"
      by (rule json_elems_shorter_step) (erule IHv, erule IHe)
  next
    fix acc s q assume "json_members (Suc n) acc s = Parsed q"
    then show "length (snd q) < length s"
      by (rule json_members_shorter_step) (erule IHv, erule IHm)
  qed
qed

lemma json_value_shorter: "json_value n s = Parsed p \<Longrightarrow> length (snd p) < length s"
  using json_shorter_fuel by blast

lemma map_presult_not_fuel: "q \<noteq> Out_of_fuel \<Longrightarrow> map_presult f q \<noteq> Out_of_fuel"
  by (cases q) simp_all

lemma json_value_fuel_step:
  assumes n: "2 * length s < Suc n"
    and IHm: "\<And>acc s. 2 * length s + 1 < n \<Longrightarrow> json_members n acc s \<noteq> Out_of_fuel"
    and IHe: "\<And>acc s. 2 * length s + 1 < n \<Longrightarrow> json_elems n acc s \<noteq> Out_of_fuel"
  shows "json_value (Suc n) s \<noteq> Out_of_fuel"
proof (cases "skip_ws s = []")
  case True then show ?thesis by simp
next
  case False
  have "2 * length (tl (skip_ws s)) + 1 < n" using skip_ws_tl [OF False] n by simp
  then have "json_members n [] (tl (skip_ws s)) \<noteq> Out_of_fuel" "json_elems n [] (tl (skip_ws s)) \<noteq> Out_of_fuel"
    by (rule IHm, rule IHe)
  with False show ?thesis
    unfolding json_value_Suc_cases Let_def
    by (auto simp: json_scalar_fuel intro!: map_presult_not_fuel)
qed

lemma json_elems_fuel_step:
  assumes n: "2 * length s + 1 < Suc n"
    and IHv: "\<And>s. 2 * length s < n \<Longrightarrow> json_value n s \<noteq> Out_of_fuel"
    and IHe: "\<And>acc s. 2 * length s + 1 < n \<Longrightarrow> json_elems n acc s \<noteq> Out_of_fuel"
  shows "json_elems (Suc n) acc s \<noteq> Out_of_fuel"
proof (cases "json_value n s")
  case (Parsed p)
  obtain v r where p: "p = (v, r)" by (cases p)
  have r: "length r < length s" using json_value_shorter [OF Parsed] p by simp
  have "2 * length (tl (skip_ws r)) + 1 < n" if "skip_ws r \<noteq> []"
    using skip_ws_tl [OF that] r n by simp
  with Parsed p IHe show ?thesis by (auto simp: Let_def)
next
  case Out_of_fuel
  with IHv n show ?thesis by simp
qed simp

lemma json_members_fuel_step:
  assumes n: "2 * length s + 1 < Suc n"
    and IHv: "\<And>s. 2 * length s < n \<Longrightarrow> json_value n s \<noteq> Out_of_fuel"
    and IHm: "\<And>acc s. 2 * length s + 1 < n \<Longrightarrow> json_members n acc s \<noteq> Out_of_fuel"
  shows "json_members (Suc n) acc s \<noteq> Out_of_fuel"
proof -
  define t where "t = skip_ws s"
  show ?thesis
  proof (cases "t = [] \<or> hd t \<noteq> CHR 0x22")
    case True then show ?thesis by (simp add: t_def [symmetric])
  next
    case ne: False
    show ?thesis
    proof (cases "json_str (tl t)")
      case None with ne show ?thesis by (simp add: t_def [symmetric])
    next
      case (Some kr)
      obtain k r where kr: "kr = (k, r)" by (cases kr)
      have r: "length r < length s"
        using json_str_shorter [OF Some] skip_ws_tl [of s] ne kr by (simp add: t_def)
      define u where "u = skip_ws r"
      show ?thesis
      proof (cases "u = [] \<or> hd u \<noteq> CHR '':''")
        case True with ne Some kr show ?thesis by (simp add: t_def [symmetric] u_def [symmetric])
      next
        case u: False
        have ur: "length (tl u) < length s" using skip_ws_tl [of r] u r by (simp add: u_def)
        then have v: "json_value n (tl u) \<noteq> Out_of_fuel" using n by (intro IHv) simp
        show ?thesis
        proof (cases "json_value n (tl u)")
          case (Parsed p)
          obtain v r' where p: "p = (v, r')" by (cases p)
          have "length r' < length s" using json_value_shorter [OF Parsed] p ur by simp
          then have "2 * length (tl (skip_ws r')) + 1 < n" if "skip_ws r' \<noteq> []"
            using skip_ws_tl [OF that] n by simp
          with ne Some kr u Parsed p IHm show ?thesis
            by (auto simp: t_def [symmetric] u_def [symmetric] Let_def)
        qed (use ne Some kr u v in \<open>simp_all add: t_def [symmetric] u_def [symmetric]\<close>)
      qed
    qed
  qed
qed

lemma json_fuel_enough:
  "(\<forall>s. 2 * length s < n \<longrightarrow> json_value n s \<noteq> Out_of_fuel) \<and>
   (\<forall>acc s. 2 * length s + 1 < n \<longrightarrow> json_elems n acc s \<noteq> Out_of_fuel) \<and>
   (\<forall>acc s. 2 * length s + 1 < n \<longrightarrow> json_members n acc s \<noteq> Out_of_fuel)"
proof (induction n)
  case 0 then show ?case by simp
next
  case (Suc n)
  then have IHv: "\<And>s. 2 * length s < n \<Longrightarrow> json_value n s \<noteq> Out_of_fuel"
    and IHe: "\<And>acc s. 2 * length s + 1 < n \<Longrightarrow> json_elems n acc s \<noteq> Out_of_fuel"
    and IHm: "\<And>acc s. 2 * length s + 1 < n \<Longrightarrow> json_members n acc s \<noteq> Out_of_fuel" by blast+
  show ?case
  proof (intro conjI allI impI)
    fix s :: string assume "2 * length s < Suc n"
    then show "json_value (Suc n) s \<noteq> Out_of_fuel"
      by (rule json_value_fuel_step) (erule IHm, erule IHe)
  next
    fix acc and s :: string assume "2 * length s + 1 < Suc n"
    then show "json_elems (Suc n) acc s \<noteq> Out_of_fuel"
      by (rule json_elems_fuel_step) (erule IHv, erule IHe)
  next
    fix acc and s :: string assume "2 * length s + 1 < Suc n"
    then show "json_members (Suc n) acc s \<noteq> Out_of_fuel"
      by (rule json_members_fuel_step) (erule IHv, erule IHm)
  qed
qed

lemma radix_digit_hex_char: "d < 16 \<Longrightarrow> radix_digit 16 (hex_char d) = Some d"
proof (cases "d < 10")
  case True then show ?thesis by (simp add: radix_digit_def hex_char_def Let_def)
next
  case False
  assume "d < 16"
  with False have "\<not> is_digit (char_of (87 + d))" "CHR ''a'' \<le> char_of (87 + d)" "char_of (87 + d) \<le> CHR ''z''"
    by (simp_all add: is_digit_def less_eq_char_def)
  with False \<open>d < 16\<close> show ?thesis by (simp add: radix_digit_def hex_char_def Let_def)
qed

lemma hex4_control:
  assumes "c < CHR 0x20"
  shows "hex4 (CHR ''0'' # CHR ''0'' # hex_char (of_char c div 16) # hex_char (of_char c mod 16) # r) =
    Some (of_char c)"
proof -
  have c: "of_char c < (32 :: nat)" using assms by (simp add: less_char_def)
  then have "of_char c div 16 < (16 :: nat)" by simp
  moreover have "radix_digit 16 (CHR ''0'') = Some 0" by (simp add: radix_digit_def is_digit_def digit_val_def)
  ultimately show ?thesis
    by (simp add: hex4_def radix_digit_hex_char)
qed

lemma utf8_encode_ascii: "of_char c < (128 :: nat) \<Longrightarrow> utf8_encode (of_char c) = [c]"
  by (simp add: utf8_encode_def)

lemma json_escape_named: "named_escape c = Some e \<Longrightarrow> json_escape c = [CHR 0x5C, e] \<and> simple_escape e = Some c"
  unfolding named_escape_def json_escape_def simple_escape_def
  by (auto split: if_splits)

lemma json_escape_other: "named_escape c = None \<Longrightarrow>
   json_escape c = (if c < CHR 0x20 then [CHR 0x5C, CHR ''u'', CHR ''0'', CHR ''0'',
       hex_char (of_char c div 16), hex_char (of_char c mod 16)] else [c])"
  unfolding named_escape_def json_escape_def
  by (simp split: if_splits)

lemma json_str_simple: "simple_escape e = Some c \<Longrightarrow>
  json_str (CHR 0x5C # e # rest) = map_option (apfst (Cons c)) (json_str rest)"
  by (cases "json_str rest") (auto simp: json_escape_seq_def)

lemma json_str_escape:
  "json_str (json_escape c @ rest) = map_option (apfst (Cons c)) (json_str rest)"
proof (cases "named_escape c")
  case (Some e)
  then have "json_escape c = [CHR 0x5C, e]" "simple_escape e = Some c" by (simp_all add: json_escape_named)
  then show ?thesis by (simp only: append_Cons append_Nil json_str_simple)
next
  case None
  then have nq: "c \<noteq> CHR 0x22" "c \<noteq> CHR 0x5C" by (auto simp: named_escape_def split: if_splits)
  show ?thesis
  proof (cases "c < CHR 0x20")
    case True
    have c: "of_char c < (32 :: nat)" using True by (simp add: less_char_def)
    have u: "simple_escape (CHR ''u'') = None" by (simp add: simple_escape_def)
    have "json_escape_seq (CHR ''u'' # CHR ''0'' # CHR ''0'' # hex_char (of_char c div 16) #
        hex_char (of_char c mod 16) # rest) = Some ([c], 5)"
      using hex4_control [OF True] c utf8_encode_ascii [of c] u by (simp add: json_escape_seq_def)
    with json_escape_other [OF None] True show ?thesis
      by (cases "json_str rest") auto
  next
    case False
    with json_escape_other [OF None] nq show ?thesis by (simp add: less_char_def)
  qed
qed

lemma json_str_quote: "json_str (concat (map json_escape s) @ CHR 0x22 # r) = Some (s, r)"
  by (induction s) (simp_all add: json_str_escape)

lemma json_delim_not_digit: "json_delim r \<Longrightarrow> r \<noteq> [] \<Longrightarrow> \<not> is_digit (hd r)"
  by (auto simp: json_delim_def is_digit_def)

lemma json_exp_exp_str: "json_delim r \<Longrightarrow> json_exp (exp_str x @ r) = Some (x, r)"
proof (cases "x = 0")
  case True
  assume "json_delim r"
  with True show ?thesis by (auto simp: exp_str_def json_exp_def json_delim_def)
next
  case False
  assume d: "json_delim r"
  let ?ds = "nat_digits (nat \<bar>x\<bar>)"
  have "takeWhile is_digit (?ds @ r) = ?ds" "dropWhile is_digit (?ds @ r) = r"
    using d nat_digits_digits json_delim_not_digit [OF d] by (auto intro: takeWhile_digits dropWhile_digits)
  with False show ?thesis by (auto simp: exp_str_def json_exp_def)
qed

lemma exp_str_rest:
  "json_delim r \<Longrightarrow> exp_str x @ r = [] \<or> (\<not> is_digit (hd (exp_str x @ r)) \<and> hd (exp_str x @ r) \<noteq> CHR ''.'')"
  by (cases "exp_str x") (auto simp: exp_str_def json_delim_def is_digit_def split: if_splits)

lemma json_number_digits:
  assumes ds: "list_all is_digit ds" "ds \<noteq> []" "ds = [CHR ''0''] \<or> hd ds \<noteq> CHR ''0''"
    and F: "F = [] \<or> \<not> is_digit (hd F)"
  shows "json_number ((if neg then [CHR ''-''] else []) @ ds @ F) =
    (if F \<noteq> [] \<and> hd F = CHR ''.'' then
       (if takeWhile is_digit (tl F) = [] then None
        else case json_exp (dropWhile is_digit (tl F)) of None \<Rightarrow> None
          | Some (x, r) \<Rightarrow> Some (dec_value neg ds (takeWhile is_digit (tl F)) x, r))
     else (case json_exp F of None \<Rightarrow> None | Some (x, r) \<Rightarrow> Some (dec_value neg ds [] x, r)))"
proof -
  let ?S = "(if neg then [CHR ''-''] else []) @ ds @ F"
  have hd: "is_digit (hd ds)" using list_all_hd [OF ds(1) ds(2)] .
  have 1: "(?S \<noteq> [] \<and> hd ?S = CHR ''-'') = neg" using ds(2) hd by (auto simp: is_digit_def)
  have 2: "(if neg then tl ?S else ?S) = ds @ F" by simp
  have 3: "(ds @ F = [] \<or> \<not> is_digit (hd (ds @ F))) = False" using ds(2) hd by simp
  have 4: "(if hd (ds @ F) = CHR ''0'' then [CHR ''0''] else takeWhile is_digit (ds @ F)) = ds"
    using ds(2,3) takeWhile_digits [OF ds(1) F] by (auto simp: hd_append)
  have 5: "drop (length ds) (ds @ F) = F" by simp
  show ?thesis
    unfolding json_number_def Let_def 1 2 3 4 5 if_False
    by (simp split: option.split)
qed

lemma json_number_dec_str:
  assumes p: "dec_parts ds fs" and d: "json_delim r"
  shows "json_number ((if neg then [CHR ''-''] else []) @ dec_str ds fs x @ r) = Some (dec_value neg ds fs x, r)"
proof -
  have ds: "list_all is_digit ds" "ds \<noteq> []" "ds = [CHR ''0''] \<or> hd ds \<noteq> CHR ''0''" "list_all is_digit fs"
    using p by (simp_all add: dec_parts_def)
  define E where "E = exp_str x @ r"
  have E: "E = [] \<or> (\<not> is_digit (hd E) \<and> hd E \<noteq> CHR ''.'')" unfolding E_def by (rule exp_str_rest [OF d])
  have jE: "json_exp E = Some (x, r)" unfolding E_def by (rule json_exp_exp_str [OF d])
  show ?thesis
  proof (cases "fs = []")
    case True
    have "dec_str ds fs x @ r = ds @ E" by (simp add: dec_str_def E_def True)
    with E jE json_number_digits [OF ds(1-3), of E neg] show ?thesis by (auto simp: True)
  next
    case False
    have "dec_str ds fs x @ r = ds @ (CHR ''.'' # fs @ E)" by (simp add: dec_str_def E_def False)
    moreover have "takeWhile is_digit (fs @ E) = fs" "dropWhile is_digit (fs @ E) = E"
      using E ds(4) by (auto intro: takeWhile_digits dropWhile_digits)
    ultimately show ?thesis
      using jE False json_number_digits [OF ds(1-3), of "CHR ''.'' # fs @ E" neg] by (simp add: is_digit_def)
  qed
qed

lemma json_number_js_num_str:
  assumes ok: "jsnum_ok (Fin neg m e)" "Fin neg m e \<noteq> Fin True 0 0" and d: "json_delim r"
  shows "json_number (js_num_str (Fin neg m e) @ r) = Some (Fin neg m e, r)"
proof (cases "m = 0")
  case True
  with ok have "e = 0" "\<not> neg" by simp_all
  moreover have "dec_parts [CHR ''0''] []" by (simp add: dec_parts_def)
  moreover have "dec_value False [CHR ''0''] [] 0 = Fin False 0 0"
    by (simp add: dec_value_def mk_fin_def digits_val_def digit_val_def norm_dec.simps)
  ultimately show ?thesis
    using json_number_dec_str [of "[CHR ''0'']" "[]" r False 0] d True
    by (simp add: fin_str_def dec_str_def exp_str_def)
next
  case False
  with ok have m: "0 < m" "\<not> 10 dvd m" by simp_all
  obtain ds fs x where p: "fin_str m e = dec_str ds fs x" "dec_parts ds fs" "dec_value neg ds fs x = Fin neg m e"
    using fin_str_parts [OF m, of e neg] by blast
  have "js_num_str (Fin neg m e) @ r = (if neg then [CHR ''-''] else []) @ dec_str ds fs x @ r"
    using False p(1) by simp
  with json_number_dec_str [OF p(2) d, of neg x] p(3) show ?thesis by simp
qed

lemma skip_ws_id: "s = [] \<or> \<not> json_ws (hd s) \<Longrightarrow> skip_ws s = s"
  by (cases s) (auto simp: skip_ws_def)

lemma json_delim_skip: "json_delim r \<Longrightarrow> skip_ws r = r"
  by (rule skip_ws_id) (auto simp: json_delim_def json_ws_def)

lemma js_num_str_hd: "js_num_str (Fin neg m e) \<noteq> [] \<and> (is_digit (hd (js_num_str (Fin neg m e))) \<or> hd (js_num_str (Fin neg m e)) = CHR ''-'')"
proof (cases "m = 0")
  case True then show ?thesis by (simp add: fin_str_def is_digit_def)
next
  case False then show ?thesis using fin_str_hd [of m e] by simp
qed

lemma num_head_char: "is_digit c \<or> c = CHR ''-'' \<Longrightarrow>
  \<not> json_ws c \<and> c \<noteq> CHR '']'' \<and> c \<noteq> CHR ''}''"
  by (auto simp: is_digit_def json_ws_def)

lemma js_stringify_hd:
  "js_stringify v \<noteq> [] \<and> \<not> json_ws (hd (js_stringify v)) \<and> hd (js_stringify v) \<noteq> CHR '']'' \<and>
   hd (js_stringify v) \<noteq> CHR ''}''"
proof (cases v)
  case (JNum x)
  show ?thesis
  proof (cases x)
    case (Fin neg m e)
    with JNum js_num_str_hd [of neg m e] num_head_char show ?thesis by simp
  qed (simp_all add: JNum json_ws_def)
qed (auto simp: json_ws_def js_quote_def)

lemma json_scalar_roundtrip:
  assumes "json_ok v" "json_delim r" "\<And>vs. v \<noteq> JArr vs" "\<And>kvs. v \<noteq> JObj kvs"
  shows "json_scalar (js_stringify v @ r) = Parsed (v, r)"
proof (cases v)
  case (JNum x)
  then obtain neg m e where x: "x = Fin neg m e" using assms(1) by (cases x) auto
  have h: "js_num_str x \<noteq> [] \<and> (is_digit (hd (js_num_str x)) \<or> hd (js_num_str x) = CHR ''-'')"
    using js_num_str_hd x by simp
  then have "hd (js_num_str x @ r) \<noteq> CHR 0x22 \<and> take 4 (js_num_str x @ r) \<noteq> ''true'' \<and>
    take 5 (js_num_str x @ r) \<noteq> ''false'' \<and> take 4 (js_num_str x @ r) \<noteq> ''null''"
    by (cases "js_num_str x") (auto simp: is_digit_def)
  then have sc: "json_scalar (js_num_str x @ r) =
      (case json_number (js_num_str x @ r) of None \<Rightarrow> Syntax_error | Some (v, r) \<Rightarrow> Parsed (JNum v, r))"
    by (simp add: json_scalar_def del: js_num_str.simps)
  have jn: "json_number (js_num_str x @ r) = Some (x, r)"
    using json_number_js_num_str [of neg m e r] x JNum assms(1,2) by simp
  have sv: "js_stringify v = js_num_str x" using JNum x by simp
  show ?thesis unfolding sv sc jn using JNum by simp
next
  case (JStr s)
  with json_str_quote [of s r] show ?thesis by (simp add: json_scalar_def js_quote_def)
qed (use assms in \<open>simp_all add: json_scalar_def\<close>)

lemma json_elems_roundtrip:
  assumes "vs \<noteq> []"
    and IH: "\<And>v r n. v \<in> set vs \<Longrightarrow> json_delim r \<Longrightarrow> 2 * length (js_stringify v @ r) < n \<Longrightarrow>
      json_value n (js_stringify v @ r) = Parsed (v, r)"
    and "2 * length (js_join CHR '','' (map js_stringify vs) @ CHR '']'' # r) + 1 < n"
  shows "json_elems n acc (js_join CHR '','' (map js_stringify vs) @ CHR '']'' # r) = Parsed (acc @ vs, r)"
  using assms
proof (induction vs arbitrary: acc n)
  case Nil then show ?case by simp
next
  case (Cons v vs)
  obtain n' where n: "n = Suc n'" using Cons.prems(3) by (cases n) auto
  show ?case
  proof (cases "vs = []")
    case True
    have "json_value n' (js_stringify v @ CHR '']'' # r) = Parsed (v, CHR '']'' # r)"
      using Cons.prems(3) True n by (intro Cons.prems(2)) (simp_all add: json_delim_def)
    with True n show ?thesis by (simp add: json_delim_skip json_delim_def)
  next
    case False
    let ?J = "js_join CHR '','' (map js_stringify vs) @ CHR '']'' # r"
    have j: "js_join CHR '','' (map js_stringify (v # vs)) @ CHR '']'' # r = js_stringify v @ CHR '','' # ?J"
      using False by (simp add: js_join_Cons_Cons)
    have hv: "js_stringify v \<noteq> []" using js_stringify_hd by blast
    have "json_value n' (js_stringify v @ CHR '','' # ?J) = Parsed (v, CHR '','' # ?J)"
      using Cons.prems(3) j n by (intro Cons.prems(2)) (simp_all add: json_delim_def)
    moreover have "json_elems n' (acc @ [v]) ?J = Parsed ((acc @ [v]) @ vs, r)"
      using Cons.prems(3) j n hv False by (intro Cons.IH) (auto intro: Cons.prems(2))
    ultimately show ?thesis
      using j n by (simp add: json_delim_skip json_delim_def)
  qed
qed

lemma json_members_roundtrip:
  assumes "kvs \<noteq> []"
    and IH: "\<And>k v r n. (k, v) \<in> set kvs \<Longrightarrow> json_delim r \<Longrightarrow> 2 * length (js_stringify v @ r) < n \<Longrightarrow>
      json_value n (js_stringify v @ r) = Parsed (v, r)"
    and "2 * length (js_join CHR '','' (map (\<lambda>(k, v). js_quote k @ CHR '':'' # js_stringify v) kvs) @
      CHR ''}'' # r) + 1 < n"
  shows "json_members n acc (js_join CHR '','' (map (\<lambda>(k, v). js_quote k @ CHR '':'' # js_stringify v) kvs) @
      CHR ''}'' # r) = Parsed (acc @ kvs, r)"
  using assms
proof (induction kvs arbitrary: acc n)
  case Nil then show ?case by simp
next
  case (Cons kv kvs)
  obtain k v where kv: "kv = (k, v)" by (cases kv)
  obtain n' where n: "n = Suc n'" using Cons.prems(3) by (cases n) auto
  let ?M = "\<lambda>(k, v). js_quote k @ CHR '':'' # js_stringify v"
  define D where "D = (if kvs = [] then CHR ''}'' # r else CHR '','' # js_join CHR '','' (map ?M kvs) @ CHR ''}'' # r)"
  have j: "js_join CHR '','' (map ?M (kv # kvs)) @ CHR ''}'' # r =
     CHR 0x22 # concat (map json_escape k) @ CHR 0x22 # CHR '':'' # js_stringify v @ D"
    by (cases kvs) (simp_all add: D_def kv js_quote_def js_join_Cons_Cons)
  have dD: "json_delim D" by (simp add: D_def json_delim_def)
  have L: "length (js_stringify v @ D) < length (js_join CHR '','' (map ?M (kv # kvs)) @ CHR ''}'' # r)"
    unfolding j by simp
  have v: "json_value n' (js_stringify v @ D) = Parsed (v, D)"
    using Cons.prems(3) L n dD by (intro Cons.prems(2) [of k]) (simp_all add: kv)
  show ?case
  proof (cases "kvs = []")
    case True
    with v j n show ?thesis
      by (simp add: Let_def skip_ws_def json_ws_def json_str_quote D_def kv)
  next
    case False
    have hv: "js_stringify v \<noteq> []" using js_stringify_hd by blast
    have "json_members n' (acc @ [(k, v)]) (js_join CHR '','' (map ?M kvs) @ CHR ''}'' # r) =
        Parsed ((acc @ [(k, v)]) @ kvs, r)"
      using Cons.prems(3) j n hv False by (intro Cons.IH) (auto simp: D_def intro: Cons.prems(2))
    with v j n False show ?thesis
      by (simp add: Let_def skip_ws_def json_ws_def json_str_quote D_def kv)
  qed
qed

lemma json_value_scalar:
  assumes "json_ok v" "json_delim r" "\<And>vs. v \<noteq> JArr vs" "\<And>kvs. v \<noteq> JObj kvs"
  shows "json_value (Suc n) (js_stringify v @ r) = Parsed (v, r)"
proof -
  have h: "js_stringify v \<noteq> []" "\<not> json_ws (hd (js_stringify v))" using js_stringify_hd by blast+
  then have sk: "skip_ws (js_stringify v @ r) = js_stringify v @ r" by (intro skip_ws_id) simp
  have "hd (js_stringify v) \<noteq> CHR ''{'' \<and> hd (js_stringify v) \<noteq> CHR ''[''"
  proof (cases v)
    case (JNum x)
    with assms(1) obtain neg m e where "x = Fin neg m e" by (cases x) auto
    with JNum js_num_str_hd [of neg m e] show ?thesis by (auto simp: is_digit_def)
  qed (use assms in \<open>auto simp: js_quote_def\<close>)
  with h sk json_scalar_roundtrip [OF assms] show ?thesis by (simp add: Let_def)
qed

lemma json_value_arr:
  assumes IH: "\<And>v r n. v \<in> set vs \<Longrightarrow> json_delim r \<Longrightarrow> 2 * length (js_stringify v @ r) < n \<Longrightarrow>
      json_value n (js_stringify v @ r) = Parsed (v, r)"
    and r: "json_delim r" and n: "2 * length (js_stringify (JArr vs) @ r) < Suc n"
  shows "json_value (Suc n) (js_stringify (JArr vs) @ r) = Parsed (JArr vs, r)"
proof (cases "vs = []")
  case True with r show ?thesis by (simp add: skip_ws_def json_ws_def json_delim_skip)
next
  case False
  let ?J = "js_join CHR '','' (map js_stringify vs) @ CHR '']'' # r"
  obtain w ws where vs: "vs = w # ws" using False by (cases vs) auto
  have h: "js_stringify w \<noteq> []" "\<not> json_ws (hd (js_stringify w))" "hd (js_stringify w) \<noteq> CHR '']''"
    using js_stringify_hd by blast+
  have J: "?J = js_stringify w @ (if ws = [] then [] else CHR '','' # js_join CHR '','' (map js_stringify ws)) @ CHR '']'' # r"
    by (cases ws) (simp_all add: vs)
  have sk: "skip_ws ?J = ?J" "hd ?J \<noteq> CHR '']''" "?J \<noteq> []"
    using h unfolding J by (simp_all add: skip_ws_id)
  have "json_elems n [] ?J = Parsed ([] @ vs, r)"
    using False IH n by (intro json_elems_roundtrip) simp_all
  with sk show ?thesis by (simp add: skip_ws_def json_ws_def)
qed

lemma json_value_obj:
  assumes IH: "\<And>k v r n. (k, v) \<in> set kvs \<Longrightarrow> json_delim r \<Longrightarrow> 2 * length (js_stringify v @ r) < n \<Longrightarrow>
      json_value n (js_stringify v @ r) = Parsed (v, r)"
    and r: "json_delim r" and n: "2 * length (js_stringify (JObj kvs) @ r) < Suc n"
  shows "json_value (Suc n) (js_stringify (JObj kvs) @ r) = Parsed (JObj kvs, r)"
proof (cases "kvs = []")
  case True with r show ?thesis by (simp add: skip_ws_def json_ws_def json_delim_skip)
next
  case False
  let ?M = "\<lambda>(k, v). js_quote k @ CHR '':'' # js_stringify v"
  let ?J = "js_join CHR '','' (map ?M kvs) @ CHR ''}'' # r"
  obtain k v kvs' where kvs: "kvs = (k, v) # kvs'" using False by (cases kvs) auto
  have J: "?J = CHR 0x22 # concat (map json_escape k) @ CHR 0x22 # CHR '':'' # js_stringify v @
      (if kvs' = [] then [] else CHR '','' # js_join CHR '','' (map ?M kvs')) @ CHR ''}'' # r"
    by (cases kvs') (simp_all add: kvs js_quote_def)
  have sk: "skip_ws ?J = ?J" "hd ?J = CHR 0x22" "?J \<noteq> []"
    unfolding J by (simp_all add: skip_ws_id json_ws_def)
  have "json_members n [] ?J = Parsed ([] @ kvs, r)"
    using False IH n by (intro json_members_roundtrip) simp_all
  with sk show ?thesis by (simp add: skip_ws_def json_ws_def)
qed

lemma json_value_roundtrip:
  "json_ok v \<Longrightarrow> json_delim r \<Longrightarrow> 2 * length (js_stringify v @ r) < n \<Longrightarrow>
   json_value n (js_stringify v @ r) = Parsed (v, r)"
proof (induction v arbitrary: r n)
  case (JArr vs)
  then obtain n' where n: "n = Suc n'" by (cases n) auto
  have IH: "\<And>v r n. v \<in> set vs \<Longrightarrow> json_delim r \<Longrightarrow> 2 * length (js_stringify v @ r) < n \<Longrightarrow>
      json_value n (js_stringify v @ r) = Parsed (v, r)"
    using JArr.IH JArr.prems(1) by (simp add: list_all_iff)
  show ?case using json_value_arr [OF IH JArr.prems(2)] JArr.prems(3) n by simp
next
  case (JObj kvs)
  then obtain n' where n: "n = Suc n'" by (cases n) auto
  have IH: "\<And>k v r n. (k, v) \<in> set kvs \<Longrightarrow> json_delim r \<Longrightarrow> 2 * length (js_stringify v @ r) < n \<Longrightarrow>
      json_value n (js_stringify v @ r) = Parsed (v, r)"
    using JObj.IH JObj.prems(1) by (fastforce simp: list_all_iff)
  show ?case using json_value_obj [OF IH JObj.prems(2)] JObj.prems(3) n by simp
next
  case JNull then show ?case using json_value_scalar [of "JNull" r] by (cases n) simp_all
next
  case (JBool b) then show ?case using json_value_scalar [of "JBool b" r] by (cases n) simp_all
next
  case (JNum x) then show ?case using json_value_scalar [of "JNum x" r] by (cases n) simp_all
next
  case (JStr s) then show ?case using json_value_scalar [of "JStr s" r] by (cases n) simp_all
qed


lemma json_parse_js_stringify: "json_ok v \<Longrightarrow> json_parse (js_stringify v) = Some v"
  using json_value_roundtrip [of v "[]" "Suc (2 * length (js_stringify v))"]
  by (simp add: json_parse_def json_delim_def skip_ws_def)

lemma json_middleware_stringify [simp]: "json_ok v \<Longrightarrow> json_middleware [js_stringify v] = v"
  by (simp add: json_middleware_def json_parse_js_stringify del: js_stringify.simps)

lemma json_middleware_Nil [simp]: "json_middleware [] = JNull"
  by (simp add: json_middleware_def json_parse_def skip_ws_def)

end
