(* ===== verification/Routes.thy ===== *)
theory Routes
  imports Database Router Json
begin

text \<open>
  The route handlers of \<open>src/routes.js\<close>: five CRUD endpoints over the
  \<open>tasks\<close> table. Each handler takes the environment of the request (the clock
  reading \<open>new Date().toISOString()\<close> and the value of \<open>randomUUID()\<close>), the
  parsed request (path parameters, query object, JSON body) and the store, and
  returns the response and the new store. Validation by \<open>zod\<close> (a library the
  sources call) is modelled by the two parsers \<open>parse_id_params\<close> and
  \<open>parse_task_body\<close>; every early \<open>return res.writeHead(...)\<close> is a branch that
  leaves the store unchanged.
\<close>

section \<open>Requests and responses\<close>

datatype resp_body = Empty | Text string | Json json

record response =
  status :: nat
  body :: resp_body

text \<open>\<open>req.params\<close>, \<open>req.query\<close> and \<open>req.body\<close> as the server sets them.\<close>

record hreq =
  req_params :: params
  req_query :: "(string \<times> string option) list"
  req_body :: json

text \<open>What a handler reads from the outside world.\<close>

record env =
  now :: timestamp
  fresh_id :: uuid

section \<open>Validation\<close>

definition is_hex :: "char \<Rightarrow> bool" where
  "is_hex c \<longleftrightarrow> (CHR ''0'' \<le> c \<and> c \<le> CHR ''9'') \<or> (CHR ''a'' \<le> c \<and> c \<le> CHR ''f'')
     \<or> (CHR ''A'' \<le> c \<and> c \<le> CHR ''F'')"

text \<open>\<open>z.string().uuid()\<close>: five groups of 8, 4, 4, 4 and 12 hexadecimal digits.\<close>

definition is_uuid :: "string \<Rightarrow> bool" where
  "is_uuid s \<longleftrightarrow>
     map length (js_split CHR ''-'' s) = [8, 4, 4, 4, 12] \<and> list_all (list_all is_hex) (js_split CHR ''-'' s)"

text \<open>\<open>z.object({id: z.string().uuid()}).safeParse(req.params)\<close>.\<close>

definition parse_id_params :: "params \<Rightarrow> uuid option" where
  "parse_id_params ps = (case map_of ps ''id'' of
      Some v \<Rightarrow> if is_uuid v then Some v else None
    | None \<Rightarrow> None)"

text \<open>
  \<open>z.object({title: z.string(), description: z.string()}).safeParse(req.body)\<close>:
  the body must be an object whose two members are strings (any strings, the
  empty one included); other members are dropped.
\<close>

definition parse_task_body :: "json \<Rightarrow> (string \<times> string) option" where
  "parse_task_body b = (case b of
      JObj kvs \<Rightarrow>
        (case (json_get ''title'' kvs, json_get ''description'' kvs) of
           (Some (JStr t), Some (JStr ds)) \<Rightarrow> Some (t, ds)
         | _ \<Rightarrow> None)
    | _ \<Rightarrow> None)"

section \<open>Handlers\<close>

definition resp :: "nat \<Rightarrow> resp_body \<Rightarrow> response" where
  "resp s b = \<lparr>status = s, body = b\<rparr>"

text \<open>\<open>JSON.stringify\<close> of a task: its six members in declaration order.\<close>

definition task_json :: "task \<Rightarrow> json" where
  "task_json r = JObj [(''id'', JStr (task_id r)), (''title'', JStr (title r)),
     (''description'', JStr (description r)), (''completed_at'', JStr (completed_at r)),
     (''created_at'', JStr (created_at r)), (''updated_at'', JStr (updated_at r))]"

text \<open>
  GET \<open>/tasks\<close>: a truthy \<open>search\<close> (present and not empty) becomes one filter
  entry per field, all with the same value.
\<close>

definition search_filter :: "(string \<times> string option) list \<Rightarrow> fields option" where
  "search_filter q = (case query_get ''search'' q of
      Some s \<Rightarrow> if s \<noteq> [] then
        Some [(Title, s), (Description, s), (Completed_at, s), (Created_at, s), (Updated_at, s)]
        else None
    | None \<Rightarrow> None)"

definition list_tasks :: "hreq \<Rightarrow> db \<Rightarrow> response \<times> db" where
  "list_tasks rq d =
     (resp 200 (Json (JArr (map task_json (select d ''tasks'' (search_filter (req_query rq)))))), d)"

text \<open>POST \<open>/tasks\<close>: the task object of lines 60--67.\<close>

definition new_task :: "env \<Rightarrow> string \<Rightarrow> string \<Rightarrow> task" where
  "new_task e t ds = \<lparr>task_id = fresh_id e, title = t, description = ds, completed_at = [],
     created_at = now e, updated_at = now e\<rparr>"

definition create_task :: "env \<Rightarrow> hreq \<Rightarrow> db \<Rightarrow> response \<times> db" where
  "create_task e rq d = (case parse_task_body (req_body rq) of
      None \<Rightarrow> (resp 400 (Text ''Bad Request.''), d)
    | Some (t, ds) \<Rightarrow> (resp 201 Empty, insert_db ''tasks'' (new_task e t ds) d))"

text \<open>PUT \<open>/tasks/:id\<close>: the fields written back, \<open>completed_at\<close> and \<open>created_at\<close> carried over.\<close>

definition edit_fields :: "env \<Rightarrow> string \<Rightarrow> string \<Rightarrow> task \<Rightarrow> fields" where
  "edit_fields e t ds r = [(Title, t), (Description, ds), (Completed_at, completed_at r),
     (Created_at, created_at r), (Updated_at, now e)]"

definition update_task :: "env \<Rightarrow> hreq \<Rightarrow> db \<Rightarrow> response \<times> db" where
  "update_task e rq d = (case parse_id_params (req_params rq) of
      None \<Rightarrow> (resp 404 (Text ''Invalid id.''), d)
    | Some i \<Rightarrow> (case parse_task_body (req_body rq) of
        None \<Rightarrow> (resp 400 (Text ''Bad Request.''), d)
      | Some (t, ds) \<Rightarrow> (case selectFirstOrDefault d ''tasks'' [(Id, i)] of
          None \<Rightarrow> (resp 404 (Text ''Task not found. Invalid id.''), d)
        | Some r \<Rightarrow> (resp 204 Empty, update ''tasks'' i (edit_fields e t ds r) d))))"

definition delete_task :: "hreq \<Rightarrow> db \<Rightarrow> response \<times> db" where
  "delete_task rq d = (case parse_id_params (req_params rq) of
      None \<Rightarrow> (resp 404 (Text ''Invalid id.''), d)
    | Some i \<Rightarrow> (case selectFirstOrDefault d ''tasks'' [(Id, i)] of
        None \<Rightarrow> (resp 404 (Text ''task not found! Invalid id''), d)
      | Some _ \<Rightarrow> (resp 204 Empty, delete ''tasks'' i d)))"

text \<open>PATCH \<open>/tasks/:id/complete\<close>: a malformed id is answered with 400 here, 404 elsewhere.\<close>

definition complete_fields :: "env \<Rightarrow> task \<Rightarrow> fields" where
  "complete_fields e r = [(Title, title r), (Description, description r), (Completed_at, now e),
     (Created_at, created_at r), (Updated_at, now e)]"

definition complete_task :: "env \<Rightarrow> hreq \<Rightarrow> db \<Rightarrow> response \<times> db" where
  "complete_task e rq d = (case parse_id_params (req_params rq) of
      None \<Rightarrow> (resp 400 (Text ''Invalid id.''), d)
    | Some i \<Rightarrow> (case selectFirstOrDefault d ''tasks'' [(Id, i)] of
        None \<Rightarrow> (resp 404 (Text ''task not found! Invalid id''), d)
      | Some r \<Rightarrow> (resp 204 Empty, update ''tasks'' i (complete_fields e r) d)))"

section \<open>The route table\<close>

datatype route_handler = List_tasks | Create_task | Update_task | Delete_task | Complete_task

fun run_handler :: "route_handler \<Rightarrow> env \<Rightarrow> hreq \<Rightarrow> db \<Rightarrow> response \<times> db" where
  "run_handler List_tasks e rq d = list_tasks rq d"
| "run_handler Create_task e rq d = create_task e rq d"
| "run_handler Update_task e rq d = update_task e rq d"
| "run_handler Delete_task e rq d = delete_task rq d"
| "run_handler Complete_task e rq d = complete_task e rq d"

record route =
  r_method :: string
  r_path :: "seg list"
  r_handler :: route_handler

text \<open>The exported \<open>routes\<close> array, in declaration order, before its paths are compiled.\<close>

definition route_defs :: "(string \<times> string \<times> route_handler) list" where
  "route_defs = [(''GET'', ''/tasks'', List_tasks), (''POST'', ''/tasks'', Create_task),
     (''PUT'', ''/tasks/:id'', Update_task), (''DELETE'', ''/tasks/:id'', Delete_task),
     (''PATCH'', ''/tasks/:id/complete'', Complete_task)]"

text \<open>Module loading: every \<open>buildRoutePath\<close> call must succeed, or the server does not start.\<close>

fun compile_routes :: "(string \<times> string \<times> route_handler) list \<Rightarrow> route list option" where
  "compile_routes [] = Some []"
| "compile_routes ((m, p, h) # rs) = (case build_route_path p of
      None \<Rightarrow> None
    | Some segs \<Rightarrow> map_option (\<lambda>rest. \<lparr>r_method = m, r_path = segs, r_handler = h\<rparr> # rest)
                    (compile_routes rs))"

definition routes :: "route list" where
  "routes = (case compile_routes route_defs of Some rs \<Rightarrow> rs | None \<Rightarrow> [])"

section \<open>Lemmas on the handlers\<close>

lemma routes_eq:
  "routes =
    [\<lparr>r_method = ''GET'', r_path = [Lit ''/tasks''], r_handler = List_tasks\<rparr>,
     \<lparr>r_method = ''POST'', r_path = [Lit ''/tasks''], r_handler = Create_task\<rparr>,
     \<lparr>r_method = ''PUT'', r_path = [Lit ''/tasks/'', Param ''id''], r_handler = Update_task\<rparr>,
     \<lparr>r_method = ''DELETE'', r_path = [Lit ''/tasks/'', Param ''id''], r_handler = Delete_task\<rparr>,
     \<lparr>r_method = ''PATCH'', r_path = [Lit ''/tasks/'', Param ''id'', Lit ''/complete''],
       r_handler = Complete_task\<rparr>]"
  by (simp add: routes_def route_defs_def build_route_path_def is_alpha_def)

lemma Id_notin_edit_fields [simp]: "Id \<notin> fst ` set (edit_fields e t ds r)"
  by (simp add: edit_fields_def)

lemma Id_notin_complete_fields [simp]: "Id \<notin> fst ` set (complete_fields e r)"
  by (simp add: complete_fields_def)

lemma merge_edit_fields [simp]:
  "merge_fields (edit_fields e t ds r) r = r\<lparr>title := t, description := ds, updated_at := now e\<rparr>"
  by (simp add: merge_fields_def edit_fields_def)

lemma merge_complete_fields [simp]:
  "merge_fields (complete_fields e r) r = r\<lparr>completed_at := now e, updated_at := now e\<rparr>"
  by (simp add: merge_fields_def complete_fields_def)

text \<open>The store effect of each handler: none, or exactly one datastore mutation.\<close>

lemma create_task_effect:
  "snd (create_task e rq d) = d \<or> (\<exists>t ds. snd (create_task e rq d) = insert_db ''tasks'' (new_task e t ds) d)"
  by (auto simp: create_task_def split: option.split)

lemma update_task_effect:
  "snd (update_task e rq d) = d \<or>
   (\<exists>i r t ds. task_map (table_rows d ''tasks'') i = Some r \<and>
      snd (update_task e rq d) = update ''tasks'' i (edit_fields e t ds r) d)"
  by (auto simp: update_task_def selectFirstOrDefault_id split: option.split)

lemma complete_task_effect:
  "snd (complete_task e rq d) = d \<or>
   (\<exists>i r. task_map (table_rows d ''tasks'') i = Some r \<and>
      snd (complete_task e rq d) = update ''tasks'' i (complete_fields e r) d)"
  by (auto simp: complete_task_def selectFirstOrDefault_id split: option.split)

lemma delete_task_effect:
  "snd (delete_task rq d) = d \<or>
   (\<exists>i. task_map (table_rows d ''tasks'') i \<noteq> None \<and> snd (delete_task rq d) = delete ''tasks'' i d)"
  by (auto simp: delete_task_def selectFirstOrDefault_id split: option.split)

section \<open>Properties of the handlers\<close>

text \<open>
  C1 (functional): a create request whose body has string members \<open>title\<close> and
  \<open>description\<close> is answered 201, and the \<open>tasks\<close> table afterwards is the old one
  with one task appended: the fresh id, the body's title and description, an empty
  \<open>completed_at\<close>, and \<open>created_at = updated_at\<close> = the request's clock
  reading; the backing file holds the new state.
\<close>

theorem create_task_ok:
  assumes "parse_task_body (req_body rq) = Some (t, ds)"
  shows "status (fst (create_task e rq d)) = 201 \<and>
    table_rows (snd (create_task e rq d)) ''tasks'' = table_rows d ''tasks'' @
      [\<lparr>task_id = fresh_id e, title = t, description = ds, completed_at = [],
        created_at = now e, updated_at = now e\<rparr>] \<and>
    consistent (snd (create_task e rq d))"
  using assms by (simp add: create_task_def resp_def insert_db_def new_task_def)

theorem create_task_ok_witness:
  "status (fst (create_task \<lparr>now = ''2024-01-01T00:00:00.000Z'', fresh_id = ''123e4567-e89b-42d3-a456-426614174000''\<rparr>
      \<lparr>req_params = [], req_query = [], req_body = JObj [(''title'', JStr ''A''), (''description'', JStr ''B'')]\<rparr>
      (load None))) = 201 \<and>
   table_rows (snd (create_task \<lparr>now = ''2024-01-01T00:00:00.000Z'', fresh_id = ''123e4567-e89b-42d3-a456-426614174000''\<rparr>
      \<lparr>req_params = [], req_query = [], req_body = JObj [(''title'', JStr ''A''), (''description'', JStr ''B'')]\<rparr>
      (load None))) ''tasks'' =
     [\<lparr>task_id = ''123e4567-e89b-42d3-a456-426614174000'', title = ''A'', description = ''B'',
       completed_at = [], created_at = ''2024-01-01T00:00:00.000Z'', updated_at = ''2024-01-01T00:00:00.000Z''\<rparr>]"
  using create_task_ok [of "\<lparr>req_params = [], req_query = [],
      req_body = JObj [(''title'', JStr ''A''), (''description'', JStr ''B'')]\<rparr>" "''A''" "''B''"
    "\<lparr>now = ''2024-01-01T00:00:00.000Z'', fresh_id = ''123e4567-e89b-42d3-a456-426614174000''\<rparr>" "load None"]
  by (simp add: parse_task_body_def json_get_def load_def persist_def table_rows_def)

text \<open>
  C2 (functional): an edit of an existing task with a valid id and body is answered
  204 and changes only that task: its title and description become the body's, its
  \<open>updated_at\<close> the request's time, and its id, \<open>completed_at\<close> and
  \<open>created_at\<close> are carried over.
\<close>

theorem update_task_ok:
  assumes "parse_id_params (req_params rq) = Some i" and "parse_task_body (req_body rq) = Some (t, ds)"
    and "task_map (table_rows d ''tasks'') i = Some r"
  shows "status (fst (update_task e rq d)) = 204 \<and>
    task_map (table_rows (snd (update_task e rq d)) ''tasks'') =
      (task_map (table_rows d ''tasks''))(i \<mapsto> r\<lparr>title := t, description := ds, updated_at := now e\<rparr>)"
  using assms
  by (simp add: update_task_def resp_def selectFirstOrDefault_id update_refines)

theorem update_task_ok_witness:
  "status (fst (update_task \<lparr>now = ''2024-01-02T00:00:00.000Z'', fresh_id = ''u''\<rparr> \<lparr>req_params = [(''id'', ''123e4567-e89b-42d3-a456-426614174000'')], req_query = [], req_body = JObj [(''title'', JStr ''C''), (''description'', JStr ''D'')]\<rparr> \<lparr>tables = [''tasks'' \<mapsto> [\<lparr>task_id = ''123e4567-e89b-42d3-a456-426614174000'', title = ''A'', description = ''B'', completed_at = [], created_at = ''2024-01-01T00:00:00.000Z'', updated_at = ''2024-01-01T00:00:00.000Z''\<rparr>]], persisted = [''tasks'' \<mapsto> [\<lparr>task_id = ''123e4567-e89b-42d3-a456-426614174000'', title = ''A'', description = ''B'', completed_at = [], created_at = ''2024-01-01T00:00:00.000Z'', updated_at = ''2024-01-01T00:00:00.000Z''\<rparr>]]\<rparr>)) = 204 \<and>
   task_map (table_rows (snd (update_task \<lparr>now = ''2024-01-02T00:00:00.000Z'', fresh_id = ''u''\<rparr> \<lparr>req_params = [(''id'', ''123e4567-e89b-42d3-a456-426614174000'')], req_query = [], req_body = JObj [(''title'', JStr ''C''), (''description'', JStr ''D'')]\<rparr> \<lparr>tables = [''tasks'' \<mapsto> [\<lparr>task_id = ''123e4567-e89b-42d3-a456-426614174000'', title = ''A'', description = ''B'', completed_at = [], created_at = ''2024-01-01T00:00:00.000Z'', updated_at = ''2024-01-01T00:00:00.000Z''\<rparr>]], persisted = [''tasks'' \<mapsto> [\<lparr>task_id = ''123e4567-e89b-42d3-a456-426614174000'', title = ''A'', description = ''B'', completed_at = [], created_at = ''2024-01-01T00:00:00.000Z'', updated_at = ''2024-01-01T00:00:00.000Z''\<rparr>]]\<rparr>)) ''tasks'') =
     (task_map (table_rows \<lparr>tables = [''tasks'' \<mapsto> [\<lparr>task_id = ''123e4567-e89b-42d3-a456-426614174000'', title = ''A'', description = ''B'', completed_at = [], created_at = ''2024-01-01T00:00:00.000Z'', updated_at = ''2024-01-01T00:00:00.000Z''\<rparr>]], persisted = [''tasks'' \<mapsto> [\<lparr>task_id = ''123e4567-e89b-42d3-a456-426614174000'', title = ''A'', description = ''B'', completed_at = [], created_at = ''2024-01-01T00:00:00.000Z'', updated_at = ''2024-01-01T00:00:00.000Z''\<rparr>]]\<rparr> ''tasks''))(''123e4567-e89b-42d3-a456-426614174000'' \<mapsto>
       \<lparr>task_id = ''123e4567-e89b-42d3-a456-426614174000'', title = ''A'', description = ''B'', completed_at = [], created_at = ''2024-01-01T00:00:00.000Z'', updated_at = ''2024-01-01T00:00:00.000Z''\<rparr>\<lparr>title := ''C'', description := ''D'', updated_at := now \<lparr>now = ''2024-01-02T00:00:00.000Z'', fresh_id = ''u''\<rparr>\<rparr>)"
proof -
  have h1: "parse_id_params (req_params \<lparr>req_params = [(''id'', ''123e4567-e89b-42d3-a456-426614174000'')], req_query = [], req_body = JObj [(''title'', JStr ''C''), (''description'', JStr ''D'')]\<rparr>) = Some ''123e4567-e89b-42d3-a456-426614174000''"
    by (simp add: parse_id_params_def is_uuid_def is_hex_def)
  have h2: "parse_task_body (req_body \<lparr>req_params = [(''id'', ''123e4567-e89b-42d3-a456-426614174000'')], req_query = [], req_body = JObj [(''title'', JStr ''C''), (''description'', JStr ''D'')]\<rparr>) = Some (''C'', ''D'')"
    by (simp add: parse_task_body_def json_get_def)
  have h3: "task_map (table_rows \<lparr>tables = [''tasks'' \<mapsto> [\<lparr>task_id = ''123e4567-e89b-42d3-a456-426614174000'', title = ''A'', description = ''B'', completed_at = [], created_at = ''2024-01-01T00:00:00.000Z'', updated_at = ''2024-01-01T00:00:00.000Z''\<rparr>]], persisted = [''tasks'' \<mapsto> [\<lparr>task_id = ''123e4567-e89b-42d3-a456-426614174000'', title = ''A'', description = ''B'', completed_at = [], created_at = ''2024-01-01T00:00:00.000Z'', updated_at = ''2024-01-01T00:00:00.000Z''\<rparr>]]\<rparr> ''tasks'') ''123e4567-e89b-42d3-a456-426614174000'' = Some \<lparr>task_id = ''123e4567-e89b-42d3-a456-426614174000'', title = ''A'', description = ''B'', completed_at = [], created_at = ''2024-01-01T00:00:00.000Z'', updated_at = ''2024-01-01T00:00:00.000Z''\<rparr>"
    by (simp add: table_rows_def)
  show ?thesis by (rule update_task_ok [OF h1 h2 h3])
qed

text \<open>
  C3 (functional): completing an existing task is answered 204 and sets its
  \<open>completed_at\<close> and \<open>updated_at\<close> to the request's time, keeping its id,
  title, description and \<open>created_at\<close>; no other task changes.
\<close>

theorem complete_task_ok:
  assumes "parse_id_params (req_params rq) = Some i" and "task_map (table_rows d ''tasks'') i = Some r"
  shows "status (fst (complete_task e rq d)) = 204 \<and>
    task_map (table_rows (snd (complete_task e rq d)) ''tasks'') =
      (task_map (table_rows d ''tasks''))(i \<mapsto> r\<lparr>completed_at := now e, updated_at := now e\<rparr>)"
  using assms
  by (simp add: complete_task_def resp_def selectFirstOrDefault_id update_refines)

theorem complete_task_ok_witness:
  "status (fst (complete_task \<lparr>now = ''2024-01-02T00:00:00.000Z'', fresh_id = ''u''\<rparr> \<lparr>req_params = [(''id'', ''123e4567-e89b-42d3-a456-426614174000'')], req_query = [], req_body = JObj [(''title'', JStr ''C''), (''description'', JStr ''D'')]\<rparr> \<lparr>tables = [''tasks'' \<mapsto> [\<lparr>task_id = ''123e4567-e89b-42d3-a456-426614174000'', title = ''A'', description = ''B'', completed_at = [], created_at = ''2024-01-01T00:00:00.000Z'', updated_at = ''2024-01-01T00:00:00.000Z''\<rparr>]], persisted = [''tasks'' \<mapsto> [\<lparr>task_id = ''123e4567-e89b-42d3-a456-426614174000'', title = ''A'', description = ''B'', completed_at = [], created_at = ''2024-01-01T00:00:00.000Z'', updated_at = ''2024-01-01T00:00:00.000Z''\<rparr>]]\<rparr>)) = 204 \<and>
   task_map (table_rows (snd (complete_task \<lparr>now = ''2024-01-02T00:00:00.000Z'', fresh_id = ''u''\<rparr> \<lparr>req_params = [(''id'', ''123e4567-e89b-42d3-a456-426614174000'')], req_query = [], req_body = JObj [(''title'', JStr ''C''), (''description'', JStr ''D'')]\<rparr> \<lparr>tables = [''tasks'' \<mapsto> [\<lparr>task_id = ''123e4567-e89b-42d3-a456-426614174000'', title = ''A'', description = ''B'', completed_at = [], created_at = ''2024-01-01T00:00:00.000Z'', updated_at = ''2024-01-01T00:00:00.000Z''\<rparr>]], persisted = [''tasks'' \<mapsto> [\<lparr>task_id = ''123e4567-e89b-42d3-a456-426614174000'', title = ''A'', description = ''B'', completed_at = [], created_at = ''2024-01-01T00:00:00.000Z'', updated_at = ''2024-01-01T00:00:00.000Z''\<rparr>]]\<rparr>)) ''tasks'') =
     (task_map (table_rows \<lparr>tables = [''tasks'' \<mapsto> [\<lparr>task_id = ''123e4567-e89b-42d3-a456-426614174000'', title = ''A'', description = ''B'', completed_at = [], created_at = ''2024-01-01T00:00:00.000Z'', updated_at = ''2024-01-01T00:00:00.000Z''\<rparr>]], persisted = [''tasks'' \<mapsto> [\<lparr>task_id = ''123e4567-e89b-42d3-a456-426614174000'', title = ''A'', description = ''B'', completed_at = [], created_at = ''2024-01-01T00:00:00.000Z'', updated_at = ''2024-01-01T00:00:00.000Z''\<rparr>]]\<rparr> ''tasks''))(''123e4567-e89b-42d3-a456-426614174000'' \<mapsto>
       \<lparr>task_id = ''123e4567-e89b-42d3-a456-426614174000'', title = ''A'', description = ''B'', completed_at = [], created_at = ''2024-01-01T00:00:00.000Z'', updated_at = ''2024-01-01T00:00:00.000Z''\<rparr>\<lparr>completed_at := now \<lparr>now = ''2024-01-02T00:00:00.000Z'', fresh_id = ''u''\<rparr>, updated_at := now \<lparr>now = ''2024-01-02T00:00:00.000Z'', fresh_id = ''u''\<rparr>\<rparr>)"
proof -
  have h1: "parse_id_params (req_params \<lparr>req_params = [(''id'', ''123e4567-e89b-42d3-a456-426614174000'')], req_query = [], req_body = JObj [(''title'', JStr ''C''), (''description'', JStr ''D'')]\<rparr>) = Some ''123e4567-e89b-42d3-a456-426614174000''"
    by (simp add: parse_id_params_def is_uuid_def is_hex_def)
  have h2: "task_map (table_rows \<lparr>tables = [''tasks'' \<mapsto> [\<lparr>task_id = ''123e4567-e89b-42d3-a456-426614174000'', title = ''A'', description = ''B'', completed_at = [], created_at = ''2024-01-01T00:00:00.000Z'', updated_at = ''2024-01-01T00:00:00.000Z''\<rparr>]], persisted = [''tasks'' \<mapsto> [\<lparr>task_id = ''123e4567-e89b-42d3-a456-426614174000'', title = ''A'', description = ''B'', completed_at = [], created_at = ''2024-01-01T00:00:00.000Z'', updated_at = ''2024-01-01T00:00:00.000Z''\<rparr>]]\<rparr> ''tasks'') ''123e4567-e89b-42d3-a456-426614174000'' = Some \<lparr>task_id = ''123e4567-e89b-42d3-a456-426614174000'', title = ''A'', description = ''B'', completed_at = [], created_at = ''2024-01-01T00:00:00.000Z'', updated_at = ''2024-01-01T00:00:00.000Z''\<rparr>"
    by (simp add: table_rows_def)
  show ?thesis by (rule complete_task_ok [OF h1 h2])
qed

text \<open>
  C5 (error): with unique ids, deleting an existing task is answered 204, and
  deleting it again is answered 404 and leaves the store as it was.
\<close>

theorem delete_task_twice:
  assumes "parse_id_params (req_params rq) = Some i" and "task_map (table_rows d ''tasks'') i \<noteq> None"
    and "ids_distinct (table_rows d ''tasks'')"
  shows "status (fst (delete_task rq d)) = 204 \<and>
    delete_task rq (snd (delete_task rq d)) =
      (resp 404 (Text ''task not found! Invalid id''), snd (delete_task rq d))"
proof -
  have "task_map (table_rows (snd (delete_task rq d)) ''tasks'') i = None"
    using assms by (auto simp: delete_task_def selectFirstOrDefault_id delete_refines)
  then show ?thesis
    using assms by (auto simp: delete_task_def resp_def selectFirstOrDefault_id)
qed

theorem delete_task_twice_witness:
  "status (fst (delete_task \<lparr>req_params = [(''id'', ''123e4567-e89b-42d3-a456-426614174000'')], req_query = [], req_body = JObj [(''title'', JStr ''C''), (''description'', JStr ''D'')]\<rparr> \<lparr>tables = [''tasks'' \<mapsto> [\<lparr>task_id = ''123e4567-e89b-42d3-a456-426614174000'', title = ''A'', description = ''B'', completed_at = [], created_at = ''2024-01-01T00:00:00.000Z'', updated_at = ''2024-01-01T00:00:00.000Z''\<rparr>]], persisted = [''tasks'' \<mapsto> [\<lparr>task_id = ''123e4567-e89b-42d3-a456-426614174000'', title = ''A'', description = ''B'', completed_at = [], created_at = ''2024-01-01T00:00:00.000Z'', updated_at = ''2024-01-01T00:00:00.000Z''\<rparr>]]\<rparr>)) = 204 \<and>
   delete_task \<lparr>req_params = [(''id'', ''123e4567-e89b-42d3-a456-426614174000'')], req_query = [], req_body = JObj [(''title'', JStr ''C''), (''description'', JStr ''D'')]\<rparr> (snd (delete_task \<lparr>req_params = [(''id'', ''123e4567-e89b-42d3-a456-426614174000'')], req_query = [], req_body = JObj [(''title'', JStr ''C''), (''description'', JStr ''D'')]\<rparr> \<lparr>tables = [''tasks'' \<mapsto> [\<lparr>task_id = ''123e4567-e89b-42d3-a456-426614174000'', title = ''A'', description = ''B'', completed_at = [], created_at = ''2024-01-01T00:00:00.000Z'', updated_at = ''2024-01-01T00:00:00.000Z''\<rparr>]], persisted = [''tasks'' \<mapsto> [\<lparr>task_id = ''123e4567-e89b-42d3-a456-426614174000'', title = ''A'', description = ''B'', completed_at = [], created_at = ''2024-01-01T00:00:00.000Z'', updated_at = ''2024-01-01T00:00:00.000Z''\<rparr>]]\<rparr>)) =
     (resp 404 (Text ''task not found! Invalid id''), snd (delete_task \<lparr>req_params = [(''id'', ''123e4567-e89b-42d3-a456-426614174000'')], req_query = [], req_body = JObj [(''title'', JStr ''C''), (''description'', JStr ''D'')]\<rparr> \<lparr>tables = [''tasks'' \<mapsto> [\<lparr>task_id = ''123e4567-e89b-42d3-a456-426614174000'', title = ''A'', description = ''B'', completed_at = [], created_at = ''2024-01-01T00:00:00.000Z'', updated_at = ''2024-01-01T00:00:00.000Z''\<rparr>]], persisted = [''tasks'' \<mapsto> [\<lparr>task_id = ''123e4567-e89b-42d3-a456-426614174000'', title = ''A'', description = ''B'', completed_at = [], created_at = ''2024-01-01T00:00:00.000Z'', updated_at = ''2024-01-01T00:00:00.000Z''\<rparr>]]\<rparr>))"
proof -
  have h1: "parse_id_params (req_params \<lparr>req_params = [(''id'', ''123e4567-e89b-42d3-a456-426614174000'')], req_query = [], req_body = JObj [(''title'', JStr ''C''), (''description'', JStr ''D'')]\<rparr>) = Some ''123e4567-e89b-42d3-a456-426614174000''"
    by (simp add: parse_id_params_def is_uuid_def is_hex_def)
  have h2: "task_map (table_rows \<lparr>tables = [''tasks'' \<mapsto> [\<lparr>task_id = ''123e4567-e89b-42d3-a456-426614174000'', title = ''A'', description = ''B'', completed_at = [], created_at = ''2024-01-01T00:00:00.000Z'', updated_at = ''2024-01-01T00:00:00.000Z''\<rparr>]], persisted = [''tasks'' \<mapsto> [\<lparr>task_id = ''123e4567-e89b-42d3-a456-426614174000'', title = ''A'', description = ''B'', completed_at = [], created_at = ''2024-01-01T00:00:00.000Z'', updated_at = ''2024-01-01T00:00:00.000Z''\<rparr>]]\<rparr> ''tasks'') ''123e4567-e89b-42d3-a456-426614174000'' \<noteq> None"
    by (simp add: table_rows_def)
  have h3: "ids_distinct (table_rows \<lparr>tables = [''tasks'' \<mapsto> [\<lparr>task_id = ''123e4567-e89b-42d3-a456-426614174000'', title = ''A'', description = ''B'', completed_at = [], created_at = ''2024-01-01T00:00:00.000Z'', updated_at = ''2024-01-01T00:00:00.000Z''\<rparr>]], persisted = [''tasks'' \<mapsto> [\<lparr>task_id = ''123e4567-e89b-42d3-a456-426614174000'', title = ''A'', description = ''B'', completed_at = [], created_at = ''2024-01-01T00:00:00.000Z'', updated_at = ''2024-01-01T00:00:00.000Z''\<rparr>]]\<rparr> ''tasks'')"
    by (simp add: table_rows_def ids_distinct_def)
  show ?thesis by (rule delete_task_twice [OF h1 h2 h3])
qed

text \<open>
  C8 (error): a path id that is not a UUID is answered 404 by the edit and delete
  handlers but 400 by the complete handler, and none of them touches the store.
\<close>

theorem malformed_id_responses:
  assumes "parse_id_params (req_params rq) = None"
  shows "update_task e rq d = (resp 404 (Text ''Invalid id.''), d) \<and>
         delete_task rq d = (resp 404 (Text ''Invalid id.''), d) \<and>
         complete_task e rq d = (resp 400 (Text ''Invalid id.''), d)"
  using assms by (simp add: update_task_def delete_task_def complete_task_def)

theorem malformed_id_responses_witness:
  "update_task \<lparr>now = ''t'', fresh_id = ''u''\<rparr> \<lparr>req_params = [(''id'', ''bad'')], req_query = [], req_body = JNull\<rparr> (load None)
     = (resp 404 (Text ''Invalid id.''), load None) \<and>
   delete_task \<lparr>req_params = [(''id'', ''bad'')], req_query = [], req_body = JNull\<rparr> (load None)
     = (resp 404 (Text ''Invalid id.''), load None) \<and>
   complete_task \<lparr>now = ''t'', fresh_id = ''u''\<rparr> \<lparr>req_params = [(''id'', ''bad'')], req_query = [], req_body = JNull\<rparr> (load None)
     = (resp 400 (Text ''Invalid id.''), load None)"
  using malformed_id_responses [of "\<lparr>req_params = [(''id'', ''bad'')], req_query = [], req_body = JNull\<rparr>"
    "\<lparr>now = ''t'', fresh_id = ''u''\<rparr>" "load None"]
  by (simp add: parse_id_params_def is_uuid_def)

text \<open>
  C9 (error): a well-formed id that names no task is answered 404 by all three
  handlers, each with its own message, and the store is unchanged; the edit handler
  validates the body first, so an invalid body is answered 400 even then.
\<close>

theorem absent_task_responses:
  assumes "parse_id_params (req_params rq) = Some i" and "task_map (table_rows d ''tasks'') i = None"
  shows "update_task e rq d =
           (if parse_task_body (req_body rq) = None then (resp 400 (Text ''Bad Request.''), d)
            else (resp 404 (Text ''Task not found. Invalid id.''), d)) \<and>
         delete_task rq d = (resp 404 (Text ''task not found! Invalid id''), d) \<and>
         complete_task e rq d = (resp 404 (Text ''task not found! Invalid id''), d)"
  using assms
  by (auto simp: update_task_def delete_task_def complete_task_def selectFirstOrDefault_id split: option.split)

theorem absent_task_responses_witness:
  "update_task \<lparr>now = ''t'', fresh_id = ''u''\<rparr>
     \<lparr>req_params = [(''id'', ''123e4567-e89b-42d3-a456-426614174000'')], req_query = [], req_body = JNull\<rparr> (load None)
     = (resp 400 (Text ''Bad Request.''), load None) \<and>
   delete_task \<lparr>req_params = [(''id'', ''123e4567-e89b-42d3-a456-426614174000'')], req_query = [], req_body = JNull\<rparr> (load None)
     = (resp 404 (Text ''task not found! Invalid id''), load None) \<and>
   complete_task \<lparr>now = ''t'', fresh_id = ''u''\<rparr>
     \<lparr>req_params = [(''id'', ''123e4567-e89b-42d3-a456-426614174000'')], req_query = [], req_body = JNull\<rparr> (load None)
     = (resp 404 (Text ''task not found! Invalid id''), load None)"
proof -
  have h1: "parse_id_params (req_params \<lparr>req_params = [(''id'', ''123e4567-e89b-42d3-a456-426614174000'')],
      req_query = [], req_body = JNull\<rparr>) = Some ''123e4567-e89b-42d3-a456-426614174000''"
    by (simp add: parse_id_params_def is_uuid_def is_hex_def)
  have h2: "task_map (table_rows (load None) ''tasks'') ''123e4567-e89b-42d3-a456-426614174000'' = None"
    by (simp add: load_def persist_def table_rows_def)
  show ?thesis using absent_task_responses [OF h1 h2] by (simp add: parse_task_body_def)
qed

text \<open>
  C16 (functional): because \<open>select\<close> requires every filter entry to match and
  the list handler puts the search term on all five fields, a non-empty search never
  lists a task whose \<open>completed_at\<close> is empty, whatever its title says.
\<close>

theorem list_search_hides_open_tasks:
  assumes "query_get ''search'' (req_query rq) = Some s" and "s \<noteq> []" and "completed_at r = []"
  shows "r \<notin> set (select d ''tasks'' (search_filter (req_query rq)))"
  using assms by (simp add: search_filter_def select_def matches_substr_def)

theorem list_search_hides_open_tasks_witness:
  "\<lparr>task_id = ''123e4567-e89b-42d3-a456-426614174000'', title = ''A'', description = ''B'', completed_at = [], created_at = ''2024-01-01T00:00:00.000Z'', updated_at = ''2024-01-01T00:00:00.000Z''\<rparr> \<notin> set (select \<lparr>tables = [''tasks'' \<mapsto> [\<lparr>task_id = ''123e4567-e89b-42d3-a456-426614174000'', title = ''A'', description = ''B'', completed_at = [], created_at = ''2024-01-01T00:00:00.000Z'', updated_at = ''2024-01-01T00:00:00.000Z''\<rparr>]], persisted = [''tasks'' \<mapsto> [\<lparr>task_id = ''123e4567-e89b-42d3-a456-426614174000'', title = ''A'', description = ''B'', completed_at = [], created_at = ''2024-01-01T00:00:00.000Z'', updated_at = ''2024-01-01T00:00:00.000Z''\<rparr>]]\<rparr> ''tasks'' (search_filter (req_query \<lparr>req_params = [], req_query = [(''search'', Some ''A'')], req_body = JNull\<rparr>)))"
proof -
  have h1: "query_get ''search'' (req_query \<lparr>req_params = [], req_query = [(''search'', Some ''A'')], req_body = JNull\<rparr>) = Some ''A''"
    by (simp add: query_get_def)
  have h2: "''A'' \<noteq> []" by simp
  have h3: "completed_at \<lparr>task_id = ''123e4567-e89b-42d3-a456-426614174000'', title = ''A'', description = ''B'', completed_at = [], created_at = ''2024-01-01T00:00:00.000Z'', updated_at = ''2024-01-01T00:00:00.000Z''\<rparr> = []" by simp
  show ?thesis by (rule list_search_hides_open_tasks [OF h1 h2 h3])
qed

end
