(* ===== verification/Server.thy ===== *)
theory Server
  imports Routes
begin

text \<open>
  The HTTP server of \<open>src/server.js\<close>: the request callback (lines 52--77) and the
  CSV import stream \<open>CSVTransform\<close> (lines 8--50). \<open>dispatch\<close> is one call of
  the callback: the import path is recognised first, before any route; otherwise
  the first route (in declaration order) whose method equals the request's and
  whose path regex accepts the URL runs, with the parameters and query the regex
  binds; no route gives 404. The request stream is read either as CSV chunks
  (import) or, through the \<open>json\<close> middleware, as one parsed JSON value.
  The CSV transform turns each chunk on its own into rows
  \<open>(title, description)\<close>; each row is then posted to \<open>/tasks\<close> on the same
  server (\<open>csv_request\<close>), without waiting, which \<open>System\<close> models as pending
  submissions.
\<close>

section \<open>Requests\<close>

text \<open>
  A request: its method, its URL and the chunks of its body as they arrive. The
  import path reads the chunks through \<open>CSVTransform\<close>; every other request reads
  them through the \<open>json\<close> middleware (\<open>json_middleware\<close>).
\<close>

record request =
  http_method :: string
  url :: string
  chunks :: "string list"

section \<open>The CSV transform\<close>

text \<open>
  One line of a chunk (the callback of \<open>linesParse.forEach\<close>, lines 13--27): a line
  equal to the chunk's first line is skipped, and so is every copy of it; so are
  blank lines and lines that do not split into exactly two fields at commas. The
  two fields are trimmed.
\<close>

definition csv_row :: "string \<Rightarrow> string \<Rightarrow> (string \<times> string) option" where
  "csv_row first row =
     (if row = first then None
      else if js_trim row = [] then None
      else (let data = js_split CHR '','' row in
            if length data \<noteq> 2 then None else Some (js_trim (data ! 0), js_trim (data ! 1))))"

text \<open>\<open>_transform(chunk)\<close>: the chunk is split at line feeds on its own.\<close>

definition csv_chunk_rows :: "string \<Rightarrow> (string \<times> string) list" where
  "csv_chunk_rows chunk =
     (let lines = js_split CHR 0x0A chunk in List.map_filter (csv_row (hd lines)) lines)"

text \<open>The rows of a whole import, chunk after chunk.\<close>

definition csv_import :: "string list \<Rightarrow> (string \<times> string) list" where
  "csv_import cs = concat (map csv_chunk_rows cs)"

text \<open>
  The record of a row, \<open>JSON.stringify({title, description})\<close> (lines 24--27), and
  the \<open>fetch\<close> that posts it to \<open>/tasks\<close> as the body (lines 30--34).
\<close>

definition csv_payload :: "string \<times> string \<Rightarrow> json" where
  "csv_payload p = JObj [(''title'', JStr (fst p)), (''description'', JStr (snd p))]"

definition csv_record :: "string \<times> string \<Rightarrow> string" where
  "csv_record p = js_stringify (csv_payload p)"

definition csv_request :: "string \<times> string \<Rightarrow> request" where
  "csv_request p = \<lparr>http_method = ''POST'', url = ''/tasks'', chunks = [csv_record p]\<rparr>"

section \<open>Dispatch\<close>

text \<open>
  The result of one callback: a response, the start of an import (its rows), or
  the \<open>TypeError\<close> of destructuring \<open>null.groups\<close> had \<open>match\<close> failed after
  \<open>test\<close> succeeded.
\<close>

datatype server_result = Reply response | Import "(string \<times> string) list" | Crash

text \<open>\<open>req.query = query ? extractQueryParams(query) : {}\<close>.\<close>

definition query_object :: "string option \<Rightarrow> (string \<times> string option) list" where
  "query_object q = (case q of Some qs \<Rightarrow> if qs \<noteq> [] then extract_query_params qs else [] | None \<Rightarrow> [])"

definition dispatch :: "env \<Rightarrow> request \<Rightarrow> db \<Rightarrow> server_result \<times> db" where
  "dispatch e rq d =
     (if http_method rq = ''POST'' \<and> url rq = ''/tasks/import-csv''
      then (Import (csv_import (chunks rq)), d)
      else (case find (\<lambda>r. r_method r = http_method rq \<and> route_test (r_path r) (url rq)) routes of
          None \<Rightarrow> (Reply (resp 404 Empty), d)
        | Some r \<Rightarrow> (case route_exec (r_path r) (url rq) of
            None \<Rightarrow> (Crash, d)
          | Some (ps, q) \<Rightarrow>
              (let (res, d') = run_handler (r_handler r) e
                   \<lparr>req_params = ps, req_query = query_object q, req_body = json_middleware (chunks rq)\<rparr> d
               in (Reply res, d')))))"

section \<open>Lemmas on the server\<close>

lemma parse_csv_payload [simp]: "parse_task_body (csv_payload p) = Some p"
  by (simp add: parse_task_body_def csv_payload_def json_get_def)

lemma json_middleware_csv_record [simp]: "json_middleware [csv_record p] = csv_payload p"
  unfolding csv_record_def by (rule json_middleware_stringify) (simp add: csv_payload_def)

lemmas dispatch_eval_simps = dispatch_def routes_eq route_test_def route_exec_def query_tail_def
  List.map_filter_def

text \<open>A line with one comma is never blank, so the blank-line test never rejects it.\<close>

lemma csv_row_Some_iff:
  "csv_row first row = Some p \<longleftrightarrow>
   (\<exists>a b. row = a @ CHR '','' # b \<and> CHR '','' \<notin> set a \<and> CHR '','' \<notin> set b \<and> row \<noteq> first \<and>
      p = (js_trim a, js_trim b))"
proof
  assume "csv_row first row = Some p"
  then obtain a b where ab: "js_split CHR '','' row = [a, b]" and "row \<noteq> first" "p = (js_trim a, js_trim b)"
    by (auto simp: csv_row_def Let_def length_Suc_conv numeral_2_eq_2 split: if_splits)
  then show "\<exists>a b. row = a @ CHR '','' # b \<and> CHR '','' \<notin> set a \<and> CHR '','' \<notin> set b \<and> row \<noteq> first \<and>
      p = (js_trim a, js_trim b)"
    by (auto simp: js_split_two)
next
  assume "\<exists>a b. row = a @ CHR '','' # b \<and> CHR '','' \<notin> set a \<and> CHR '','' \<notin> set b \<and> row \<noteq> first \<and>
      p = (js_trim a, js_trim b)"
  then obtain a b where r: "row = a @ CHR '','' # b" "CHR '','' \<notin> set a" "CHR '','' \<notin> set b"
    and "row \<noteq> first" "p = (js_trim a, js_trim b)" by blast
  moreover have "js_split CHR '','' row = [a, b]" using r by (simp add: js_split_two)
  moreover have "js_trim row \<noteq> []" using r(1) by (simp add: js_trim_Nil_iff js_is_space_def)
  ultimately show "csv_row first row = Some p" by (simp add: csv_row_def)
qed

text \<open>Every row the CSV import posts passes validation and creates its task.\<close>

lemma dispatch_csv_request:
  "dispatch e (csv_request p) d =
     (Reply (resp 201 Empty), insert_db ''tasks'' (new_task e (fst p) (snd p)) d)"
  by (simp add: dispatch_def csv_request_def routes_eq route_test_def route_exec_def query_tail_def
      List.map_filter_def create_task_def split: prod.split)

text \<open>\<open>GET /tasks\<close> without a query lists the whole table, in order.\<close>

lemma dispatch_list_all:
  "dispatch e \<lparr>http_method = ''GET'', url = ''/tasks'', chunks = cs\<rparr> d =
     (Reply (resp 200 (Json (JArr (map task_json (table_rows d ''tasks''))))), d)"
  by (simp add: dispatch_eval_simps list_tasks_def search_filter_def query_object_def query_get_def
      select_def)

lemma dispatch_effect:
  "dispatch e rq d = (x, d') \<Longrightarrow> d' = d \<or> (\<exists>h hr. d' = snd (run_handler h e hr d))"
  by (auto simp: dispatch_def split: if_splits option.splits prod.splits) (metis snd_conv)+

lemma dispatch_Import: "dispatch e rq d = (Import rows, d') \<Longrightarrow> d' = d"
  by (auto simp: dispatch_def split: if_splits option.splits prod.splits)

section \<open>Properties of the server\<close>

text \<open>
  C10 (error): a request whose method no route declares is answered 404 with an
  empty body and leaves the store unchanged.
\<close>

theorem method_not_routed:
  assumes "http_method rq \<notin> set (map r_method routes)"
  shows "dispatch e rq d = (Reply (resp 404 Empty), d)"
proof -
  have "find (\<lambda>r. r_method r = http_method rq \<and> route_test (r_path r) (url rq)) routes = None"
    using assms by (force simp: find_None_iff)
  moreover have "http_method rq \<noteq> ''POST''"
    using assms by (simp add: routes_eq)
  ultimately show ?thesis by (simp add: dispatch_def)
qed

theorem method_not_routed_witness:
  "dispatch \<lparr>now = ''t'', fresh_id = ''u''\<rparr>
     \<lparr>http_method = ''HEAD'', url = ''/tasks'', chunks = []\<rparr> (load None) =
   (Reply (resp 404 Empty), load None)"
proof -
  have h: "http_method \<lparr>http_method = ''HEAD'', url = ''/tasks'', chunks = []\<rparr> \<notin> set (map r_method routes)"
    by (simp add: routes_eq)
  show ?thesis by (rule method_not_routed [OF h])
qed

text \<open>
  C13 (functional): the rows a CSV import posts are exactly the trimmed halves of the
  lines, in any chunk, that contain exactly one comma and differ from the first line
  of their chunk. So every copy of a chunk's first line is dropped, not only the
  header, a line with two commas is dropped, and lines are cut at chunk boundaries.
\<close>

theorem csv_import_rows:
  "(t, ds) \<in> set (csv_import cs) \<longleftrightarrow>
   (\<exists>c \<in> set cs. \<exists>a b. a @ CHR '','' # b \<in> set (js_split CHR 0x0A c) \<and>
      a @ CHR '','' # b \<noteq> hd (js_split CHR 0x0A c) \<and> CHR '','' \<notin> set a \<and> CHR '','' \<notin> set b \<and>
      t = js_trim a \<and> ds = js_trim b)"
  by (auto simp: csv_import_def csv_chunk_rows_def in_set_map_filter Let_def csv_row_Some_iff)

text \<open>
  C14 (error): a \<open>POST /tasks\<close> whose body, its chunks joined, is not JSON text, or
  is JSON that the schema rejects, is answered 400 \<open>Bad Request.\<close> and leaves the
  store unchanged.
\<close>

theorem post_body_rejected:
  assumes "http_method rq = ''POST''" and "url rq = ''/tasks''"
    and "json_parse (concat (chunks rq)) = None \<or>
         (\<exists>v. json_parse (concat (chunks rq)) = Some v \<and> parse_task_body v = None)"
  shows "dispatch e rq d = (Reply (resp 400 (Text ''Bad Request.'')), d)"
proof -
  have "parse_task_body (json_middleware (chunks rq)) = None"
    using assms(3) by (auto simp: json_middleware_def parse_task_body_def)
  with assms(1,2) show ?thesis by (simp add: dispatch_eval_simps create_task_def)
qed

theorem post_body_rejected_witness:
  \<open>dispatch \<lparr>now = ''t'', fresh_id = ''u''\<rparr>
     \<lparr>http_method = ''POST'', url = ''/tasks'', chunks = [''{"title":'', ''"A"}'']\<rparr> (load None) =
   (Reply (resp 400 (Text ''Bad Request.'')), load None)\<close>
proof -
  have h: \<open>json_parse ''{"title":"A"}'' = Some (JObj [(''title'', JStr ''A'')])\<close>
    by code_simp
  have h2: \<open>parse_task_body (JObj [(''title'', JStr ''A'')]) = None\<close>
    by (simp add: parse_task_body_def json_get_def)
  show ?thesis by (rule post_body_rejected) (simp_all add: h h2)
qed

text \<open>
  C15 (functional): on every store, \<open>POST /tasks\<close> with the body
  \<open>JSON.stringify({title, description})\<close> is answered 201, and a following
  \<open>GET /tasks\<close> is answered 200 with the old table followed by the new task, and
  changes nothing.
\<close>

theorem post_then_get:
  "fst (dispatch e \<lparr>http_method = ''POST'', url = ''/tasks'', chunks = [csv_record (t, ds)]\<rparr> d) =
     Reply (resp 201 Empty) \<and>
   dispatch e' \<lparr>http_method = ''GET'', url = ''/tasks'', chunks = []\<rparr>
     (snd (dispatch e \<lparr>http_method = ''POST'', url = ''/tasks'', chunks = [csv_record (t, ds)]\<rparr> d)) =
   (Reply (resp 200 (Json (JArr (map task_json (table_rows d ''tasks'' @ [new_task e t ds]))))),
    snd (dispatch e \<lparr>http_method = ''POST'', url = ''/tasks'', chunks = [csv_record (t, ds)]\<rparr> d))"
  using dispatch_csv_request [of e "(t, ds)" d]
  by (simp add: csv_request_def dispatch_list_all insert_db_def)

end
