(* ===== verification/System.thy ===== *)
theory System
  imports Server
begin

text \<open>
  The running server as a state machine. A state holds the store, the last clock
  reading the server has seen, and the CSV rows whose \<open>fetch\<close> has been fired but
  not yet answered (a multiset: \<open>forEach(async ...)\<close> does not await, so they
  reach the server in any order). A step is one request callback, one delivery
  of a pending row (a \<open>POST /tasks\<close> of \<open>csv_request\<close>), the loss of a pending
  row (the \<open>catch\<close> branch), or a restart of the process, which reloads the
  store from the backing file and forgets pending rows. The environment of a
  request is constrained by \<open>env_ok\<close>: the clock does not go back, and
  \<open>randomUUID()\<close> returns a well-formed id that is not yet in use.
\<close>

section \<open>States and steps\<close>

record sys =
  store :: db
  clock :: timestamp
  pending :: "(string \<times> string) multiset"

definition task_ids :: "db \<Rightarrow> uuid list" where
  "task_ids d = map task_id (table_rows d ''tasks'')"

definition env_ok :: "sys \<Rightarrow> env \<Rightarrow> bool" where
  "env_ok s e \<longleftrightarrow> clock s \<le> now e \<and> is_uuid (fresh_id e) \<and> fresh_id e \<notin> set (task_ids (store s))"

definition sys_init :: "timestamp \<Rightarrow> sys" where
  "sys_init c = \<lparr>store = load None, clock = c, pending = {#}\<rparr>"

inductive sys_step :: "sys \<Rightarrow> sys \<Rightarrow> bool" where
  request: "env_ok s e \<Longrightarrow> dispatch e rq (store s) = (Reply res, d') \<Longrightarrow>
    sys_step s (s\<lparr>store := d', clock := now e\<rparr>)"
| import: "dispatch e rq (store s) = (Import rows, d') \<Longrightarrow>
    sys_step s (s\<lparr>store := d', pending := pending s + mset rows\<rparr>)"
| deliver: "p \<in># pending s \<Longrightarrow> env_ok s e \<Longrightarrow> dispatch e (csv_request p) (store s) = (Reply res, d') \<Longrightarrow>
    sys_step s (s\<lparr>store := d', clock := now e, pending := pending s - {#p#}\<rparr>)"
| lost: "p \<in># pending s \<Longrightarrow> sys_step s (s\<lparr>pending := pending s - {#p#}\<rparr>)"
| restart: "sys_step s \<lparr>store = load (Some (persisted (store s))), clock = clock s, pending = {#}\<rparr>"

inductive reachable :: "sys \<Rightarrow> bool" where
  init: "reachable (sys_init c)"
| step: "reachable s \<Longrightarrow> sys_step s t \<Longrightarrow> reachable t"

section \<open>The invariant\<close>

text \<open>
  A stored task is well formed at clock \<open>c\<close>: its id is a UUID, and
  \<open>created_at \<le> updated_at\<close>, \<open>completed_at \<le> updated_at\<close> (the empty string
  is the least) and \<open>updated_at \<le> c\<close>.
\<close>

definition task_ok :: "timestamp \<Rightarrow> task \<Rightarrow> bool" where
  "task_ok c r \<longleftrightarrow> is_uuid (task_id r) \<and> created_at r \<le> updated_at r \<and>
     completed_at r \<le> updated_at r \<and> updated_at r \<le> c"

definition db_inv :: "timestamp \<Rightarrow> db \<Rightarrow> bool" where
  "db_inv c d \<longleftrightarrow> ids_distinct (table_rows d ''tasks'') \<and> list_all (task_ok c) (table_rows d ''tasks'') \<and>
     consistent d \<and> dom (tables d) \<subseteq> {''tasks''}"

definition sys_inv :: "sys \<Rightarrow> bool" where
  "sys_inv s \<longleftrightarrow> db_inv (clock s) (store s)"

section \<open>The abstract task API\<close>

text \<open>
  What the endpoints promise, over the map from ids to tasks, at the clock reading
  \<open>n\<close> of the request: create adds a task under an id not in use, with the given
  title and description, no completion time, and \<open>n\<close> as both timestamps; edit
  sets an existing task's title, description and \<open>updated_at\<close>; complete sets an
  existing task's \<open>completed_at\<close> and \<open>updated_at\<close>; delete removes an existing
  task. An operation whose precondition fails has no result.
\<close>

datatype api_op =
    Api_create uuid string string
  | Api_edit uuid string string
  | Api_complete uuid
  | Api_delete uuid

fun api_apply :: "timestamp \<Rightarrow> api_op \<Rightarrow> (uuid \<rightharpoonup> task) \<Rightarrow> (uuid \<rightharpoonup> task) option" where
  "api_apply n (Api_create i t ds) m = (case m i of
      None \<Rightarrow> Some (m(i \<mapsto> \<lparr>task_id = i, title = t, description = ds, completed_at = [],
                             created_at = n, updated_at = n\<rparr>))
    | Some _ \<Rightarrow> None)"
| "api_apply n (Api_edit i t ds) m = (case m i of
      None \<Rightarrow> None | Some r \<Rightarrow> Some (m(i \<mapsto> r\<lparr>title := t, description := ds, updated_at := n\<rparr>)))"
| "api_apply n (Api_complete i) m = (case m i of
      None \<Rightarrow> None | Some r \<Rightarrow> Some (m(i \<mapsto> r\<lparr>completed_at := n, updated_at := n\<rparr>)))"
| "api_apply n (Api_delete i) m = (case m i of None \<Rightarrow> None | Some _ \<Rightarrow> Some (m(i := None)))"

section \<open>Delivering CSV rows\<close>

text \<open>The rows of an import reaching the server one after another, in some order.\<close>

fun deliver_rows :: "(env \<times> (string \<times> string)) list \<Rightarrow> db \<Rightarrow> db" where
  "deliver_rows [] d = d"
| "deliver_rows ((e, p) # eps) d = deliver_rows eps (snd (dispatch e (csv_request p) d))"

definition title_desc :: "task \<Rightarrow> string \<times> string" where
  "title_desc r = (title r, description r)"

section \<open>An example run\<close>

text \<open>A fresh server that accepts one \<open>POST /tasks\<close>, used by the witnesses below.\<close>

abbreviation example_env :: env where
  "example_env \<equiv> \<lparr>now = ''2024-01-01T00:00:00.000Z'', fresh_id = ''123e4567-e89b-42d3-a456-426614174000''\<rparr>"

abbreviation example_env2 :: env where
  "example_env2 \<equiv> \<lparr>now = ''2024-01-02T00:00:00.000Z'', fresh_id = ''223e4567-e89b-42d3-a456-426614174000''\<rparr>"

abbreviation example_post :: request where
  "example_post \<equiv> \<lparr>http_method = ''POST'', url = ''/tasks'',
     chunks = [csv_record (''A'', ''B'')]\<rparr>"

abbreviation example_state :: sys where
  "example_state \<equiv> (sys_init [])\<lparr>store := snd (dispatch example_env example_post (load None)),
     clock := now example_env\<rparr>"

section \<open>Lemmas on the invariant\<close>

lemma task_ok_mono: "task_ok c r \<Longrightarrow> c \<le> c' \<Longrightarrow> task_ok c' r"
  by (auto simp: task_ok_def)

lemma db_inv_mono: "db_inv c d \<Longrightarrow> c \<le> c' \<Longrightarrow> db_inv c' d"
  by (auto simp: db_inv_def list_all_iff intro: task_ok_mono)

lemma db_inv_insert:
  "db_inv c d \<Longrightarrow> task_id r \<notin> set (map task_id (table_rows d ''tasks'')) \<Longrightarrow> task_ok c r \<Longrightarrow>
   db_inv c (insert_db ''tasks'' r d)"
  by (simp add: db_inv_def insert_db_ids_distinct set_rows_insert_db list_all_iff dom_tables_insert_db)

lemma db_inv_update:
  assumes "db_inv c d" and "task_map (table_rows d ''tasks'') i = Some r" and "Id \<notin> fst ` set p"
    and "task_ok c (merge_fields p r)"
  shows "db_inv c (update ''tasks'' i p d)"
proof -
  have "list_all (task_ok c) (table_rows (update ''tasks'' i p d) ''tasks'')"
    using assms set_rows_update [OF assms(2), of p] by (auto simp: db_inv_def list_all_iff)
  moreover have "dom (tables (update ''tasks'' i p d)) \<subseteq> {''tasks''}"
    using assms(1) dom_tables_update [of "''tasks''" i p d] by (auto simp: db_inv_def)
  ultimately show ?thesis
    using assms by (simp add: db_inv_def update_ids_distinct consistent_update)
qed

lemma db_inv_delete:
  assumes "db_inv c d"
  shows "db_inv c (delete ''tasks'' i d)"
proof -
  have "dom (tables (delete ''tasks'' i d)) \<subseteq> {''tasks''}"
    using assms dom_tables_delete [of "''tasks''" i d] by (auto simp: db_inv_def)
  with assms set_rows_delete [of "''tasks''" i d] show ?thesis
    by (auto simp: db_inv_def delete_ids_distinct list_all_iff)
qed

lemma run_handler_db_inv:
  assumes inv: "db_inv c d" and le: "c \<le> now e" and u: "is_uuid (fresh_id e)"
    and fresh: "fresh_id e \<notin> set (task_ids d)"
  shows "db_inv (now e) (snd (run_handler h e rq d))"
proof -
  have inv': "db_inv (now e) d" using inv le by (rule db_inv_mono)
  have found: "task_ok (now e) r" if "task_map (table_rows d ''tasks'') i = Some r" for i r
    using inv' task_map_in_set [OF that] by (auto simp: db_inv_def list_all_iff)
  have edit: "db_inv (now e) (update ''tasks'' i (edit_fields e t ds r) d)"
    if "task_map (table_rows d ''tasks'') i = Some r" for i r t ds
    using found [OF that] by (intro db_inv_update [OF inv' that]) (auto simp: task_ok_def intro: order_trans)
  have complete: "db_inv (now e) (update ''tasks'' i (complete_fields e r) d)"
    if "task_map (table_rows d ''tasks'') i = Some r" for i r
    using found [OF that] by (intro db_inv_update [OF inv' that]) (auto simp: task_ok_def intro: order_trans)
  have create: "db_inv (now e) (insert_db ''tasks'' (new_task e t ds) d)" for t ds
    using inv' fresh u by (intro db_inv_insert) (auto simp: task_ids_def new_task_def task_ok_def)
  show ?thesis
  proof (cases h)
    case List_tasks
    with inv' show ?thesis by (simp add: list_tasks_def)
  next
    case Create_task
    with inv' create create_task_effect [of e rq d] show ?thesis by auto
  next
    case Update_task
    with inv' edit update_task_effect [of e rq d] show ?thesis by auto
  next
    case Delete_task
    with inv' db_inv_delete delete_task_effect [of rq d] show ?thesis by auto
  next
    case Complete_task
    with inv' complete complete_task_effect [of e rq d] show ?thesis by auto
  qed
qed

lemma db_inv_load_None: "db_inv c (load None)"
  by (simp add: db_inv_def load_def persist_def table_rows_def ids_distinct_def consistent_def)

lemma dispatch_db_inv:
  "db_inv c d \<Longrightarrow> c \<le> now e \<Longrightarrow> is_uuid (fresh_id e) \<Longrightarrow> fresh_id e \<notin> set (task_ids d) \<Longrightarrow>
   dispatch e rq d = (x, d') \<Longrightarrow> db_inv (now e) d'"
  using dispatch_effect [of e rq d x d'] run_handler_db_inv db_inv_mono by blast

lemma sys_step_inv: "sys_step s t \<Longrightarrow> sys_inv s \<Longrightarrow> sys_inv t"
proof (induction rule: sys_step.induct)
  case (request s e rq res d')
  then show ?case by (auto simp: sys_inv_def env_ok_def intro: dispatch_db_inv)
next
  case (import e rq s rows d')
  from import.hyps have "d' = store s" by (rule dispatch_Import)
  with import.prems show ?case by (simp add: sys_inv_def)
next
  case (deliver p s e res d')
  then show ?case by (auto simp: sys_inv_def env_ok_def intro: dispatch_db_inv)
next
  case (lost p s)
  then show ?case by (simp add: sys_inv_def)
next
  case (restart s)
  then show ?case by (simp add: sys_inv_def db_inv_def load_persisted)
qed

lemma reachable_sys_inv: "reachable s \<Longrightarrow> sys_inv s"
proof (induction rule: reachable.induct)
  case (init c)
  then show ?case by (simp add: sys_inv_def sys_init_def db_inv_load_None)
next
  case (step s t)
  from step.hyps(2) step.IH show ?case by (rule sys_step_inv)
qed

section \<open>Lemmas on refinement and delivery\<close>

lemma run_handler_api:
  assumes inv: "db_inv c d" and fresh: "fresh_id e \<notin> set (task_ids d)"
  shows "task_map (table_rows (snd (run_handler h e rq d)) ''tasks'') = task_map (table_rows d ''tasks'') \<or>
    (\<exists>op. api_apply (now e) op (task_map (table_rows d ''tasks'')) =
       Some (task_map (table_rows (snd (run_handler h e rq d)) ''tasks'')))"
proof -
  let ?m = "task_map (table_rows d ''tasks'')"
  have create: "api_apply (now e) (Api_create (fresh_id e) t ds) ?m =
      Some (task_map (table_rows (insert_db ''tasks'' (new_task e t ds) d) ''tasks''))" for t ds
  proof -
    have "fresh_id e \<notin> dom ?m" using fresh by (simp add: dom_task_map task_ids_def)
    then have "?m (fresh_id e) = None" by (simp add: domIff)
    then show ?thesis using fresh by (simp add: insert_db_refines dom_task_map task_ids_def new_task_def)
  qed
  have edit: "api_apply (now e) (Api_edit i t ds) ?m =
      Some (task_map (table_rows (update ''tasks'' i (edit_fields e t ds r) d) ''tasks''))" if "?m i = Some r" for i r t ds
    using that by (simp add: update_refines)
  have complete: "api_apply (now e) (Api_complete i) ?m =
      Some (task_map (table_rows (update ''tasks'' i (complete_fields e r) d) ''tasks''))" if "?m i = Some r" for i r
    using that by (simp add: update_refines)
  have delete: "api_apply (now e) (Api_delete i) ?m =
      Some (task_map (table_rows (delete ''tasks'' i d) ''tasks''))" if "?m i \<noteq> None" for i
    using inv that by (auto simp: delete_refines db_inv_def)
  show ?thesis
  proof (cases h)
    case List_tasks
    then show ?thesis by (simp add: list_tasks_def)
  next
    case Create_task
    with create create_task_effect [of e rq d] show ?thesis by (metis run_handler.simps)
  next
    case Update_task
    with edit update_task_effect [of e rq d] show ?thesis by (metis run_handler.simps)
  next
    case Delete_task
    with delete delete_task_effect [of rq d] show ?thesis by (metis run_handler.simps)
  next
    case Complete_task
    with complete complete_task_effect [of e rq d] show ?thesis by (metis run_handler.simps)
  qed
qed

lemma title_desc_new_task [simp]: "title_desc (new_task e t ds) = (t, ds)"
  by (simp add: title_desc_def new_task_def)

section \<open>The example run is a run\<close>

lemma env_ok_init_example: "env_ok (sys_init []) example_env"
  by (simp add: env_ok_def sys_init_def is_uuid_def is_hex_def task_ids_def load_def persist_def
      table_rows_def)

lemma dispatch_create_example:
  "dispatch example_env example_post (store (sys_init [])) = (Reply (resp 201 Empty), snd (dispatch example_env example_post (load None)))"
  by (simp add: sys_init_def dispatch_eval_simps create_task_def parse_task_body_def csv_payload_def json_get_def
      query_object_def)

lemma step_create_example: "sys_step (sys_init []) example_state"
  using sys_step.request [OF env_ok_init_example dispatch_create_example]
  by (simp add: sys_init_def)

lemma reachable_create_example: "reachable example_state"
  by (rule reachable.step [OF reachable.init step_create_example])

section \<open>Properties of the running server\<close>

text \<open>
  C4 (invariant): in every reachable state of the server, task ids are unique and
  are UUIDs, every task has \<open>created_at \<le> updated_at\<close>, \<open>completed_at \<le>
  updated_at\<close> and \<open>updated_at\<close> no later than the server's clock, and the
  backing file holds exactly the in-memory tables.
\<close>

theorem reachable_invariant:
  assumes "reachable s"
  shows "ids_distinct (table_rows (store s) ''tasks'') \<and>
    list_all (\<lambda>r. is_uuid (task_id r) \<and>
       created_at r \<le> updated_at r \<and> completed_at r \<le> updated_at r \<and> updated_at r \<le> clock s)
      (table_rows (store s) ''tasks'') \<and>
    persisted (store s) = tables (store s)"
  using reachable_sys_inv [OF assms]
  by (auto simp: sys_inv_def db_inv_def task_ok_def list_all_iff consistent_def)

theorem reachable_invariant_witness:
  "ids_distinct (table_rows (store example_state) ''tasks'') \<and>
    list_all (\<lambda>r. is_uuid (task_id r) \<and>
       created_at r \<le> updated_at r \<and> completed_at r \<le> updated_at r \<and> updated_at r \<le> clock example_state)
      (table_rows (store example_state) ''tasks'') \<and>
    persisted (store example_state) = tables (store example_state)"
  by (rule reachable_invariant [OF reachable_create_example])

text \<open>
  C7 (refinement): every step of the server, seen through the map from ids to tasks,
  either changes nothing or is exactly one operation of the abstract task API applied
  at the step's clock reading: a create under a fresh id with an empty completion time
  and equal timestamps, an edit or a completion of an existing task that keeps its
  other fields, or the removal of an existing task.
\<close>

theorem sys_step_refines_api:
  assumes "reachable s" and "sys_step s t"
  shows "task_map (table_rows (store t) ''tasks'') = task_map (table_rows (store s) ''tasks'') \<or>
    (\<exists>op. api_apply (clock t) op (task_map (table_rows (store s) ''tasks'')) =
       Some (task_map (table_rows (store t) ''tasks'')))"
  using assms(2)
proof cases
  case (request e rq res d')
  then show ?thesis
    using dispatch_effect [OF request(3)] run_handler_api reachable_sys_inv [OF assms(1)]
    by (fastforce simp: sys_inv_def env_ok_def)
next
  case (import e rq rows d')
  then show ?thesis using dispatch_Import by fastforce
next
  case (deliver p e res d')
  then show ?thesis
    using dispatch_effect [OF deliver(4)] run_handler_api reachable_sys_inv [OF assms(1)]
    by (fastforce simp: sys_inv_def env_ok_def)
next
  case (lost p)
  then show ?thesis by simp
next
  case restart
  then show ?thesis
    using reachable_sys_inv [OF assms(1)] by (simp add: sys_inv_def db_inv_def load_persisted)
qed

theorem sys_step_refines_api_witness:
  "task_map (table_rows (store example_state) ''tasks'') = task_map (table_rows (store (sys_init [])) ''tasks'') \<or>
    (\<exists>op. api_apply (clock example_state) op (task_map (table_rows (store (sys_init [])) ''tasks'')) =
       Some (task_map (table_rows (store example_state) ''tasks'')))"
  by (rule sys_step_refines_api [OF reachable.init step_create_example])

text \<open>
  C12 (functional): whatever order the fire-and-forget submissions of an import reach
  the server in, the table gains exactly one task per delivered row, with that row's
  title and description: the multiset of (title, description) pairs afterwards is the
  old one plus the delivered rows. In particular the order does not change it.
\<close>

theorem csv_deliveries_add_rows:
  "mset (map title_desc (table_rows (deliver_rows eps d) ''tasks'')) =
   mset (map title_desc (table_rows d ''tasks'')) + mset (map snd eps)"
proof (induction eps d rule: deliver_rows.induct)
  case (1 d)
  then show ?case by simp
next
  case (2 e p eps d)
  then show ?case by (simp add: dispatch_csv_request insert_db_def)
qed

text \<open>
  C11 (liveness): a pending CSV submission can always be delivered under a valid
  environment, creating its task and leaving the pending set.
\<close>

theorem pending_row_deliverable:
  "p \<in># pending s \<Longrightarrow> env_ok s e \<Longrightarrow>
   sys_step s (s\<lparr>store := insert_db ''tasks'' (new_task e (fst p) (snd p)) (store s), clock := now e,
     pending := pending s - {#p#}\<rparr>)"
  by (rule sys_step.deliver [where res = "resp 201 Empty"]) (simp_all add: dispatch_csv_request)

theorem pending_row_deliverable_witness:
  "sys_step ((sys_init [])\<lparr>pending := {#(''A'', ''B'')#}\<rparr>)
     ((sys_init [])\<lparr>pending := {#(''A'', ''B'')#}, store := insert_db ''tasks'' (new_task example_env ''A'' ''B'') (store (sys_init [])),
        clock := now example_env, pending := {#(''A'', ''B'')#} - {#(''A'', ''B'')#}\<rparr>)"
proof -
  have h1: "(''A'', ''B'') \<in># pending ((sys_init [])\<lparr>pending := {#(''A'', ''B'')#}\<rparr>)" by simp
  have h2: "env_ok ((sys_init [])\<lparr>pending := {#(''A'', ''B'')#}\<rparr>) example_env"
    by (simp add: env_ok_def sys_init_def is_uuid_def is_hex_def task_ids_def load_def persist_def
        table_rows_def)
  show ?thesis using pending_row_deliverable [OF h1 h2] by simp
qed

end
