(* ===== verification/Spec2Isabelle.thy ===== *)
theory Spec2Isabelle
  imports System
begin

text \<open>
  \<^bold>\<open>A verification development for the task API of
  netorossetti/ignite-nodejs-01-fundamentos-node.\<close>

  \<^bold>\<open>The program.\<close> A Node.js HTTP server (\<open>src/server.js\<close>) keeps task records
  (id, title, description, completed_at, created_at, updated_at) in a datastore that
  holds them in memory and writes the whole state to a file after every mutation.
  A request is first checked against the CSV import path; otherwise its body is read
  and parsed by the \<open>json\<close> middleware, and the server finds the first route of
  \<open>src/routes.js\<close> whose method equals the request's and whose compiled path regex
  accepts the URL, binds the path parameters and the query string, and runs that
  route's handler. The five handlers validate their input with \<open>zod\<close>, read or
  change the \<open>tasks\<close> table, and answer with a status and a body (\<open>GET /tasks\<close>
  sends \<open>JSON.stringify(tasks)\<close>). The CSV import splits each chunk of the uploaded
  body into lines and posts every acceptable line, as \<open>JSON.stringify\<close> of its
  title and description, to \<open>/tasks\<close> on the same server, without waiting.
  \<open>src/routes.js\<close> also defines \<open>InverseNumberStream\<close>, used only by a
  commented-out route.

  \<^bold>\<open>The theories.\<close>
  \<^item> \<open>Prelude\<close>: the JavaScript string primitives the code calls (\<open>split\<close>
    with a one-character separator, \<open>trim\<close>, \<open>includes\<close>) as executable
    functions with their laws (split/join round trips, trim idempotence,
    \<open>includes\<close> as the substring relation), and lemmas on list predicates.
  \<^item> \<open>JS_Number\<close>: \<open>Number(s)\<close> (StringToNumber: decimal, exponent,
    \<open>0x\<close>/\<open>0o\<close>/\<open>0b\<close>, \<open>Infinity\<close>, \<open>NaN\<close>) and \<open>String(x)\<close>
    (Number::toString with its four layouts) on exact decimals, and
    \<open>InverseNumberStream\<close> (\<open>inverse_number_transform\<close> per chunk,
    \<open>inverse_number_stream\<close>).
  \<^item> \<open>Json\<close>: JSON values, \<open>JSON.stringify\<close> (\<open>js_stringify\<close>), \<open>JSON.parse\<close>
    (\<open>json_parse\<close>, a recursive-descent parser with fuel) and the body middleware
    \<open>json_middleware\<close> (\<open>middlewares/json.js\<close>, not among the sources, modelled
    from the specification).
  \<^item> \<open>Database\<close>: the datastore (\<open>database.js\<close>, not among the sources,
    modelled from the specification). State: the record \<open>db\<close> with the in-memory
    \<open>tables\<close> and the \<open>persisted\<close> file content. Operations \<open>select\<close>,
    \<open>selectFirstOrDefault\<close>, \<open>insert_db\<close>, \<open>update\<close>, \<open>delete\<close>, \<open>load\<close>.
    Abstraction \<open>task_map\<close> (id to task); each mutation refines the map update,
    merge or removal; uniqueness of ids (\<open>ids_distinct\<close>) and persistence
    (\<open>consistent\<close>) are preserved.
  \<^item> \<open>Router\<close>: route templates compiled to segment lists
    (\<open>build_route_path\<close>), matching with the backtracking order of JavaScript
    regular expressions (\<open>match_segs\<close>, \<open>route_exec\<close> for \<open>match\<close>,
    \<open>route_test\<close> for \<open>test\<close>), and \<open>extract_query_params\<close>.
  \<^item> \<open>Routes\<close>: the handlers of \<open>routes.js\<close> (\<open>list_tasks\<close>,
    \<open>create_task\<close>, \<open>update_task\<close>, \<open>delete_task\<close>, \<open>complete_task\<close>)
    with every early return, the two \<open>zod\<close> schemas as parsers, and the route
    table \<open>routes\<close>. The clock reading and \<open>randomUUID()\<close> of a request are the
    record \<open>env\<close>.
  \<^item> \<open>Server\<close>: the request callback \<open>dispatch\<close> (the body of a non-import
    request goes through \<open>json_middleware\<close>) and the CSV transform
    (\<open>csv_row\<close>, \<open>csv_chunk_rows\<close>, \<open>csv_import\<close>, \<open>csv_record\<close>,
    \<open>csv_request\<close>). A request is the record \<open>request\<close> (method, URL, body
    chunks); \<open>dispatch\<close> returns a reply, or the rows an import fires as
    \<open>fetch\<close> calls, together with the new store.
  \<^item> \<open>System\<close>: the running process as the inductive step relation
    \<open>sys_step\<close> on the record \<open>sys\<close> (store, clock, multiset of fired but
    unanswered CSV rows): a request callback, the delivery or loss of a pending
    row in any order, and a restart that reloads the backing file. The
    environment of a step (\<open>env_ok\<close>) has a clock that does not go back and
    a fresh well-formed UUID. \<open>api_apply\<close> is the abstract task API over the
    map from ids to tasks.

  \<^bold>\<open>What is shown.\<close>
  \<^item> Handlers (\<open>Routes\<close>): the functional behaviour of create, edit and complete
    on success; delete answered 404 on a second call; the 404/400 answers for a
    malformed id and the 404 answers for an absent one, with the body validated
    before the lookup in \<open>PUT\<close>; a non-empty search hides every uncompleted task.
  \<^item> Datastore (\<open>Database\<close>): insert followed by the exact-id lookup returns the
    inserted task.
  \<^item> Router (\<open>Router\<close>): a matched URL is rebuilt from the template, the bound
    values and the query string.
  \<^item> Server (\<open>Server\<close>): an undeclared method is answered 404; a body that is
    not JSON, or JSON the schema rejects, is answered 400 with the store unchanged;
    on every store a \<open>POST /tasks\<close> followed by \<open>GET /tasks\<close> lists the old
    table and then the new task; the rows of a CSV import are exactly the trimmed
    halves of the lines with one comma that differ from their chunk's first line.
  \<^item> Running system (\<open>System\<close>): the invariant of every reachable state
    (unique UUID ids, ordered timestamps not later than the clock, the file equal
    to memory), by rule induction over \<open>reachable\<close>; every step refines one
    operation of the abstract API \<open>api_apply\<close> at the step's clock, or none;
    delivering the rows of an import in any order adds exactly one task per row
    with its title and description; a pending row can always be delivered.
  \<^item> \<open>InverseNumberStream\<close> (\<open>JS_Number\<close>): every emitted chunk denotes the
    negation of its input's number, except that the positive zero stays \<open>0\<close>.
  The \<open>Json\<close> theory proves that \<open>JSON.parse\<close> inverts \<open>JSON.stringify\<close> on
  values with normalised finite numbers; the server lemmas use it to show that the
  JSON text of a CSV row reaches \<open>POST /tasks\<close> as the same title and description.

  \<^bold>\<open>Fuel and bounds.\<close> The JSON parser is the only function with fuel:
  \<open>json_parse s\<close> gives it \<open>2 * length s + 1\<close>; every step of the parser consumes
  input and a nested value costs at most two units per character, so this fuel is
  never exhausted (\<open>json_fuel_enough\<close>) and \<open>None\<close> always means a syntax
  error. Every other function is structurally recursive or has a length measure.
  Numbers are exact decimals. IEEE doubles agree with them on at most 15
  significant digits in the normal range; beyond that (for example integers above
  \<open>2^53\<close>) JavaScript rounds where the model does not. The theorem on
  \<open>InverseNumberStream\<close> also holds of doubles, since negation is exact and
  \<open>Number(String(x)) = x\<close> for every double other than the negative zero.

  \<^bold>\<open>Not modelled.\<close> Socket I/O and HTTP parsing, response headers (the
  \<open>Content-Type\<close> the middleware sets), percent-decoding, the rounding of
  numbers to doubles, and the timing of the CSV stream. The objects
  \<open>CSVTransform\<close> pushes after each \<open>fetch\<close> settles (\<open>server.js\<close>, lines
  35--40) are not modelled: the stream is in byte mode, so each push raises
  \<open>ERR_INVALID_ARG_TYPE\<close>, which crashes the process if the stream is still open
  and is ignored if it has ended, so the outcome depends on timing. Strings are byte
  lists in UTF-8: only the single-byte white space is trimmed, invalid UTF-8 in a
  body is not replaced by U+FFFD, and \<open>JSON.stringify\<close> copies the bytes of a
  lone surrogate where JavaScript would escape it.
\<close>

end
